(* ===== verification/Codec.thy ===== *)
theory Codec
  imports Prelude
begin

text \<open>
  The formatting and parsing functions of Rust's standard library that the program relies on:
  little- and big-endian integers (the WAL and TCP frame headers), \<open>{:032x}\<close> and
  \<open>from_str_radix(_, 16)\<close> (how a transaction id travels as text), decimal formatting,
  trimming and \<open>replace\<close>; and \<open>parse_agent_id\<close> of src/raqim-core/src/utils.rs. The lemmas
  are the round trips the other theories use.
\<close>

section \<open>Integers as bytes\<close>

fun le_bytes :: "nat \<Rightarrow> nat \<Rightarrow> bytes" where
  "le_bytes 0 n = []"
| "le_bytes (Suc k) n = word_of_nat (n mod 256) # le_bytes k (n div 256)"

fun le_nat :: "bytes \<Rightarrow> nat" where
  "le_nat [] = 0"
| "le_nat (b # bs) = unat b + 256 * le_nat bs"

definition u32_to_le :: "u32 \<Rightarrow> bytes" where
  "u32_to_le w = le_bytes 4 (unat w)"

definition u32_from_le :: "bytes \<Rightarrow> u32" where
  "u32_from_le bs = word_of_nat (le_nat bs)"

definition u64_to_le :: "u64 \<Rightarrow> bytes" where
  "u64_to_le w = le_bytes 8 (unat w)"

definition u128_to_be :: "u128 \<Rightarrow> bytes" where
  "u128_to_be w = rev (le_bytes 16 (unat w))"

lemma length_le_bytes [simp, codec_simps]: "length (le_bytes k n) = k"
  by (induction k arbitrary: n) auto

lemma length_u32_to_le [simp, codec_simps]: "length (u32_to_le w) = 4"
  by (simp add: u32_to_le_def)

lemma length_u64_to_le [simp, codec_simps]: "length (u64_to_le w) = 8"
  by (simp add: u64_to_le_def)

lemma length_u128_to_be [simp, codec_simps]: "length (u128_to_be w) = 16"
  by (simp add: u128_to_be_def)

lemma unat_byte [simp]: "unat (word_of_nat (n mod 256) :: u8) = n mod 256"
  by (simp add: unat_of_nat)

lemma le_nat_le_bytes [codec_simps]: "le_nat (le_bytes k n) = n mod 256 ^ k"
proof (induction k arbitrary: n)
  case (Suc k)
  have "n mod (256 * 256 ^ k) = 256 * (n div 256 mod 256 ^ k) + n mod 256"
    by (rule mod_mult2_eq)
  with Suc show ?case by simp
qed simp

lemma u32_from_le_to_le [simp, codec_simps]: "u32_from_le (u32_to_le w) = w"
proof -
  have "unat w < 2 ^ 32" using unat_lt [of w] by simp
  then show ?thesis by (simp add: u32_from_le_def u32_to_le_def le_nat_le_bytes)
qed

lemma le_bytes_inj: "le_bytes k m = le_bytes k n \<Longrightarrow> m < 256 ^ k \<Longrightarrow> n < 256 ^ k \<Longrightarrow> m = n"
  by (metis le_nat_le_bytes mod_less)

lemma u64_to_le_inj [simp]: "u64_to_le a = u64_to_le b \<longleftrightarrow> a = b"
proof
  assume eq: "u64_to_le a = u64_to_le b"
  have "unat a < 256 ^ 8" "unat b < 256 ^ 8"
    using unat_lt [of a] unat_lt [of b] by simp_all
  with eq have "unat a = unat b"
    by (intro le_bytes_inj [of 8]) (simp_all only: u64_to_le_def)
  then show "a = b" by (simp add: word_unat_eq_iff)
qed simp

section \<open>Hexadecimal and decimal text\<close>

definition hexdig :: "nat \<Rightarrow> char" where
  "hexdig d = (if d < 10 then char_of (48 + d) else char_of (87 + d))"

text \<open>\<open>char::to_digit(16)\<close>: both cases are accepted.\<close>

definition hexval :: "char \<Rightarrow> nat option" where
  "hexval c = (let n = (of_char c :: nat) in
     if 48 \<le> n \<and> n \<le> 57 then Some (n - 48)
     else if 97 \<le> n \<and> n \<le> 102 then Some (n - 87)
     else if 65 \<le> n \<and> n \<le> 70 then Some (n - 55)
     else None)"

lemma hexval_hexdig [simp, codec_simps]: "d < 16 \<Longrightarrow> hexval (hexdig d) = Some d"
  by (auto simp: hexval_def hexdig_def Let_def)

fun hex_digits :: "nat \<Rightarrow> string" where
  "hex_digits n = (if n < 16 then [hexdig n] else hex_digits (n div 16) @ [hexdig (n mod 16)])"

declare hex_digits.simps [simp del]

text \<open>\<open>format!("{:032x}", x)\<close>: lower case, padded with zeros on the left to 32 digits.\<close>

definition fmt_032x :: "u128 \<Rightarrow> string" where
  "fmt_032x x = (let ds = hex_digits (unat x) in replicate (32 - length ds) (CHR ''0'') @ ds)"

fun parse_hex :: "nat \<Rightarrow> string \<Rightarrow> nat option" where
  "parse_hex acc [] = Some acc"
| "parse_hex acc (c # cs) =
     (case hexval c of None \<Rightarrow> None | Some d \<Rightarrow> parse_hex (16 * acc + d) cs)"

text \<open>
  \<open>u128::from_str_radix(s, 16)\<close>: the empty string, a lone sign and a character that is not a
  hexadecimal digit are errors, one leading \<open>+\<close> is accepted, and so is any number of leading
  zeros; a value of 2^128 or more overflows.
\<close>

definition from_str_radix16 :: "string \<Rightarrow> u128 option" where
  "from_str_radix16 s =
     (let ds = (case s of [] \<Rightarrow> [] | c # cs \<Rightarrow> if c = CHR ''+'' then cs else s)
      in if ds = [] then None
         else case parse_hex 0 ds of
                None \<Rightarrow> None
              | Some n \<Rightarrow> if n < 2 ^ 128 then Some (word_of_nat n) else None)"

lemma parse_hex_append:
  "parse_hex acc (xs @ ys) = (case parse_hex acc xs of None \<Rightarrow> None | Some a \<Rightarrow> parse_hex a ys)"
  by (induction acc xs rule: parse_hex.induct) (auto split: option.splits)

lemma parse_hex_digits: "parse_hex 0 (hex_digits n) = Some n"
proof (induction n rule: hex_digits.induct)
  case (1 n)
  then show ?case
    by (cases "n < 16") (simp_all add: hex_digits.simps [of n] parse_hex_append)
qed

lemma hexval_zero [simp]: "hexval (CHR ''0'') = Some 0"
  by (simp add: hexval_def)

lemma parse_hex_zeros: "parse_hex 0 (replicate k (CHR ''0'') @ s) = parse_hex 0 s"
  by (induction k) simp_all

lemma hex_digits_neq_Nil [simp]: "hex_digits n \<noteq> []"
  by (subst hex_digits.simps) simp

lemma hexval_plus [simp]: "hexval (CHR ''+'') = None"
  by (simp add: hexval_def)

theorem from_str_radix16_fmt_032x: "from_str_radix16 (fmt_032x x) = Some x"
proof -
  let ?s = "fmt_032x x"
  have p: "parse_hex 0 ?s = Some (unat x)"
    by (simp add: fmt_032x_def Let_def parse_hex_zeros parse_hex_digits)
  have ne: "?s \<noteq> []" by (simp add: fmt_032x_def Let_def)
  have np: "hd ?s \<noteq> CHR ''+''"
  proof
    assume "hd ?s = CHR ''+''"
    with ne p show False by (cases ?s) simp_all
  qed
  have b: "unat x < 2 ^ 128" using unat_lt [of x] by simp
  from ne np p b show ?thesis
    by (cases ?s) (simp_all add: from_str_radix16_def Let_def)
qed

lemma length_hex_digits: "n < 16 ^ Suc k \<Longrightarrow> length (hex_digits n) \<le> Suc k"
proof (induction k arbitrary: n)
  case 0
  then show ?case by (simp add: hex_digits.simps [of n])
next
  case (Suc k)
  show ?case
  proof (cases "n < 16")
    case False
    from Suc.prems have "n div 16 < 16 ^ Suc k" by (simp add: less_mult_imp_div_less mult.commute)
    then have "length (hex_digits (n div 16)) \<le> Suc k" by (rule Suc.IH)
    with False show ?thesis by (simp add: hex_digits.simps [of n])
  qed (simp add: hex_digits.simps [of n])
qed

lemma length_fmt_032x [simp]: "length (fmt_032x x) = 32"
proof -
  have "unat x < 16 ^ Suc 31" using unat_lt [of x] by simp
  then have "length (hex_digits (unat x)) \<le> 32" using length_hex_digits [of "unat x" 31] by simp
  then show ?thesis by (simp add: fmt_032x_def Let_def)
qed

lemma fmt_032x_inj [simp]: "fmt_032x a = fmt_032x b \<longleftrightarrow> a = b"
  by (metis from_str_radix16_fmt_032x option.inject)

text \<open>\<open>{}\<close> on unsigned and signed integers.\<close>

fun dec_digits :: "nat \<Rightarrow> string" where
  "dec_digits n = (if n < 10 then [char_of (48 + n)] else dec_digits (n div 10) @ [char_of (48 + n mod 10)])"

declare dec_digits.simps [simp del]

definition fmt_nat :: "nat \<Rightarrow> string" where
  "fmt_nat n = dec_digits n"

definition fmt_i64 :: "i64 \<Rightarrow> string" where
  "fmt_i64 w = (if sint w < 0 then CHR ''-'' # dec_digits (nat (- sint w)) else dec_digits (nat (sint w)))"

text \<open>\<open>format!("{:08}", n)\<close>.\<close>

definition fmt_08 :: "nat \<Rightarrow> string" where
  "fmt_08 n = (let ds = dec_digits n in replicate (8 - length ds) (CHR ''0'') @ ds)"

fun parse_dec :: "nat \<Rightarrow> string \<Rightarrow> nat" where
  "parse_dec acc [] = acc"
| "parse_dec acc (c # cs) = parse_dec (10 * acc + (of_char c - 48)) cs"

lemma parse_dec_append: "parse_dec acc (xs @ ys) = parse_dec (parse_dec acc xs) ys"
  by (induction acc xs rule: parse_dec.induct) auto

lemma parse_dec_digits: "parse_dec 0 (dec_digits n) = n"
proof (induction n rule: dec_digits.induct)
  case (1 n)
  then show ?case
    by (cases "n < 10") (simp_all add: dec_digits.simps [of n] parse_dec_append)
qed

lemma parse_dec_zeros: "parse_dec 0 (replicate k (CHR ''0'') @ s) = parse_dec 0 s"
  by (induction k) simp_all

lemma fmt_nat_inj [simp]: "fmt_nat m = fmt_nat n \<longleftrightarrow> m = n"
  by (metis fmt_nat_def parse_dec_digits)

lemma fmt_08_inj [simp]: "fmt_08 m = fmt_08 n \<longleftrightarrow> m = n"
  by (metis fmt_08_def parse_dec_digits parse_dec_zeros)

section \<open>Trimming and replacing\<close>

text \<open>
  The UTF-8 encodings of the characters with the Unicode property \<open>White_Space\<close>, which
  \<open>str::trim\<close> removes at both ends.
\<close>

definition white_space :: "string list" where
  "white_space =
     map (\<lambda>n. [char_of n]) [9, 10, 11, 12, 13, 32 :: nat]
     @ map (map char_of) [[194, 133], [194, 160], [225, 154, 128 :: nat]]
     @ map (\<lambda>n. map char_of [226, 128, n]) ([128..<139] @ [168, 169, 175 :: nat])
     @ map (map char_of) [[226, 129, 159], [227, 128, 128 :: nat]]"

fun strip_any :: "string list \<Rightarrow> string \<Rightarrow> string option" where
  "strip_any [] s = None"
| "strip_any (p # ps) s =
     (if p \<noteq> [] \<and> starts_with s p then Some (drop (length p) s) else strip_any ps s)"

lemma strip_any_length: "strip_any ps s = Some t \<Longrightarrow> length t < length s"
  by (induction ps) (auto split: if_splits simp: starts_with_iff)

text \<open>\<open>trim_start_matches\<close>: strips a prefix for as long as one of the patterns matches.\<close>

function trim_start_matches :: "string list \<Rightarrow> string \<Rightarrow> string" where
  "trim_start_matches ps s =
     (case strip_any ps s of None \<Rightarrow> s | Some t \<Rightarrow> trim_start_matches ps t)"
  by pat_completeness auto
termination
  by (relation "measure (\<lambda>(ps, s). length s)") (auto dest: strip_any_length)

declare trim_start_matches.simps [simp del]

definition trim_end_matches :: "string list \<Rightarrow> string \<Rightarrow> string" where
  "trim_end_matches ps s = rev (trim_start_matches (map rev ps) (rev s))"

definition str_trim :: "string \<Rightarrow> string" where
  "str_trim s = trim_end_matches white_space (trim_start_matches white_space s)"

lemma strip_any_suffix: "strip_any ps s = Some t \<Longrightarrow> \<exists>p. s = p @ t"
  by (induction ps) (auto split: if_splits simp: starts_with_iff)

lemma trim_start_matches_suffix: "\<exists>p. s = p @ trim_start_matches ps s"
proof (induction ps s rule: trim_start_matches.induct)
  case (1 ps s)
  show ?case
  proof (cases "strip_any ps s")
    case None
    then show ?thesis by (simp add: trim_start_matches.simps [of ps s])
  next
    case (Some t)
    with "1.IH" obtain p where "t = p @ trim_start_matches ps t" by blast
    moreover from Some obtain q where "s = q @ t" by (auto dest: strip_any_suffix)
    ultimately have "s = (q @ p) @ trim_start_matches ps t" by simp
    moreover from Some have "trim_start_matches ps s = trim_start_matches ps t"
      by (simp add: trim_start_matches.simps [of ps s])
    ultimately show ?thesis by metis
  qed
qed

lemma trim_start_matches_fixed [simp]:
  "strip_any ps (trim_start_matches ps s) = None"
  by (induction ps s rule: trim_start_matches.induct)
    (metis option.case_eq_if option.collapse trim_start_matches.simps)

text \<open>\<open>str::replace\<close>: every match, left to right, without overlap (the pattern is not empty).\<close>

function replace :: "string \<Rightarrow> string \<Rightarrow> string \<Rightarrow> string" where
  "replace p r [] = []"
| "replace p r (c # cs) =
     (if p \<noteq> [] \<and> starts_with (c # cs) p then r @ replace p r (drop (length p) (c # cs))
      else c # replace p r cs)"
  by pat_completeness auto
termination
  by (relation "measure (\<lambda>(p, r, s). length s)") auto

text \<open>
  \<open>chars().take(n)\<close>: the first \<open>n\<close> scalar values of a UTF-8 string; a byte between 128 and 191
  continues the value before it.
\<close>

definition continuation_byte :: "char \<Rightarrow> bool" where
  "continuation_byte c = (let n = (of_char c :: nat) in 128 \<le> n \<and> n < 192)"

fun take_chars :: "nat \<Rightarrow> string \<Rightarrow> string" where
  "take_chars n [] = []"
| "take_chars n (c # cs) =
     (if continuation_byte c then c # take_chars n cs
      else case n of 0 \<Rightarrow> [] | Suc m \<Rightarrow> c # take_chars m cs)"

lemma take_chars_prefix: "starts_with s (take_chars n s)"
  by (induction n s rule: take_chars.induct) (auto split: nat.splits)

section \<open>Agent identifiers\<close>

text \<open>
  \<open>utils::parse_agent_id\<close>. The \<open>hex\<close> crate is not under src/: \<open>dec\<close> is \<open>hex::decode\<close>.
  \<open>copy_from_slice\<close> panics when the lengths differ.
\<close>

definition parse_agent_id :: "(string \<Rightarrow> bytes option) \<Rightarrow> string \<Rightarrow> bytes res" where
  "parse_agent_id dec hex_str =
     (let clean_hex = trim_start_matches [''0x''] (str_trim hex_str)
      in if length clean_hex \<noteq> 32
         then Inl (Err ''Agent ID must be exactly 32 hex characters'')
         else case dec clean_hex of
                None \<Rightarrow> Inl (Err ''hex decode error'')
              | Some decoded \<Rightarrow>
                  if length decoded = 16 then Inr decoded
                  else Inl (Panic ''copy_from_slice: source slice length does not match''))"

end
