(* ===== verification/Types.thy ===== *)
theory Types
  imports Codec
begin

text \<open>
  The data the components exchange: the structs and enums of src/raqim-core/src/lib.rs, and the
  wire and ledger types of aegis.rs, axon.rs, witness.rs and api.rs that more than one component
  uses. Field names carry a prefix for their struct, because Isabelle record fields share one
  name space. \<open>[u8; n]\<close> arrays are byte lists; where their length matters it is a hypothesis
  or an invariant. The archived (zero-copy) view of a struct is modelled by the struct itself.
\<close>

section \<open>Agent states, logs and envelopes (lib.rs)\<close>

datatype agent_status = Idle | Reasoning | ToolExecution | Halted

text \<open>The derived \<open>Debug\<close> form of \<open>AgentStatus\<close>, as \<open>format!("{:?}", status)\<close> prints it.\<close>

fun debug_status :: "agent_status \<Rightarrow> string" where
  "debug_status Idle = ''Idle''"
| "debug_status Reasoning = ''Reasoning''"
| "debug_status ToolExecution = ''ToolExecution''"
| "debug_status Halted = ''Halted''"

lemma debug_status_inj [simp]: "debug_status a = debug_status b \<longleftrightarrow> a = b"
  by (cases a; cases b) simp_all

record agent_state =
  st_agent_id :: "bytes option"
  st_transaction_id :: u128
  st_timestamp :: i64
  st_status :: agent_status
  st_text :: string
  st_namespace :: string

record op_log =
  ol_agent_id :: bytes
  ol_state :: agent_state
  ol_delta :: bytes
  ol_previous_hash :: bytes
  ol_current_hash :: bytes
  ol_entropy_seeds :: "u64 list"
  ol_network_responses :: "string list"

abbreviation ol_txid :: "op_log \<Rightarrow> u128" where
  "ol_txid l \<equiv> st_transaction_id (ol_state l)"

abbreviation ol_namespace :: "op_log \<Rightarrow> string" where
  "ol_namespace l \<equiv> st_namespace (ol_state l)"

record a2a_envelope =
  a2a_sender_id :: bytes
  a2a_sender_public_key :: bytes
  a2a_target_capability :: string
  a2a_payload :: bytes
  a2a_signature :: bytes
  a2a_sender_capability_cert :: bytes
  a2a_timestamp :: i64

record ingress_envelope =
  in_intent_path :: string
  in_public_key :: bytes
  in_signature :: bytes
  in_state_bytes :: bytes
  in_capability_cert :: bytes

record effect_record =
  ef_agent_id :: bytes
  ef_step_ordinal :: u64
  ef_call_signature_hash :: bytes
  ef_output_payload :: bytes
  ef_transaction_id :: u128
  ef_timestamp :: i64

section \<open>Ledger and firewall records\<close>

record quarantine_record =
  q_agent_hex :: string
  q_violation_type :: string
  q_attemped_path :: string
  q_payload_preview :: string
  q_timestamp :: u64

record capability_certificate =
  cc_agent_hex :: string
  cc_group_name :: string
  cc_expiration_timestamp :: u64
  cc_master_signature :: bytes

record markle_batch =
  mb_batch_id :: u64
  mb_namespace :: string
  mb_markle_root :: bytes
  mb_parent_batch_root :: bytes
  mb_leaves :: "bytes list"

record inclusion_proof =
  ip_tx_id_hex :: string
  ip_leaf_index :: nat
  ip_sibling_hashes_hex :: "string list"
  ip_merkle_root_hex :: string
  ip_parent_batch_root_hex :: string
  ip_batch_id :: u64
  ip_is_active_buffer :: bool

record anchored_root_witness =
  aw_batch_id :: u64
  aw_namespace :: string
  aw_merkle_root_hex :: string
  aw_parent_batch_root_hex :: string
  aw_leaf_count :: nat
  aw_timestamp :: u64
  aw_master_signature_hex :: string

record certified_bundle_block =
  cb_witness :: anchored_root_witness
  cb_raw_logs :: "op_log list"

section \<open>Query results (api.rs)\<close>

record vault_search_result =
  vs_tx_id :: u128
  vs_agent_hex :: string
  vs_namespace :: string
  vs_payload :: string
  vs_timestamp :: string
  vs_source :: string
  vs_similarity_score :: f32

record timeline_node =
  tn_tx_id :: u128
  tn_timestamp :: string
  tn_agent_status :: string
  tn_payload_preview :: string

section \<open>Events\<close>

text \<open>\<open>SystemEvent\<close>: the internal bus; the arguments are the fields in the source's order.\<close>

datatype system_event =
    ThoughtCommitted string string string string
  | SecurityBreach string string string
  | RealityForked string string string u64 string i64
  | AegisInterdiction string string string string
  | CompactionTriggered nat u128
  | PluginLoaded string
  | SystemBoot string
  | LicenseUpdated string
  | GlobalQuarantineSync quarantine_record
  | MarkleBatchCrystallized markle_batch

text \<open>\<open>UiEvent\<close> of api.rs: what the dashboards are sent.\<close>

datatype ui_event =
    UiThoughtCommitted string string string string
  | UiRealityForked string string string u64 string
  | UiA2aMessageRouted string string string string string u32
  | UiAegisAlert quarantine_record

record runtime_security_flags =
  allow_global_a2a :: bool
  allow_global_crdt :: bool
  allow_global_aegis :: bool
  allow_time_travel :: bool
  tenant_id :: string

definition runtime_security_flags_new :: runtime_security_flags where
  "runtime_security_flags_new =
     \<lparr>allow_global_a2a = True, allow_global_crdt = True, allow_global_aegis = True,
      allow_time_travel = True, tenant_id = ''local_standalone''\<rparr>"

end
