(* ===== verification/Externs.thy ===== *)
theory Externs
  imports Types
begin

text \<open>
  The third-party libraries the program calls, as a record of functions that every definition
  takes as its argument: BLAKE3 in key-derivation mode, CRC32, the \<open>hex\<close> crate, Ed25519,
  postcard and rkyv. Nothing is assumed of them here. What the code relies on is stated as a
  named predicate per library (\<open>hash_ok\<close>, \<open>hex_ok\<close>, \<dots>), each a documented property of that
  library, and is a hypothesis of the theorems that need it; the theory Demo_Externs gives a
  concrete record that satisfies all of them.
\<close>

record ext =
  x_blake3 :: "string \<Rightarrow> bytes \<Rightarrow> bytes"
  x_crc32 :: "bytes \<Rightarrow> u32"
  x_hex_encode :: "bytes \<Rightarrow> string"
  x_hex_decode :: "string \<Rightarrow> bytes option"
  x_ed_public :: "bytes \<Rightarrow> bytes"
  x_ed_sign :: "bytes \<Rightarrow> bytes \<Rightarrow> bytes"
  x_ed_key_ok :: "bytes \<Rightarrow> bool"
  x_ed_verify :: "bytes \<Rightarrow> bytes \<Rightarrow> bytes \<Rightarrow> bool"
  x_cert_to :: "capability_certificate \<Rightarrow> bytes"
  x_cert_from :: "bytes \<Rightarrow> capability_certificate option"
  x_quarantine_to :: "quarantine_record \<Rightarrow> bytes"
  x_quarantine_from :: "bytes \<Rightarrow> quarantine_record option"
  x_oplog_to :: "op_log \<Rightarrow> bytes"
  x_oplog_access :: "bytes \<Rightarrow> op_log option"
  x_oplogs_to :: "op_log list \<Rightarrow> bytes"
  x_oplogs_access :: "bytes \<Rightarrow> op_log list option"
  x_state_to :: "agent_state \<Rightarrow> bytes"
  x_state_access :: "bytes \<Rightarrow> agent_state option"
  x_ingress_to :: "ingress_envelope \<Rightarrow> bytes"
  x_ingress_access :: "bytes \<Rightarrow> ingress_envelope option"
  x_a2a_to :: "a2a_envelope \<Rightarrow> bytes"
  x_a2a_access :: "bytes \<Rightarrow> a2a_envelope option"
  x_oplog_unchecked :: "bytes \<Rightarrow> op_log"
  x_state_unchecked :: "bytes \<Rightarrow> agent_state"
  x_a2a_unchecked :: "bytes \<Rightarrow> a2a_envelope"
  x_bundle_to :: "certified_bundle_block \<Rightarrow> bytes"
  x_bundle_from :: "bytes \<Rightarrow> certified_bundle_block option"
  x_seeds_to :: "u64 list \<Rightarrow> string"
  x_seeds_from :: "string \<Rightarrow> u64 list option"
  x_strings_to :: "string list \<Rightarrow> string"
  x_strings_from :: "string \<Rightarrow> string list option"

text \<open>BLAKE3 gives 32 bytes; a shorter extendable output is a prefix of it.\<close>

definition hash_ok :: "ext \<Rightarrow> bool" where
  "hash_ok E \<longleftrightarrow> (\<forall>c x. length (x_blake3 E c x) = 32)"

text \<open>\<open>hex::decode\<close> inverts \<open>hex::encode\<close>; two characters per byte.\<close>

definition hex_ok :: "ext \<Rightarrow> bool" where
  "hex_ok E \<longleftrightarrow> (\<forall>b. x_hex_decode E (x_hex_encode E b) = Some b
                 \<and> length (x_hex_encode E b) = 2 * length b)"

text \<open>\<open>hex::decode\<close> accepts hexadecimal digits only.\<close>

definition hex_strict :: "ext \<Rightarrow> bool" where
  "hex_strict E \<longleftrightarrow> (\<forall>s b. x_hex_decode E s = Some b \<longrightarrow>
     length s = 2 * length b \<and> (\<forall>c \<in> set s. hexval c \<noteq> None))"

text \<open>Ed25519: a signature made with a key verifies under its public key.\<close>

definition ed_ok :: "ext \<Rightarrow> bool" where
  "ed_ok E \<longleftrightarrow> (\<forall>sk m. x_ed_key_ok E (x_ed_public E sk)
      \<and> x_ed_verify E (x_ed_public E sk) m (x_ed_sign E sk m)
      \<and> length (x_ed_sign E sk m) = 64 \<and> length (x_ed_public E sk) = 32)"

definition postcard_ok :: "ext \<Rightarrow> bool" where
  "postcard_ok E \<longleftrightarrow> (\<forall>c. x_cert_from E (x_cert_to E c) = Some c)
     \<and> (\<forall>q. x_quarantine_from E (x_quarantine_to E q) = Some q)"

text \<open>
  \<open>rkyv::access\<close> on the bytes \<open>rkyv::to_bytes\<close> gave for the same type; where the checked access
  succeeds, \<open>access_unchecked\<close> reads the same value. On any other bytes the unchecked access is
  undefined behaviour in Rust and an unspecified value here.
\<close>

definition rkyv_ok :: "ext \<Rightarrow> bool" where
  "rkyv_ok E \<longleftrightarrow> (\<forall>l. x_oplog_access E (x_oplog_to E l) = Some l)
     \<and> (\<forall>ls. x_oplogs_access E (x_oplogs_to E ls) = Some ls)
     \<and> (\<forall>s. x_state_access E (x_state_to E s) = Some s)
     \<and> (\<forall>i. x_ingress_access E (x_ingress_to E i) = Some i)
     \<and> (\<forall>a. x_a2a_access E (x_a2a_to E a) = Some a)
     \<and> (\<forall>b l. x_oplog_access E b = Some l \<longrightarrow> x_oplog_unchecked E b = l)
     \<and> (\<forall>b s. x_state_access E b = Some s \<longrightarrow> x_state_unchecked E b = s)
     \<and> (\<forall>b a. x_a2a_access E b = Some a \<longrightarrow> x_a2a_unchecked E b = a)"

text \<open>\<open>serde_json\<close>: reading back what it wrote.\<close>

definition serde_ok :: "ext \<Rightarrow> bool" where
  "serde_ok E \<longleftrightarrow> (\<forall>b. x_bundle_from E (x_bundle_to E b) = Some b)
     \<and> (\<forall>x. x_seeds_from E (x_seeds_to E x) = Some x)
     \<and> (\<forall>x. x_strings_from E (x_strings_to E x) = Some x)"

lemma hash_ok_length [simp]: "hash_ok E \<Longrightarrow> length (x_blake3 E c x) = 32"
  by (simp add: hash_ok_def)

lemma hex_ok_decode [simp]: "hex_ok E \<Longrightarrow> x_hex_decode E (x_hex_encode E b) = Some b"
  by (simp add: hex_ok_def)

lemma hex_ok_length [simp]: "hex_ok E \<Longrightarrow> length (x_hex_encode E b) = 2 * length b"
  by (simp add: hex_ok_def)

lemma hex_ok_inj: "hex_ok E \<Longrightarrow> x_hex_encode E a = x_hex_encode E b \<longleftrightarrow> a = b"
  by (metis hex_ok_decode option.inject)

lemma postcard_ok_cert [simp]: "postcard_ok E \<Longrightarrow> x_cert_from E (x_cert_to E c) = Some c"
  unfolding postcard_ok_def by blast

lemma postcard_ok_quarantine [simp]:
  "postcard_ok E \<Longrightarrow> x_quarantine_from E (x_quarantine_to E q) = Some q"
  unfolding postcard_ok_def by blast

lemma rkyv_ok_oplogs [simp]: "rkyv_ok E \<Longrightarrow> x_oplogs_access E (x_oplogs_to E ls) = Some ls"
  unfolding rkyv_ok_def by blast

lemma rkyv_ok_oplog [simp]: "rkyv_ok E \<Longrightarrow> x_oplog_access E (x_oplog_to E l) = Some l"
  unfolding rkyv_ok_def by blast

lemma rkyv_ok_state [simp]: "rkyv_ok E \<Longrightarrow> x_state_access E (x_state_to E s) = Some s"
  unfolding rkyv_ok_def by blast

lemma rkyv_ok_ingress [simp]: "rkyv_ok E \<Longrightarrow> x_ingress_access E (x_ingress_to E i) = Some i"
  unfolding rkyv_ok_def by blast

lemma rkyv_ok_unchecked:
  assumes "rkyv_ok E"
  shows "x_oplog_access E b = Some l \<Longrightarrow> x_oplog_unchecked E b = l"
    and "x_state_access E b = Some s \<Longrightarrow> x_state_unchecked E b = s"
    and "x_a2a_access E b = Some a \<Longrightarrow> x_a2a_unchecked E b = a"
  using assms unfolding rkyv_ok_def by blast+

lemma serde_ok_simps [simp]:
  "serde_ok E \<Longrightarrow> x_bundle_from E (x_bundle_to E bb) = Some bb"
  "serde_ok E \<Longrightarrow> x_seeds_from E (x_seeds_to E sd) = Some sd"
  "serde_ok E \<Longrightarrow> x_strings_from E (x_strings_to E st) = Some st"
  unfolding serde_ok_def by blast+

lemma rkyv_ok_a2a [simp]: "rkyv_ok E \<Longrightarrow> x_a2a_access E (x_a2a_to E a) = Some a"
  unfolding rkyv_ok_def by blast

lemma ed_ok_simps:
  assumes "ed_ok E"
  shows "x_ed_key_ok E (x_ed_public E sk)" "x_ed_verify E (x_ed_public E sk) m (x_ed_sign E sk m)"
    "length (x_ed_sign E sk m) = 64" "length (x_ed_public E sk) = 32"
  using assms by (simp_all add: ed_ok_def)

section \<open>Derived keys of lib.rs\<close>

text \<open>
  The identity of an agent: 16 bytes of the BLAKE3 output of its public key in the context
  \<open>raqim.agent.v1.identity\<close> (aegis.rs, main.rs and the CLI compute it the same way).
\<close>

definition derive_agent_id :: "ext \<Rightarrow> bytes \<Rightarrow> bytes" where
  "derive_agent_id E pub = take 16 (x_blake3 E ''raqim.agent.v1.identity'' pub)"

text \<open>\<open>EffectKey::derive\<close>.\<close>

definition effect_key_derive :: "ext \<Rightarrow> bytes \<Rightarrow> u64 \<Rightarrow> bytes \<Rightarrow> bytes" where
  "effect_key_derive E agent_id step_ordinal call_hash =
     x_blake3 E ''raqim.effect.v1.key'' (agent_id @ u64_to_le step_ordinal @ call_hash)"

text \<open>The hashed message determines the three parts, since two of them have a fixed length.\<close>

lemma effect_key_message_inj:
  assumes "length a = 16" and "length a' = 16"
    and "a @ u64_to_le s @ c = a' @ u64_to_le s' @ c'"
  shows "a = a' \<and> s = s' \<and> c = c'"
  using assms by (simp add: append_eq_append_conv)

end
