(* ===== verification/Demo_Externs.thy ===== *)
theory Demo_Externs
  imports Externs
begin

text \<open>
  A concrete record of the external libraries that satisfies every law of the theory Externs:
  a self-delimiting serialisation for postcard and rkyv, hexadecimal text, and toy digests and
  signatures with the lengths of the real ones. It shows that the laws are consistent and is
  what the witnesses evaluate on; no property is proved about it alone.
\<close>

section \<open>Self-delimiting serialisers\<close>

text \<open>
  A serialiser \<open>put\<close> and a parser \<open>get\<close> that reads one value from the front of a byte string
  and returns the rest.
\<close>

definition ok_codec :: "('a \<Rightarrow> bytes) \<Rightarrow> (bytes \<Rightarrow> ('a \<times> bytes) option) \<Rightarrow> bool" where
  "ok_codec put get \<longleftrightarrow> (\<forall>x r. get (put x @ r) = Some (x, r))"

lemma ok_codecD: "ok_codec put get \<Longrightarrow> get (put x @ r) = Some (x, r)"
  by (simp add: ok_codec_def)

definition whole :: "(bytes \<Rightarrow> ('a \<times> bytes) option) \<Rightarrow> bytes \<Rightarrow> 'a option" where
  "whole get bs = (case get bs of Some (x, []) \<Rightarrow> Some x | _ \<Rightarrow> None)"

lemma whole_put: "ok_codec put get \<Longrightarrow> whole get (put x) = Some x"
  using ok_codecD [of put get x "[]"] by (simp add: whole_def)

definition put_word :: "'a::len word \<Rightarrow> bytes" where
  "put_word w = le_bytes 16 (unat w)"

definition get_word :: "bytes \<Rightarrow> ('a::len word \<times> bytes) option" where
  "get_word bs = (if length bs < 16 then None
     else Some (word_of_nat (le_nat (take 16 bs)), drop 16 bs))"

lemma ok_word:
  assumes "LENGTH('a::len) \<le> 128"
  shows "ok_codec put_word (get_word :: bytes \<Rightarrow> ('a word \<times> bytes) option)"
proof -
  have "unat (w :: 'a word) < 256 ^ 16" for w
  proof -
    have "unat w < 2 ^ LENGTH('a)" by (rule unat_lt)
    also have "(2::nat) ^ LENGTH('a) \<le> 2 ^ 128" by (rule power_increasing [OF assms]) simp
    finally show ?thesis by simp
  qed
  then show ?thesis by (simp add: ok_codec_def put_word_def get_word_def le_nat_le_bytes)
qed

fun put_nat :: "nat \<Rightarrow> bytes" where
  "put_nat 0 = [0]"
| "put_nat (Suc n) = 1 # put_nat n"

fun get_nat :: "bytes \<Rightarrow> (nat \<times> bytes) option" where
  "get_nat [] = None"
| "get_nat (b # bs) =
     (if b = 0 then Some (0, bs)
      else case get_nat bs of None \<Rightarrow> None | Some (n, r) \<Rightarrow> Some (Suc n, r))"

lemma get_put_nat [simp]: "get_nat (put_nat n @ r) = Some (n, r)"
  by (induction n) simp_all

definition put_bytes :: "bytes \<Rightarrow> bytes" where
  "put_bytes b = put_nat (length b) @ b"

definition get_bytes :: "bytes \<Rightarrow> (bytes \<times> bytes) option" where
  "get_bytes bs = (case get_nat bs of None \<Rightarrow> None | Some (n, r) \<Rightarrow> Some (take n r, drop n r))"

lemma ok_bytes [simp]: "get_bytes (put_bytes b @ r) = Some (b, r)"
  by (simp add: put_bytes_def get_bytes_def)

definition put_str :: "string \<Rightarrow> bytes" where
  "put_str s = put_bytes (as_bytes s)"

definition get_str :: "bytes \<Rightarrow> (string \<times> bytes) option" where
  "get_str bs = map_option (\<lambda>(b, r). (map (\<lambda>w. char_of (unat w)) b, r)) (get_bytes bs)"

lemma char_of_byte [simp]: "char_of (unat (of_char c :: u8)) = c"
proof -
  have "(of_char c :: u8) = word_of_nat (of_char c mod 256)" by (simp add: of_nat_of_char)
  then have "unat (of_char c :: u8) = of_char c mod 256" by (simp only: unat_byte)
  then show ?thesis by simp
qed

lemma ok_str [simp]: "get_str (put_str s @ r) = Some (s, r)"
  by (simp add: put_str_def get_str_def as_bytes_def comp_def)

fun get_n :: "(bytes \<Rightarrow> ('a \<times> bytes) option) \<Rightarrow> nat \<Rightarrow> bytes \<Rightarrow> ('a list \<times> bytes) option" where
  "get_n get 0 bs = Some ([], bs)"
| "get_n get (Suc n) bs =
     (case get bs of None \<Rightarrow> None
      | Some (x, r) \<Rightarrow> map_option (\<lambda>(xs, r'). (x # xs, r')) (get_n get n r))"

definition put_list :: "('a \<Rightarrow> bytes) \<Rightarrow> 'a list \<Rightarrow> bytes" where
  "put_list put xs = put_nat (length xs) @ concat (map put xs)"

definition get_list :: "(bytes \<Rightarrow> ('a \<times> bytes) option) \<Rightarrow> bytes \<Rightarrow> ('a list \<times> bytes) option" where
  "get_list get bs = (case get_nat bs of None \<Rightarrow> None | Some (n, r) \<Rightarrow> get_n get n r)"

lemma get_n_concat:
  assumes "ok_codec put get"
  shows "get_n get (length xs) (concat (map put xs) @ r) = Some (xs, r)"
  by (induction xs) (simp_all add: ok_codecD [OF assms])

lemma ok_list: "ok_codec put get \<Longrightarrow> ok_codec (put_list put) (get_list get)"
  by (simp add: ok_codec_def [of "put_list put"] put_list_def get_list_def get_n_concat)

lemma get_put_word:
  "LENGTH('a::len) \<le> 128 \<Longrightarrow> get_word (put_word w @ r) = Some (w :: 'a word, r)"
  by (rule ok_codecD [OF ok_word])

lemma length_put_nat [simp]: "length (put_nat n) = n + 1"
  by (induction n) simp_all

lemma length_put [simp]:
  "length (put_word w) = 16" "length (put_bytes b) = 2 * length b + 1" "length (put_str s) = 2 * length s + 1"
  by (simp_all add: put_word_def put_bytes_def put_str_def)

section \<open>The records\<close>

definition put_cert :: "capability_certificate \<Rightarrow> bytes" where
  "put_cert c = put_str (cc_agent_hex c) @ put_str (cc_group_name c)
     @ put_word (cc_expiration_timestamp c) @ put_bytes (cc_master_signature c)"

definition get_cert :: "bytes \<Rightarrow> (capability_certificate \<times> bytes) option" where
  "get_cert b0 = Option.bind (get_str b0) (\<lambda>(a, b1). Option.bind (get_str b1) (\<lambda>(g, b2).
     Option.bind (get_word b2) (\<lambda>(e, b3). Option.bind (get_bytes b3) (\<lambda>(s, b4).
       Some (\<lparr>cc_agent_hex = a, cc_group_name = g, cc_expiration_timestamp = e,
              cc_master_signature = s\<rparr>, b4)))))"

lemma ok_cert: "ok_codec put_cert get_cert"
  unfolding ok_codec_def
proof (intro allI)
  fix c :: capability_certificate and r
  show "get_cert (put_cert c @ r) = Some (c, r)"
    by (cases c) (simp add: put_cert_def get_cert_def get_put_word)
qed

definition put_quarantine :: "quarantine_record \<Rightarrow> bytes" where
  "put_quarantine q = put_str (q_agent_hex q) @ put_str (q_violation_type q)
     @ put_str (q_attemped_path q) @ put_str (q_payload_preview q) @ put_word (q_timestamp q)"

definition get_quarantine :: "bytes \<Rightarrow> (quarantine_record \<times> bytes) option" where
  "get_quarantine b0 = Option.bind (get_str b0) (\<lambda>(a, b1). Option.bind (get_str b1) (\<lambda>(v, b2).
     Option.bind (get_str b2) (\<lambda>(p, b3). Option.bind (get_str b3) (\<lambda>(y, b4).
       Option.bind (get_word b4) (\<lambda>(t, b5).
         Some (\<lparr>q_agent_hex = a, q_violation_type = v, q_attemped_path = p,
                q_payload_preview = y, q_timestamp = t\<rparr>, b5))))))"

lemma ok_quarantine: "ok_codec put_quarantine get_quarantine"
  unfolding ok_codec_def
proof (intro allI)
  fix q :: quarantine_record and r
  show "get_quarantine (put_quarantine q @ r) = Some (q, r)"
    by (cases q) (simp add: put_quarantine_def get_quarantine_def get_put_word)
qed

fun put_status :: "agent_status \<Rightarrow> bytes" where
  "put_status Idle = [0]"
| "put_status Reasoning = [1]"
| "put_status ToolExecution = [2]"
| "put_status Halted = [3]"

definition get_status :: "bytes \<Rightarrow> (agent_status \<times> bytes) option" where
  "get_status bs = (case bs of [] \<Rightarrow> None
     | b # r \<Rightarrow> if b = 0 then Some (Idle, r) else if b = 1 then Some (Reasoning, r)
                else if b = 2 then Some (ToolExecution, r)
                else if b = 3 then Some (Halted, r) else None)"

lemma get_put_status [simp]: "get_status (put_status s @ r) = Some (s, r)"
  by (cases s) (simp_all add: get_status_def)

fun put_opt :: "bytes option \<Rightarrow> bytes" where
  "put_opt None = [0]"
| "put_opt (Some b) = 1 # put_bytes b"

definition get_opt :: "bytes \<Rightarrow> (bytes option \<times> bytes) option" where
  "get_opt bs = (case bs of [] \<Rightarrow> None
     | b # r \<Rightarrow> if b = 0 then Some (None, r)
                else map_option (\<lambda>(x, r'). (Some x, r')) (get_bytes r))"

lemma get_put_opt [simp]: "get_opt (put_opt x @ r) = Some (x, r)"
  by (cases x) (simp_all add: get_opt_def)

definition put_state :: "agent_state \<Rightarrow> bytes" where
  "put_state s = put_opt (st_agent_id s) @ put_word (st_transaction_id s)
     @ put_word (st_timestamp s) @ put_status (st_status s) @ put_str (st_text s)
     @ put_str (st_namespace s)"

definition get_state :: "bytes \<Rightarrow> (agent_state \<times> bytes) option" where
  "get_state b0 = Option.bind (get_opt b0) (\<lambda>(a, b1). Option.bind (get_word b1) (\<lambda>(t, b2).
     Option.bind (get_word b2) (\<lambda>(ts, b3). Option.bind (get_status b3) (\<lambda>(st, b4).
       Option.bind (get_str b4) (\<lambda>(x, b5). Option.bind (get_str b5) (\<lambda>(n, b6).
         Some (\<lparr>st_agent_id = a, st_transaction_id = t, st_timestamp = ts, st_status = st,
                st_text = x, st_namespace = n\<rparr>, b6)))))))"

lemma get_put_state [simp]: "get_state (put_state s @ r) = Some (s, r)"
  by (cases s) (simp add: put_state_def get_state_def get_put_word)

lemma ok_state: "ok_codec put_state get_state"
  unfolding ok_codec_def by (intro allI) (rule get_put_state)

lemma ok_codec_str: "ok_codec put_str get_str"
  by (simp add: ok_codec_def)

lemma ok_codec_u64: "ok_codec (put_word :: u64 \<Rightarrow> bytes) get_word"
  by (rule ok_word) simp

definition put_oplog :: "op_log \<Rightarrow> bytes" where
  "put_oplog l = put_bytes (ol_agent_id l) @ put_state (ol_state l) @ put_bytes (ol_delta l)
     @ put_bytes (ol_previous_hash l) @ put_bytes (ol_current_hash l)
     @ put_list put_word (ol_entropy_seeds l) @ put_list put_str (ol_network_responses l)"

definition get_oplog :: "bytes \<Rightarrow> (op_log \<times> bytes) option" where
  "get_oplog b0 = Option.bind (get_bytes b0) (\<lambda>(a, b1). Option.bind (get_state b1) (\<lambda>(s, b2).
     Option.bind (get_bytes b2) (\<lambda>(d, b3). Option.bind (get_bytes b3) (\<lambda>(p, b4).
       Option.bind (get_bytes b4) (\<lambda>(c, b5). Option.bind (get_list get_word b5) (\<lambda>(e, b6).
         Option.bind (get_list get_str b6) (\<lambda>(n, b7).
           Some (\<lparr>ol_agent_id = a, ol_state = s, ol_delta = d, ol_previous_hash = p,
                  ol_current_hash = c, ol_entropy_seeds = e, ol_network_responses = n\<rparr>, b7))))))))"

lemma get_put_oplog [simp]: "get_oplog (put_oplog l @ r) = Some (l, r)"
  by (cases l) (simp add: put_oplog_def get_oplog_def
      ok_codecD [OF ok_list [OF ok_codec_u64]] ok_codecD [OF ok_list [OF ok_codec_str]])

lemma ok_oplog: "ok_codec put_oplog get_oplog"
  unfolding ok_codec_def by (intro allI) (rule get_put_oplog)

definition put_ingress :: "ingress_envelope \<Rightarrow> bytes" where
  "put_ingress i = put_str (in_intent_path i) @ put_bytes (in_public_key i)
     @ put_bytes (in_signature i) @ put_bytes (in_state_bytes i) @ put_bytes (in_capability_cert i)"

definition get_ingress :: "bytes \<Rightarrow> (ingress_envelope \<times> bytes) option" where
  "get_ingress b0 = Option.bind (get_str b0) (\<lambda>(i, b1). Option.bind (get_bytes b1) (\<lambda>(k, b2).
     Option.bind (get_bytes b2) (\<lambda>(s, b3). Option.bind (get_bytes b3) (\<lambda>(t, b4).
       Option.bind (get_bytes b4) (\<lambda>(c, b5).
         Some (\<lparr>in_intent_path = i, in_public_key = k, in_signature = s, in_state_bytes = t,
                in_capability_cert = c\<rparr>, b5))))))"

lemma ok_ingress: "ok_codec put_ingress get_ingress"
  unfolding ok_codec_def
proof (intro allI)
  fix i :: ingress_envelope and r
  show "get_ingress (put_ingress i @ r) = Some (i, r)"
    by (cases i) (simp add: put_ingress_def get_ingress_def)
qed

definition put_a2a :: "a2a_envelope \<Rightarrow> bytes" where
  "put_a2a a = put_bytes (a2a_sender_id a) @ put_bytes (a2a_sender_public_key a)
     @ put_str (a2a_target_capability a) @ put_bytes (a2a_payload a) @ put_bytes (a2a_signature a)
     @ put_bytes (a2a_sender_capability_cert a) @ put_word (a2a_timestamp a)"

definition get_a2a :: "bytes \<Rightarrow> (a2a_envelope \<times> bytes) option" where
  "get_a2a b0 = Option.bind (get_bytes b0) (\<lambda>(i, b1). Option.bind (get_bytes b1) (\<lambda>(k, b2).
     Option.bind (get_str b2) (\<lambda>(c, b3). Option.bind (get_bytes b3) (\<lambda>(p, b4).
       Option.bind (get_bytes b4) (\<lambda>(s, b5). Option.bind (get_bytes b5) (\<lambda>(t, b6).
         Option.bind (get_word b6) (\<lambda>(w, b7).
           Some (\<lparr>a2a_sender_id = i, a2a_sender_public_key = k, a2a_target_capability = c,
                  a2a_payload = p, a2a_signature = s, a2a_sender_capability_cert = t,
                  a2a_timestamp = w\<rparr>, b7))))))))"

lemma ok_a2a: "ok_codec put_a2a get_a2a"
  unfolding ok_codec_def
proof (intro allI)
  fix a :: a2a_envelope and r
  show "get_a2a (put_a2a a @ r) = Some (a, r)"
    by (cases a) (simp add: put_a2a_def get_a2a_def get_put_word)
qed

definition put_witness :: "anchored_root_witness \<Rightarrow> bytes" where
  "put_witness w = put_word (aw_batch_id w) @ put_str (aw_namespace w) @ put_str (aw_merkle_root_hex w)
     @ put_str (aw_parent_batch_root_hex w) @ put_nat (aw_leaf_count w) @ put_word (aw_timestamp w)
     @ put_str (aw_master_signature_hex w)"

definition get_witness :: "bytes \<Rightarrow> (anchored_root_witness \<times> bytes) option" where
  "get_witness b0 = Option.bind (get_word b0) (\<lambda>(i, b1). Option.bind (get_str b1) (\<lambda>(n, b2).
     Option.bind (get_str b2) (\<lambda>(m, b3). Option.bind (get_str b3) (\<lambda>(p, b4).
       Option.bind (get_nat b4) (\<lambda>(c, b5). Option.bind (get_word b5) (\<lambda>(t, b6).
         Option.bind (get_str b6) (\<lambda>(s, b7).
           Some (\<lparr>aw_batch_id = i, aw_namespace = n, aw_merkle_root_hex = m,
                  aw_parent_batch_root_hex = p, aw_leaf_count = c, aw_timestamp = t,
                  aw_master_signature_hex = s\<rparr>, b7))))))))"

lemma get_put_witness [simp]: "get_witness (put_witness w @ r) = Some (w, r)"
  by (cases w) (simp add: put_witness_def get_witness_def get_put_word)

definition put_bundle :: "certified_bundle_block \<Rightarrow> bytes" where
  "put_bundle b = put_witness (cb_witness b) @ put_list put_oplog (cb_raw_logs b)"

definition get_bundle :: "bytes \<Rightarrow> (certified_bundle_block \<times> bytes) option" where
  "get_bundle b0 = Option.bind (get_witness b0) (\<lambda>(w, b1). Option.bind (get_list get_oplog b1) (\<lambda>(l, b2).
     Some (\<lparr>cb_witness = w, cb_raw_logs = l\<rparr>, b2)))"

lemma ok_bundle: "ok_codec put_bundle get_bundle"
  unfolding ok_codec_def
proof (intro allI)
  fix b :: certified_bundle_block and r
  show "get_bundle (put_bundle b @ r) = Some (b, r)"
    by (cases b) (simp add: put_bundle_def get_bundle_def ok_codecD [OF ok_list [OF ok_oplog]])
qed

text \<open>Byte strings as text, for the JSON columns.\<close>

definition as_text :: "bytes \<Rightarrow> string" where
  "as_text b = map (\<lambda>w. char_of (unat w)) b"

lemma as_bytes_text [simp]: "as_bytes (as_text b) = b"
proof -
  have "of_char (char_of (unat w) :: char) = w" for w :: u8
  proof -
    have "unat w < 256" using unat_lt [of w] by simp
    then have n: "(of_char (char_of (unat w) :: char) :: nat) = unat w" by (simp only: of_char_of mod_less)
    have "(of_char (char_of (unat w) :: char) :: u8) = of_nat (of_char (char_of (unat w) :: char))"
      by (simp only: of_nat_of_char)
    also have "\<dots> = of_nat (unat w)" by (simp only: n)
    also have "\<dots> = w" by simp
    finally show ?thesis .
  qed
  then show ?thesis by (simp add: as_bytes_def as_text_def comp_def)
qed

definition or_else :: "'a \<Rightarrow> 'a option \<Rightarrow> 'a" where
  "or_else d x = (case x of None \<Rightarrow> d | Some v \<Rightarrow> v)"

lemma or_else_Some [simp]: "or_else d (Some v) = v"
  by (simp add: or_else_def)

definition blank_state :: agent_state where
  "blank_state = \<lparr>st_agent_id = None, st_transaction_id = 0, st_timestamp = 0, st_status = Idle,
     st_text = [], st_namespace = []\<rparr>"

definition blank_oplog :: op_log where
  "blank_oplog = \<lparr>ol_agent_id = zeros 16, ol_state = blank_state, ol_delta = [], ol_previous_hash = zeros 32,
     ol_current_hash = zeros 32, ol_entropy_seeds = [], ol_network_responses = []\<rparr>"

definition blank_a2a :: a2a_envelope where
  "blank_a2a = \<lparr>a2a_sender_id = zeros 16, a2a_sender_public_key = zeros 32, a2a_target_capability = [],
     a2a_payload = [], a2a_signature = [], a2a_sender_capability_cert = [], a2a_timestamp = 0\<rparr>"

section \<open>The record\<close>

definition demo_hex_encode :: "bytes \<Rightarrow> string" where
  "demo_hex_encode bs = concat (map (\<lambda>b. [hexdig (unat b div 16), hexdig (unat b mod 16)]) bs)"

fun demo_hex_decode :: "string \<Rightarrow> bytes option" where
  "demo_hex_decode [] = Some []"
| "demo_hex_decode [c] = None"
| "demo_hex_decode (c # d # cs) =
     (case (hexval c, hexval d, demo_hex_decode cs) of
        (Some x, Some y, Some bs) \<Rightarrow> Some (word_of_nat (16 * x + y) # bs)
      | _ \<Rightarrow> None)"

definition demo_digest :: "string \<Rightarrow> bytes \<Rightarrow> bytes" where
  "demo_digest c x = le_bytes 32 (fold (\<lambda>b a. a * 257 + unat b + 1) (as_bytes c @ x) 7)"

definition demo_public :: "bytes \<Rightarrow> bytes" where
  "demo_public sk = take 32 (sk @ zeros 32)"

definition demo_signature :: "bytes \<Rightarrow> bytes \<Rightarrow> bytes" where
  "demo_signature pk m = demo_digest ''signature'' (pk @ m) @ zeros 32"

definition demo_crc :: "bytes \<Rightarrow> u32" where
  "demo_crc x = word_of_nat (fold (\<lambda>b a. a * 31 + unat b) x 0)"

definition demo :: ext where
  "demo = \<lparr>
     x_blake3 = demo_digest, x_crc32 = demo_crc,
     x_hex_encode = demo_hex_encode, x_hex_decode = demo_hex_decode,
     x_ed_public = demo_public, x_ed_sign = (\<lambda>sk. demo_signature (demo_public sk)),
     x_ed_key_ok = (\<lambda>pk. length pk = 32), x_ed_verify = (\<lambda>pk m s. s = demo_signature pk m),
     x_cert_to = put_cert, x_cert_from = whole get_cert,
     x_quarantine_to = put_quarantine, x_quarantine_from = whole get_quarantine,
     x_oplog_to = put_oplog, x_oplog_access = whole get_oplog,
     x_oplogs_to = put_list put_oplog, x_oplogs_access = whole (get_list get_oplog),
     x_state_to = put_state, x_state_access = whole get_state,
     x_ingress_to = put_ingress, x_ingress_access = whole get_ingress,
     x_a2a_to = put_a2a, x_a2a_access = whole get_a2a,
     x_oplog_unchecked = (\<lambda>b. or_else blank_oplog (whole get_oplog b)),
     x_state_unchecked = (\<lambda>b. or_else blank_state (whole get_state b)),
     x_a2a_unchecked = (\<lambda>b. or_else blank_a2a (whole get_a2a b)),
     x_bundle_to = put_bundle, x_bundle_from = whole get_bundle,
     x_seeds_to = (\<lambda>x. as_text (put_list put_word x)),
     x_seeds_from = (\<lambda>s. whole (get_list get_word) (as_bytes s)),
     x_strings_to = (\<lambda>x. as_text (put_list put_str x)),
     x_strings_from = (\<lambda>s. whole (get_list get_str) (as_bytes s))\<rparr>"

lemma demo_hash_ok: "hash_ok demo"
  by (simp add: hash_ok_def demo_def demo_digest_def)

lemma byte_nibbles: "word_of_nat (16 * (unat b div 16) + unat b mod 16) = (b :: u8)"
  by simp

lemma unat_byte_div: "unat (b :: u8) div 16 < 16"
  using unat_lt [of b] by (simp add: less_mult_imp_div_less)

lemma demo_hex_roundtrip: "demo_hex_decode (demo_hex_encode bs) = Some bs"
  by (induction bs) (simp_all add: demo_hex_encode_def unat_byte_div)

lemma demo_hex_encode_length: "length (demo_hex_encode bs) = 2 * length bs"
  by (induction bs) (simp_all add: demo_hex_encode_def)

lemma demo_hex_ok: "hex_ok demo"
  by (simp add: hex_ok_def demo_def demo_hex_roundtrip demo_hex_encode_length)

lemma demo_hex_decode_strict:
  "demo_hex_decode s = Some b \<Longrightarrow> length s = 2 * length b \<and> (\<forall>c \<in> set s. hexval c \<noteq> None)"
  by (induction s arbitrary: b rule: demo_hex_decode.induct) (auto split: option.splits)

lemma demo_hex_strict: "hex_strict demo"
  using demo_hex_decode_strict by (simp add: hex_strict_def demo_def)

lemma length_demo_public [simp]: "length (demo_public sk) = 32"
  by (simp add: demo_public_def del: take_append)

lemma demo_ed_ok: "ed_ok demo"
  by (simp add: ed_ok_def demo_def demo_signature_def demo_digest_def)

lemma demo_postcard_ok: "postcard_ok demo"
  unfolding postcard_ok_def demo_def
  by (intro conjI allI) (simp_all only: ext.simps whole_put [OF ok_cert] whole_put [OF ok_quarantine])

lemma demo_rkyv_ok: "rkyv_ok demo"
  unfolding rkyv_ok_def demo_def
  by (intro conjI allI impI)
    (simp_all only: ext.simps whole_put [OF ok_oplog] whole_put [OF ok_list [OF ok_oplog]]
      whole_put [OF ok_state] whole_put [OF ok_ingress] whole_put [OF ok_a2a] or_else_Some)

lemma demo_serde_ok: "serde_ok demo"
  unfolding serde_ok_def demo_def
  by (intro conjI allI)
    (simp_all only: ext.simps whole_put [OF ok_bundle] as_bytes_text
      whole_put [OF ok_list [OF ok_codec_u64]] whole_put [OF ok_list [OF ok_codec_str]])

lemmas demo_laws = demo_hash_ok demo_hex_ok demo_hex_strict demo_ed_ok demo_postcard_ok demo_rkyv_ok
  demo_serde_ok

text \<open>A log record for the concrete runs of the component theories.\<close>

definition demo_log :: "u128 \<Rightarrow> string \<Rightarrow> string \<Rightarrow> op_log" where
  "demo_log tx ns msg =
     \<lparr>ol_agent_id = zeros 16,
      ol_state = \<lparr>st_agent_id = None, st_transaction_id = tx, st_timestamp = 0, st_status = Idle,
                  st_text = msg, st_namespace = ns\<rparr>,
      ol_delta = as_bytes msg, ol_previous_hash = zeros 32, ol_current_hash = zeros 32,
      ol_entropy_seeds = [], ol_network_responses = []\<rparr>"

lemma length_demo_oplogs:
  "length (x_oplogs_to demo [demo_log tx ns msg]) = 204 + 4 * length msg + 2 * length ns"
  by (simp add: demo_def demo_log_def put_list_def put_oplog_def put_state_def)

end
