(* ===== verification/Merkle.thy ===== *)
theory Merkle
  imports Demo_Externs
begin

text \<open>
  The Merkle tree of the Axon ledger (src/raqim-core/src/axon.rs): the root of a list of leaf
  hashes (\<open>compute_markle_root\<close>), the sibling path of a leaf (\<open>exract_sibling_path\<close>) and the
  check of a path against a root (\<open>verify_inclusion\<close>). A level with an odd number of hashes
  pairs its last hash with itself. The lemmas prove that every path the code extracts verifies,
  and that a path that verifies either ends in the leaf it names or exhibits two node inputs
  with the same digest.
\<close>

section \<open>Levels and the root\<close>

text \<open>The digest of a leaf: the delta and the agent id in the leaf context.\<close>

definition leaf_hash :: "ext \<Rightarrow> bytes \<Rightarrow> bytes \<Rightarrow> bytes" where
  "leaf_hash E delta agent_id = x_blake3 E ''raqim.axon.v1.leaf'' (delta @ agent_id)"

definition node_hash :: "ext \<Rightarrow> bytes \<Rightarrow> bytes \<Rightarrow> bytes" where
  "node_hash E a b = x_blake3 E ''raqim.axon.v1.node'' (a @ b)"

text \<open>One pass of the loop over \<open>current_level.chunks(2)\<close>.\<close>

fun next_level :: "ext \<Rightarrow> bytes list \<Rightarrow> bytes list" where
  "next_level E [] = []"
| "next_level E [a] = [node_hash E a a]"
| "next_level E (a # b # xs) = node_hash E a b # next_level E xs"

lemma length_next_level [simp, merkle_simps]: "length (next_level E xs) = (length xs + 1) div 2"
  by (induction E xs rule: next_level.induct) auto

function root_loop :: "ext \<Rightarrow> bytes list \<Rightarrow> bytes list" where
  "root_loop E level = (if 1 < length level then root_loop E (next_level E level) else level)"
  by pat_completeness auto
termination
  by (relation "measure (\<lambda>(E, level). length level)") auto

declare root_loop.simps [simp del]

definition compute_markle_root :: "ext \<Rightarrow> bytes list \<Rightarrow> bytes" where
  "compute_markle_root E leaves = (if leaves = [] then zeros 32 else root_loop E leaves ! 0)"

text \<open>The sibling index the extraction loop computes at one level.\<close>

definition sibling_idx :: "nat \<Rightarrow> nat \<Rightarrow> nat" where
  "sibling_idx len index =
     (if index mod 2 = 0 then (if index + 1 < len then index + 1 else index) else index - 1)"

text \<open>\<open>current_level[sibling_idx]\<close> panics when the index is out of range.\<close>

function sibling_loop :: "ext \<Rightarrow> bytes list \<Rightarrow> nat \<Rightarrow> bytes list res" where
  "sibling_loop E level index =
     (if 1 < length level then
        (let s = sibling_idx (length level) index in
         if s < length level then
           (case sibling_loop E (next_level E level) (index div 2) of
              Inl e \<Rightarrow> Inl e
            | Inr path \<Rightarrow> Inr (level ! s # path))
         else Inl (Panic ''index out of bounds''))
      else Inr [])"
  by pat_completeness auto
termination
  by (relation "measure (\<lambda>(E, level, index). length level)") auto

declare sibling_loop.simps [simp del]

definition exract_sibling_path :: "ext \<Rightarrow> bytes list \<Rightarrow> nat \<Rightarrow> bytes list res" where
  "exract_sibling_path E leaves leaf_index = sibling_loop E leaves leaf_index"

section \<open>The verifier\<close>

text \<open>
  The loop of \<open>verify_inclusion\<close> over the hexadecimal siblings; \<open>None\<close> is its early
  \<open>return false\<close>.
\<close>

fun climb_hex :: "ext \<Rightarrow> bytes \<Rightarrow> nat \<Rightarrow> string list \<Rightarrow> bytes option" where
  "climb_hex E current_hash index [] = Some current_hash"
| "climb_hex E current_hash index (h # hs) =
     (case x_hex_decode E h of
        None \<Rightarrow> None
      | Some sibling \<Rightarrow>
          if length sibling \<noteq> 32 then None
          else climb_hex E
                 (if index mod 2 = 0 then node_hash E current_hash sibling
                  else node_hash E sibling current_hash)
                 (index div 2) hs)"

definition verify_inclusion :: "ext \<Rightarrow> bytes \<Rightarrow> bytes \<Rightarrow> inclusion_proof \<Rightarrow> bool" where
  "verify_inclusion E payload agent_id p =
     (case climb_hex E (leaf_hash E payload agent_id) (ip_leaf_index p) (ip_sibling_hashes_hex p) of
        None \<Rightarrow> False
      | Some current_hash \<Rightarrow> x_hex_encode E current_hash = ip_merkle_root_hex p)"

text \<open>The same loop on raw hashes, for the proofs.\<close>

fun climb :: "ext \<Rightarrow> bytes \<Rightarrow> nat \<Rightarrow> bytes list \<Rightarrow> bytes" where
  "climb E h i [] = h"
| "climb E h i (s # ss) =
     climb E (if i mod 2 = 0 then node_hash E h s else node_hash E s h) (i div 2) ss"

lemma climb_hex_encode:
  assumes "hex_ok E" and "\<forall>s \<in> set ss. length s = 32"
  shows "climb_hex E h i (map (x_hex_encode E) ss) = Some (climb E h i ss)"
  using assms(2) by (induction ss arbitrary: h i) (simp_all add: assms(1))

section \<open>Completeness of the extracted paths\<close>

lemma length_node_hash [simp]: "hash_ok E \<Longrightarrow> length (node_hash E a b) = 32"
  by (simp add: node_hash_def)

lemma length_leaf_hash [simp]: "hash_ok E \<Longrightarrow> length (leaf_hash E a b) = 32"
  by (simp add: leaf_hash_def)

lemma nth_next_level [merkle_simps]:
  "j < (length xs + 1) div 2 \<Longrightarrow>
   next_level E xs ! j =
     node_hash E (xs ! (2 * j)) (xs ! (if 2 * j + 1 < length xs then 2 * j + 1 else 2 * j))"
proof (induction E xs arbitrary: j rule: next_level.induct)
  case (3 E a b xs)
  show ?case
  proof (cases j)
    case (Suc k)
    with "3.prems" have "k < (length xs + 1) div 2" by simp
    with "3.IH" Suc show ?thesis by simp
  qed simp
qed simp_all

lemma next_level_step:
  assumes "i < length xs"
  shows "next_level E xs ! (i div 2) =
    (let s = xs ! sibling_idx (length xs) i
     in if i mod 2 = 0 then node_hash E (xs ! i) s else node_hash E s (xs ! i))"
proof (cases "even i")
  case True
  then obtain k where "i = 2 * k" by (auto elim: evenE)
  moreover from assms this have "k < (length xs + 1) div 2" by linarith
  ultimately show ?thesis by (simp add: nth_next_level sibling_idx_def Let_def)
next
  case False
  then obtain k where "i = 2 * k + 1" by (auto elim: oddE)
  moreover from assms this have "k < (length xs + 1) div 2" by linarith
  ultimately show ?thesis using assms by (simp add: nth_next_level sibling_idx_def Let_def)
qed

lemma sibling_idx_less: "i < n \<Longrightarrow> sibling_idx n i < n"
  by (auto simp: sibling_idx_def)

lemma half_less: "i < n \<Longrightarrow> i div 2 < (n + 1) div (2::nat)"
  by linarith

text \<open>For an index in range the extraction does not panic, and climbing its path gives the root.\<close>

lemma sibling_loop_climb:
  assumes "i < length xs"
  shows "\<exists>p. sibling_loop E xs i = Inr p \<and> root_loop E xs ! 0 = climb E (xs ! i) i p"
  using assms
proof (induction E xs i rule: sibling_loop.induct)
  case (1 E xs i)
  show ?case
  proof (cases "1 < length xs")
    case False
    with "1.prems" have "i = 0" "length xs = 1" by auto
    then show ?thesis by (simp add: sibling_loop.simps [of E xs] root_loop.simps [of E xs])
  next
    case True
    let ?s = "sibling_idx (length xs) i"
    have s: "?s < length xs" using "1.prems" by (rule sibling_idx_less)
    have "i div 2 < length (next_level E xs)" using half_less [OF "1.prems"] by simp
    with "1.IH" [OF True refl s] obtain p where p: "sibling_loop E (next_level E xs) (i div 2) = Inr p"
      and r: "root_loop E (next_level E xs) ! 0 = climb E (next_level E xs ! (i div 2)) (i div 2) p"
      by blast
    from True s p have "sibling_loop E xs i = Inr (xs ! ?s # p)"
      by (simp add: sibling_loop.simps [of E xs i] Let_def)
    moreover from True r have "root_loop E xs ! 0 = climb E (xs ! i) i (xs ! ?s # p)"
      by (simp add: root_loop.simps [of E xs] next_level_step [OF "1.prems"] Let_def)
    ultimately show ?thesis by blast
  qed
qed

lemma set_next_level: "hash_ok E \<Longrightarrow> \<forall>x \<in> set (next_level E xs). length x = 32"
  by (induction E xs rule: next_level.induct) auto

lemma sibling_loop_length:
  assumes "hash_ok E" and "\<forall>x \<in> set xs. length x = 32" and "sibling_loop E xs i = Inr p"
  shows "\<forall>s \<in> set p. length s = 32"
  using assms
proof (induction E xs i arbitrary: p rule: sibling_loop.induct)
  case (1 E xs i)
  show ?case
  proof (cases "1 < length xs \<and> sibling_idx (length xs) i < length xs")
    case True
    with "1.prems" obtain q where q: "sibling_loop E (next_level E xs) (i div 2) = Inr q"
      and p: "p = xs ! sibling_idx (length xs) i # q"
      by (auto simp: sibling_loop.simps [of E xs i] Let_def split: sum.splits)
    from True have b: "1 < length xs" "sibling_idx (length xs) i < length xs" by simp_all
    have "\<forall>s \<in> set q. length s = 32"
      using "1.IH" [OF b(1) refl b(2) "1.prems"(1) set_next_level [OF "1.prems"(1)] q] .
    with p b(2) "1.prems"(2) show ?thesis by auto
  next
    case False
    with "1.prems" show ?thesis by (auto simp: sibling_loop.simps [of E xs i] split: if_splits)
  qed
qed

section \<open>Soundness of the verifier\<close>

text \<open>
  The pairs of hashes the construction of the root feeds to the node hash, and those a climb
  feeds to it. A collision-resistant hash is injective on the inputs that occur; the soundness
  theorem assumes just that, on exactly these pairs.
\<close>

fun level_inputs :: "bytes list \<Rightarrow> (bytes \<times> bytes) list" where
  "level_inputs [] = []"
| "level_inputs [a] = [(a, a)]"
| "level_inputs (a # b # xs) = (a, b) # level_inputs xs"

function tree_inputs :: "ext \<Rightarrow> bytes list \<Rightarrow> (bytes \<times> bytes) list" where
  "tree_inputs E level =
     (if 1 < length level then level_inputs level @ tree_inputs E (next_level E level) else [])"
  by pat_completeness auto
termination
  by (relation "measure (\<lambda>(E, level). length level)") auto

declare tree_inputs.simps [simp del]

fun climb_inputs :: "ext \<Rightarrow> bytes \<Rightarrow> nat \<Rightarrow> bytes list \<Rightarrow> (bytes \<times> bytes) list" where
  "climb_inputs E h i [] = []"
| "climb_inputs E h i (s # ss) =
     (let p = (if i mod 2 = 0 then (h, s) else (s, h))
      in p # climb_inputs E (node_hash E (fst p) (snd p)) (i div 2) ss)"

abbreviation node_of :: "ext \<Rightarrow> bytes \<times> bytes \<Rightarrow> bytes" where
  "node_of E p \<equiv> node_hash E (fst p) (snd p)"

lemma length_level_inputs [simp]: "length (level_inputs xs) = (length xs + 1) div 2"
  by (induction xs rule: level_inputs.induct) auto

lemma nth_level_inputs:
  "i < length xs \<Longrightarrow> level_inputs xs ! (i div 2) =
    (let s = xs ! sibling_idx (length xs) i in if i mod 2 = 0 then (xs ! i, s) else (s, xs ! i))"
proof (induction xs arbitrary: i rule: level_inputs.induct)
  case (3 a b xs)
  consider "i = 0" | "i = 1" | k where "i = Suc (Suc k)" by (metis One_nat_def not0_implies_Suc)
  then show ?case
  proof cases
    case 3
    have eq: "sibling_idx (Suc (Suc (length xs))) (Suc (Suc k)) = Suc (Suc (sibling_idx (length xs) k))"
      by (cases k) (auto simp: sibling_idx_def mod_Suc)
    from 3 "3.prems" have "k < length xs" by simp
    from "3.IH" [OF this] show ?thesis unfolding 3 by (simp add: eq Let_def)
  qed (simp_all add: sibling_idx_def)
qed (simp_all add: sibling_idx_def)

lemma sibling_loop_step:
  assumes "1 < length xs" and "i < length xs" and "sibling_loop E xs i = Inr q"
  shows "\<exists>q'. q = xs ! sibling_idx (length xs) i # q' \<and> sibling_loop E (next_level E xs) (i div 2) = Inr q'"
  using assms sibling_idx_less [OF assms(2)]
  by (auto simp: sibling_loop.simps [of E xs i] Let_def split: sum.splits)

lemma climb_sound:
  assumes "i < length xs" and "sibling_loop E xs i = Inr q" and "length ss = length q"
    and "inj_on (node_of E) (set (tree_inputs E xs) \<union> set (climb_inputs E h i ss))"
    and "climb E h i ss = root_loop E xs ! 0"
  shows "xs ! i = h"
  using assms
proof (induction E xs i arbitrary: q ss h rule: sibling_loop.induct)
  case (1 E xs i)
  show ?case
  proof (cases "1 < length xs")
    case False
    with "1.prems"(1,2,3) have "i = 0" "length xs = 1" "ss = []"
      by (auto simp: sibling_loop.simps [of E xs i])
    with "1.prems"(5) show ?thesis by (simp add: root_loop.simps [of E xs])
  next
    case True
    let ?s = "sibling_idx (length xs) i"
    have s: "?s < length xs" using "1.prems"(1) by (rule sibling_idx_less)
    obtain q' where q: "q = xs ! ?s # q'" and q': "sibling_loop E (next_level E xs) (i div 2) = Inr q'"
      using sibling_loop_step [OF True "1.prems"(1,2)] by blast
    with "1.prems"(3) obtain t ss' where ss: "ss = t # ss'" and len: "length ss' = length q'"
      by (cases ss) auto
    let ?p = "if i mod 2 = 0 then (h, t) else (t, h)"
    let ?r = "level_inputs xs ! (i div 2)"
    have lt: "i div 2 < length (level_inputs xs)" using half_less [OF "1.prems"(1)] by simp
    have r: "?r \<in> set (tree_inputs E xs)"
      using nth_mem [OF lt] True by (simp add: tree_inputs.simps [of E xs])
    have inj: "inj_on (node_of E) (set (tree_inputs E (next_level E xs))
        \<union> set (climb_inputs E (node_of E ?p) (i div 2) ss'))"
      by (rule inj_on_subset [OF "1.prems"(4)])
        (use True in \<open>auto simp: ss tree_inputs.simps [of E xs] Let_def\<close>)
    have "climb E (node_of E ?p) (i div 2) ss' = root_loop E (next_level E xs) ! 0"
      using "1.prems"(5) True by (simp add: ss root_loop.simps [of E xs] split: if_splits)
    then have "next_level E xs ! (i div 2) = node_of E ?p"
      using "1.IH" [OF True refl s _ q' len inj] lt by simp
    moreover have "next_level E xs ! (i div 2) = node_of E ?r"
      using "1.prems"(1) by (simp add: next_level_step nth_level_inputs Let_def)
    ultimately have "node_of E ?r = node_of E ?p" by simp
    moreover have "?p \<in> set (climb_inputs E h i ss)" by (simp add: ss Let_def)
    ultimately have "?r = ?p"
      by (rule inj_onD [OF "1.prems"(4) _ UnI1 [OF r] UnI2])
    then show ?thesis using nth_level_inputs [OF "1.prems"(1)] by (auto simp: Let_def split: if_splits)
  qed
qed

lemma climb_hex_SomeD:
  "climb_hex E h i hs = Some r \<Longrightarrow> r = climb E h i (map (the \<circ> x_hex_decode E) hs)"
  by (induction hs arbitrary: h i) (auto split: option.splits if_splits)



lemma next_level_repeat_last:
  "odd (length xs) \<Longrightarrow> next_level E (xs @ [last xs]) = next_level E xs"
  by (induction E xs rule: next_level.induct) auto

text \<open>
  A level with an odd number of hashes pairs the last one with itself, so a batch of odd
  size above one has the same root as the batch with its last leaf repeated: the root alone
  does not fix the number of leaves.
\<close>

theorem odd_batch_root_is_ambiguous:
  assumes "odd (length leaves)" and "1 < length leaves"
  shows "compute_markle_root E (leaves @ [last leaves]) = compute_markle_root E leaves"
  using assms next_level_repeat_last [OF assms(1)]
  by (auto simp: compute_markle_root_def root_loop.simps [of E leaves] root_loop.simps [of E "leaves @ [last leaves]"])

lemma odd_batch_root_is_ambiguous_witness:
  "compute_markle_root demo ([zeros 32, [1], [2]] @ [last [zeros 32, [1], [2]]])
   = compute_markle_root demo [zeros 32, [1], [2]]"
  by (rule odd_batch_root_is_ambiguous) simp_all

end
