(* ===== verification/Axon.thy ===== *)
theory Axon
  imports Merkle
begin

text \<open>
  The Axon gatekeeper of src/raqim-core/src/axon.rs: the active buffer of every namespace, the
  archive of completed batches, the batch counter and the index from transaction id to
  (batch id, leaf index). The concurrent maps are updated under the buffer's write lock, so an
  operation is one state transformer. The invariant \<open>axon_inv\<close> ties the buffers, the archive
  and the index to a ghost map from every ingested transaction to its leaf; from it follow that
  every sealed thought has a proof that verifies, before and after its batch is crystallized.
\<close>

section \<open>State and operations\<close>

record active_tree_buffer =
  ab_batch_id :: u64
  ab_parent_root :: bytes
  ab_leaves :: "bytes list"
  ab_logs :: "op_log list"
  ab_tx_ids :: "u128 list"

record axon =
  ax_buffers :: "(string \<times> active_tree_buffer) list"
  ax_archive :: "u64 \<Rightarrow> markle_batch option"
  ax_counter :: u64
  ax_location :: "u128 \<Rightarrow> (u64 \<times> nat) option"

definition axon_new :: axon where
  "axon_new = \<lparr>ax_buffers = [], ax_archive = (\<lambda>_. None), ax_counter = 0, ax_location = (\<lambda>_. None)\<rparr>"

text \<open>The capacity at which a buffer is crystallized.\<close>

definition axon_cap :: nat where
  "axon_cap = 1024"

text \<open>\<open>active_buffers.entry(namespace).or_insert_with(..)\<close>.\<close>

definition buffer_entry :: "axon \<Rightarrow> string \<Rightarrow> axon \<times> active_tree_buffer" where
  "buffer_entry ax ns =
     (case map_of (ax_buffers ax) ns of
        Some b \<Rightarrow> (ax, b)
      | None \<Rightarrow>
          (let b = \<lparr>ab_batch_id = ax_counter ax, ab_parent_root = zeros 32, ab_leaves = [],
                    ab_logs = [], ab_tx_ids = []\<rparr>
           in (ax\<lparr>ax_counter := ax_counter ax + 1, ax_buffers := AList.update ns b (ax_buffers ax)\<rparr>, b)))"

text \<open>The location entry and the three pushes, under the write lock of the buffer.\<close>

definition push_leaf :: "axon \<Rightarrow> string \<Rightarrow> active_tree_buffer \<Rightarrow> bytes \<Rightarrow> op_log \<Rightarrow> axon \<times> active_tree_buffer"
  where
  "push_leaf ax ns b leaf log =
     (let b' = b\<lparr>ab_leaves := ab_leaves b @ [leaf], ab_logs := ab_logs b @ [log],
                 ab_tx_ids := ab_tx_ids b @ [ol_txid log]\<rparr>
      in (ax\<lparr>ax_location := (ax_location ax)(ol_txid log \<mapsto> (ab_batch_id b, length (ab_leaves b))),
             ax_buffers := AList.update ns b' (ax_buffers ax)\<rparr>, b'))"

text \<open>The capacity branch: archive the batch, link its root, take a new batch id, clear.\<close>

definition crystallize :: "ext \<Rightarrow> axon \<Rightarrow> string \<Rightarrow> active_tree_buffer \<Rightarrow> axon \<times> markle_batch" where
  "crystallize E ax ns b =
     (let root = compute_markle_root E (ab_leaves b);
          batch = \<lparr>mb_batch_id = ab_batch_id b, mb_namespace = ns, mb_markle_root = root,
                   mb_parent_batch_root = ab_parent_root b, mb_leaves = ab_leaves b\<rparr>;
          b' = b\<lparr>ab_parent_root := root, ab_batch_id := ax_counter ax, ab_leaves := [],
                 ab_logs := [], ab_tx_ids := []\<rparr>
      in (ax\<lparr>ax_archive := (ax_archive ax)(mb_batch_id batch \<mapsto> batch),
             ax_counter := ax_counter ax + 1,
             ax_buffers := AList.update ns b' (ax_buffers ax)\<rparr>, batch))"

definition ingest_leaf_internal ::
  "ext \<Rightarrow> axon \<Rightarrow> string \<Rightarrow> bytes \<Rightarrow> op_log \<Rightarrow> axon \<times> markle_batch option" where
  "ingest_leaf_internal E ax ns leaf log =
     (let (ax1, b) = buffer_entry ax ns;
          (ax2, b') = push_leaf ax1 ns b leaf log
      in if axon_cap \<le> length (ab_leaves b')
         then let (ax3, batch) = crystallize E ax2 ns b' in (ax3, Some batch)
         else (ax2, None))"

definition seal_thought :: "ext \<Rightarrow> axon \<Rightarrow> op_log \<Rightarrow> axon \<times> op_log \<times> markle_batch option" where
  "seal_thought E ax log =
     (let ns = ol_namespace log;
          leaf = leaf_hash E (ol_delta log) (ol_agent_id log);
          parent_root = (case map_of (ax_buffers ax) ns of Some b \<Rightarrow> ab_parent_root b | None \<Rightarrow> zeros 32);
          log' = log\<lparr>ol_previous_hash := parent_root, ol_current_hash := leaf\<rparr>;
          (ax', batch) = ingest_leaf_internal E ax ns leaf log'
      in (ax', log', batch))"

definition hydrate_from_recovery :: "ext \<Rightarrow> axon \<Rightarrow> op_log \<Rightarrow> axon" where
  "hydrate_from_recovery E ax log =
     fst (ingest_leaf_internal E ax (ol_namespace log) (ol_current_hash log) log)"

text \<open>
  The proof object; its two call sites differ in the root, the parent, the batch id and the
  flag. A path extraction out of range panics.
\<close>

definition make_proof ::
  "ext \<Rightarrow> u128 \<Rightarrow> bytes list \<Rightarrow> nat \<Rightarrow> bytes \<Rightarrow> bytes \<Rightarrow> u64 \<Rightarrow> bool \<Rightarrow> inclusion_proof res" where
  "make_proof E tx leaves i root parent batch_id active =
     (case exract_sibling_path E leaves i of
        Inl e \<Rightarrow> Inl e
      | Inr nodes \<Rightarrow> Inr \<lparr>ip_tx_id_hex = fmt_032x tx, ip_leaf_index = i,
          ip_sibling_hashes_hex = map (x_hex_encode E) nodes,
          ip_merkle_root_hex = x_hex_encode E root,
          ip_parent_batch_root_hex = x_hex_encode E parent,
          ip_batch_id = batch_id, ip_is_active_buffer = active\<rparr>)"

text \<open>Path B: the first active buffer that holds the transaction.\<close>

fun proof_from_buffers ::
  "ext \<Rightarrow> u128 \<Rightarrow> (string \<times> active_tree_buffer) list \<Rightarrow> inclusion_proof option res" where
  "proof_from_buffers E tx [] = Inr None"
| "proof_from_buffers E tx ((ns, b) # rest) =
     (case position tx (ab_tx_ids b) of
        None \<Rightarrow> proof_from_buffers E tx rest
      | Some i \<Rightarrow>
          (case make_proof E tx (ab_leaves b) i (compute_markle_root E (ab_leaves b))
                  (ab_parent_root b) (ab_batch_id b) True of
             Inl e \<Rightarrow> Inl e | Inr p \<Rightarrow> Inr (Some p)))"

definition generate_proof_for_tx :: "ext \<Rightarrow> axon \<Rightarrow> u128 \<Rightarrow> inclusion_proof option res" where
  "generate_proof_for_tx E ax tx =
     (case (case ax_location ax tx of
              None \<Rightarrow> None
            | Some (bid, i) \<Rightarrow> (case ax_archive ax bid of None \<Rightarrow> None | Some batch \<Rightarrow> Some (bid, i, batch))) of
        Some (bid, i, batch) \<Rightarrow>
          (case make_proof E tx (mb_leaves batch) i (mb_markle_root batch)
                  (mb_parent_batch_root batch) bid False of
             Inl e \<Rightarrow> Inl e | Inr p \<Rightarrow> Inr (Some p))
      | None \<Rightarrow> proof_from_buffers E tx (ax_buffers ax))"

definition verify_foreign_thoughts :: "ext \<Rightarrow> op_log \<Rightarrow> bool" where
  "verify_foreign_thoughts E log \<longleftrightarrow>
     leaf_hash E (ol_delta log) (ol_agent_id log) = ol_current_hash log"

text \<open>A run of the gatekeeper: the state, the sealed logs and the batches, in order.\<close>

fun seal_run :: "ext \<Rightarrow> axon \<Rightarrow> op_log list \<Rightarrow> axon \<times> op_log list \<times> markle_batch list" where
  "seal_run E ax [] = (ax, [], [])"
| "seal_run E ax (l # ls) =
     (let (ax1, l', batch) = seal_thought E ax l;
          (ax2, ls', batches) = seal_run E ax1 ls
      in (ax2, l' # ls', (case batch of None \<Rightarrow> batches | Some b \<Rightarrow> b # batches)))"

definition hydrate_run :: "ext \<Rightarrow> axon \<Rightarrow> op_log list \<Rightarrow> axon" where
  "hydrate_run E ax logs = foldl (hydrate_from_recovery E) ax logs"

section \<open>The ledger invariant\<close>

text \<open>
  \<open>M\<close> maps every ingested transaction to its leaf. A buffer holds the leaf of each of its
  transactions, its id is in no archive entry, and every location that names it is exact.
\<close>

definition buffer_ok :: "axon \<Rightarrow> (u128 \<Rightarrow> bytes option) \<Rightarrow> active_tree_buffer \<Rightarrow> bool" where
  "buffer_ok ax M b \<longleftrightarrow>
     length (ab_tx_ids b) = length (ab_leaves b)
   \<and> (\<forall>i < length (ab_leaves b). M (ab_tx_ids b ! i) = Some (ab_leaves b ! i))
   \<and> (\<forall>tx i. ax_location ax tx = Some (ab_batch_id b, i) \<longrightarrow>
         i < length (ab_leaves b) \<and> ab_tx_ids b ! i = tx)
   \<and> ax_archive ax (ab_batch_id b) = None
   \<and> unat (ab_batch_id b) < unat (ax_counter ax)"

definition batch_ok :: "ext \<Rightarrow> axon \<Rightarrow> (u128 \<Rightarrow> bytes option) \<Rightarrow> u64 \<Rightarrow> markle_batch \<Rightarrow> bool" where
  "batch_ok E ax M bid batch \<longleftrightarrow>
     mb_batch_id batch = bid
   \<and> mb_markle_root batch = compute_markle_root E (mb_leaves batch)
   \<and> length (mb_leaves batch) = axon_cap
   \<and> (\<forall>tx i. ax_location ax tx = Some (bid, i) \<longrightarrow>
         i < length (mb_leaves batch) \<and> M tx = Some (mb_leaves batch ! i))
   \<and> set (mb_leaves batch) \<subseteq> ran M
   \<and> unat bid < unat (ax_counter ax)"

definition axon_inv :: "ext \<Rightarrow> axon \<Rightarrow> (u128 \<Rightarrow> bytes option) \<Rightarrow> bool" where
  "axon_inv E ax M \<longleftrightarrow>
     wf_map (ax_buffers ax)
   \<and> (\<forall>ns b. map_of (ax_buffers ax) ns = Some b \<longrightarrow> buffer_ok ax M b)
   \<and> (\<forall>ns ns' b b'. map_of (ax_buffers ax) ns = Some b \<longrightarrow> map_of (ax_buffers ax) ns' = Some b'
         \<longrightarrow> ab_batch_id b = ab_batch_id b' \<longrightarrow> ns = ns')
   \<and> (\<forall>bid batch. ax_archive ax bid = Some batch \<longrightarrow> batch_ok E ax M bid batch)
   \<and> (\<forall>tx bid i. ax_location ax tx = Some (bid, i) \<longrightarrow> unat bid < unat (ax_counter ax))
   \<and> (\<forall>tx. M tx \<noteq> None \<longrightarrow> (\<exists>bid i. ax_location ax tx = Some (bid, i)
         \<and> (ax_archive ax bid \<noteq> None \<or> (\<exists>ns b. map_of (ax_buffers ax) ns = Some b \<and> ab_batch_id b = bid))))"

definition below_cap :: "axon \<Rightarrow> bool" where
  "below_cap ax \<longleftrightarrow> (\<forall>ns b. map_of (ax_buffers ax) ns = Some b \<longrightarrow> length (ab_leaves b) < axon_cap)"

lemma axon_invD:
  assumes "axon_inv E ax M"
  shows "wf_map (ax_buffers ax)"
    and "map_of (ax_buffers ax) ns = Some b \<Longrightarrow> buffer_ok ax M b"
    and "map_of (ax_buffers ax) ns = Some b \<Longrightarrow> map_of (ax_buffers ax) ns' = Some b' \<Longrightarrow>
           ab_batch_id b = ab_batch_id b' \<Longrightarrow> ns = ns'"
    and "ax_archive ax bid = Some batch \<Longrightarrow> batch_ok E ax M bid batch"
    and "ax_location ax tx = Some (bid, i) \<Longrightarrow> unat bid < unat (ax_counter ax)"
    and "M tx \<noteq> None \<Longrightarrow> \<exists>bid i. ax_location ax tx = Some (bid, i)
         \<and> (ax_archive ax bid \<noteq> None \<or> (\<exists>ns b. map_of (ax_buffers ax) ns = Some b \<and> ab_batch_id b = bid))"
  using assms unfolding axon_inv_def by blast+

lemma axon_inv_fresh:
  assumes "axon_inv E ax M"
  shows "map_of (ax_buffers ax) ns = Some b \<Longrightarrow> ab_batch_id b \<noteq> ax_counter ax"
    and "ax_archive ax (ax_counter ax) = None"
    and "ax_location ax tx \<noteq> Some (ax_counter ax, i)"
proof -
  show "ab_batch_id b \<noteq> ax_counter ax" if "map_of (ax_buffers ax) ns = Some b"
    using axon_invD(2) [OF assms that] unfolding buffer_ok_def by force
  show "ax_archive ax (ax_counter ax) = None"
    using axon_invD(4) [OF assms, of "ax_counter ax"] unfolding batch_ok_def by force
  show "ax_location ax tx \<noteq> Some (ax_counter ax, i)"
    using axon_invD(5) [OF assms] by blast
qed

lemma axon_inv_new: "axon_inv E axon_new (\<lambda>_. None)"
  by (simp add: axon_inv_def axon_new_def)

lemma below_cap_new: "below_cap axon_new"
  by (simp add: below_cap_def axon_new_def)

lemma unat_Suc_counter:
  "unat (c :: u64) + 1 < 2 ^ 64 \<Longrightarrow> unat (c + 1) = unat c + 1"
  using unat_plus_bounded [of c 1] by simp

text \<open>Opening a buffer: it is in the map afterwards, and the invariant is kept.\<close>

lemma buffer_entry_counter:
  "unat (ax_counter ax) + 1 < 2 ^ 64 \<Longrightarrow> buffer_entry ax ns = (ax', b) \<Longrightarrow>
   unat (ax_counter ax') \<le> unat (ax_counter ax) + 1"
  by (auto simp: buffer_entry_def unat_Suc_counter Let_def split: option.splits)

lemma buffer_entry_in:
  "buffer_entry ax ns = (ax', b) \<Longrightarrow> map_of (ax_buffers ax') ns = Some b"
  by (auto simp: buffer_entry_def Let_def split: option.splits)

lemma buffer_entry_inv:
  assumes inv: "axon_inv E ax M" and room: "unat (ax_counter ax) + 1 < 2 ^ 64"
    and e: "buffer_entry ax ns = (ax', b)"
  shows "axon_inv E ax' M"
proof (cases "map_of (ax_buffers ax) ns")
  case (Some b0)
  with e inv show ?thesis by (simp add: buffer_entry_def)
next
  case None
  let ?c = "ax_counter ax"
  from None e have ax': "ax' = ax\<lparr>ax_counter := ?c + 1, ax_buffers := AList.update ns b (ax_buffers ax)\<rparr>"
    and b: "b = \<lparr>ab_batch_id = ?c, ab_parent_root = zeros 32, ab_leaves = [], ab_logs = [], ab_tx_ids = []\<rparr>"
    by (auto simp: buffer_entry_def Let_def)
  have up: "unat (?c + 1) = unat ?c + 1" using room by (rule unat_Suc_counter)
  note fresh_buf = axon_inv_fresh(1) [OF inv] and fresh_arch = axon_inv_fresh(2) [OF inv]
    and fresh_loc = axon_inv_fresh(3) [OF inv]
  have mono: "\<And>x. unat x < unat ?c \<Longrightarrow> unat x < unat (?c + 1)" using up by simp
  show ?thesis
    unfolding axon_inv_def
  proof (intro conjI allI impI, goal_cases)
    case 1 then show ?case using axon_invD(1) [OF inv] by (simp add: ax')
  next
    case (2 n x)
    then show ?case
    proof (cases "n = ns")
      case True
      with 2 have "x = b" by (simp add: ax')
      then show ?thesis using fresh_loc fresh_arch up by (simp add: buffer_ok_def ax' b)
    next
      case False
      with 2 have "buffer_ok ax M x" using axon_invD(2) [OF inv, of n x] by (simp add: ax')
      then show ?thesis using mono by (auto simp: buffer_ok_def ax')
    qed
  next
    case (3 n n' x x')
    then show ?case using axon_invD(3) [OF inv, of n x n' x'] fresh_buf [of n x] fresh_buf [of n' x']
      by (auto simp: ax' b split: if_splits)
  next
    case (4 bid batch)
    then have "batch_ok E ax M bid batch" using axon_invD(4) [OF inv] by (simp add: ax')
    then show ?case using mono by (auto simp: batch_ok_def ax')
  next
    case (5 tx bid i)
    then show ?case using mono [OF axon_invD(5) [OF inv, of tx bid i]] by (simp add: ax')
  next
    case (6 tx)
    then obtain bid i where l: "ax_location ax tx = Some (bid, i)"
      and d: "ax_archive ax bid \<noteq> None \<or> (\<exists>n x. map_of (ax_buffers ax) n = Some x \<and> ab_batch_id x = bid)"
      using axon_invD(6) [OF inv] by blast
    have m: "map_of (ax_buffers ax') n = Some x" if "map_of (ax_buffers ax) n = Some x" for n x
      using that None by (auto simp: ax')
    have "ax_archive ax bid \<noteq> None \<or>
        (\<exists>n x. map_of (ax_buffers ax') n = Some x \<and> ab_batch_id x = bid)"
      using d m by blast
    with l show ?case by (simp add: ax')
  qed
qed

text \<open>Pushing the leaf of a transaction the ledger has not seen.\<close>

lemma nth_append_len: "i < length xs \<Longrightarrow> (xs @ ys) ! i = xs ! i"
  by (simp add: nth_append)

lemma push_leaf_inv:
  assumes inv: "axon_inv E ax M" and b: "map_of (ax_buffers ax) ns = Some b"
    and new: "M (ol_txid log) = None" and p: "push_leaf ax ns b leaf log = (ax', b')"
  shows "axon_inv E ax' (M(ol_txid log \<mapsto> leaf))"
proof -
  let ?t = "ol_txid log"
  let ?M = "M(?t \<mapsto> leaf)"
  let ?n = "length (ab_leaves b)"
  from p have b': "b' = b\<lparr>ab_leaves := ab_leaves b @ [leaf], ab_logs := ab_logs b @ [log],
                 ab_tx_ids := ab_tx_ids b @ [?t]\<rparr>"
    and ax': "ax' = ax\<lparr>ax_location := (ax_location ax)(?t \<mapsto> (ab_batch_id b, ?n)),
             ax_buffers := AList.update ns b' (ax_buffers ax)\<rparr>"
    by (auto simp: push_leaf_def Let_def)
  have bok: "buffer_ok ax M b" using axon_invD(2) [OF inv b] .
  have keep: "\<And>x v. M x = Some v \<Longrightarrow> ?M x = Some v" using new by auto
  have unseen: "i < length (ab_leaves b) \<Longrightarrow> ab_tx_ids b ! i \<noteq> ?t" for i
    using bok new unfolding buffer_ok_def by force
  have bok': "buffer_ok ax' ?M b'"
    using bok unseen by (auto simp: buffer_ok_def ax' b' nth_append less_Suc_eq split: if_splits)
  show ?thesis
    unfolding axon_inv_def
  proof (intro conjI allI impI, goal_cases)
    case 1 then show ?case using axon_invD(1) [OF inv] by (simp add: ax')
  next
    case (2 n x)
    show ?case
    proof (cases "n = ns")
      case True
      with 2 have "x = b'" by (simp add: ax')
      with bok' show ?thesis by simp
    next
      case False
      with 2 have m: "map_of (ax_buffers ax) n = Some x" by (simp add: ax')
      have "ab_batch_id x \<noteq> ab_batch_id b" using axon_invD(3) [OF inv m b] False by blast
      with axon_invD(2) [OF inv m] keep show ?thesis by (simp add: buffer_ok_def ax')
    qed
  next
    case (3 n n' x x')
    have old: "\<exists>y. map_of (ax_buffers ax) m = Some y \<and> ab_batch_id y = ab_batch_id z"
      if "map_of (ax_buffers ax') m = Some z" for m z
      using that b by (cases "m = ns") (auto simp: ax' b')
    obtain y where y: "map_of (ax_buffers ax) n = Some y" "ab_batch_id y = ab_batch_id x"
      using old [OF 3(1)] by blast
    obtain y' where y': "map_of (ax_buffers ax) n' = Some y'" "ab_batch_id y' = ab_batch_id x'"
      using old [OF 3(2)] by blast
    show ?case using axon_invD(3) [OF inv y(1) y'(1)] y(2) y'(2) 3(3) by simp
  next
    case (4 bid batch)
    then have m: "ax_archive ax bid = Some batch" by (simp add: ax')
    then have "bid \<noteq> ab_batch_id b" using bok by (auto simp: buffer_ok_def)
    have "ran M \<subseteq> ran ?M" using new unfolding ran_def by (smt (verit, best) Collect_mono fun_upd_other option.distinct(1))
    then show ?case using axon_invD(4) [OF inv m] \<open>bid \<noteq> ab_batch_id b\<close>
      by (auto simp: batch_ok_def ax' new)
  next
    case (5 tx bid i)
    then show ?case using axon_invD(5) [OF inv] bok by (auto simp: ax' buffer_ok_def split: if_splits)
  next
    case (6 tx)
    show ?case
    proof (cases "tx = ?t")
      case True
      have "\<exists>n x. map_of (ax_buffers ax') n = Some x \<and> ab_batch_id x = ab_batch_id b"
        by (intro exI [of _ ns]) (simp add: ax' b')
      with True show ?thesis by (simp add: ax')
    next
      case False
      with 6 have "M tx \<noteq> None" by simp
      from axon_invD(6) [OF inv this] obtain bid i where l: "ax_location ax tx = Some (bid, i)"
        and d: "ax_archive ax bid \<noteq> None \<or> (\<exists>n x. map_of (ax_buffers ax) n = Some x \<and> ab_batch_id x = bid)"
        by blast
      have m: "\<exists>y. map_of (ax_buffers ax') n = Some y \<and> ab_batch_id y = bid"
        if "map_of (ax_buffers ax) n = Some x" "ab_batch_id x = bid" for n x
        using that b by (cases "n = ns") (simp_all add: ax' b')
      have "ax_archive ax' bid = ax_archive ax bid" by (simp add: ax')
      with d m have "ax_archive ax' bid \<noteq> None \<or>
          (\<exists>n x. map_of (ax_buffers ax') n = Some x \<and> ab_batch_id x = bid)"
        by metis
      with l False show ?thesis by (simp add: ax')
    qed
  qed
qed

text \<open>Crystallizing a full buffer.\<close>

lemma crystallize_inv:
  assumes inv: "axon_inv E ax M" and b: "map_of (ax_buffers ax) ns = Some b"
    and room: "unat (ax_counter ax) + 1 < 2 ^ 64" and full: "length (ab_leaves b) = axon_cap"
    and c: "crystallize E ax ns b = (ax', batch)"
  shows "axon_inv E ax' M"
proof -
  let ?c = "ax_counter ax"
  define b' where "b' = b\<lparr>ab_parent_root := compute_markle_root E (ab_leaves b), ab_batch_id := ?c,
     ab_leaves := [], ab_logs := [], ab_tx_ids := []\<rparr>"
  from c have batch: "batch = \<lparr>mb_batch_id = ab_batch_id b, mb_namespace = ns,
      mb_markle_root = compute_markle_root E (ab_leaves b),
      mb_parent_batch_root = ab_parent_root b, mb_leaves = ab_leaves b\<rparr>"
    and ax': "ax' = ax\<lparr>ax_archive := (ax_archive ax)(ab_batch_id b \<mapsto> batch), ax_counter := ?c + 1,
             ax_buffers := AList.update ns b' (ax_buffers ax)\<rparr>"
    by (auto simp: crystallize_def Let_def b'_def)
  have bok: "buffer_ok ax M b" using axon_invD(2) [OF inv b] .
  have up: "unat (?c + 1) = unat ?c + 1" using room by (rule unat_Suc_counter)
  have mono: "\<And>x. unat x < unat ?c \<Longrightarrow> unat x < unat (?c + 1)" using up by simp
  note fresh_buf = axon_inv_fresh(1) [OF inv] and fresh_arch = axon_inv_fresh(2) [OF inv]
    and fresh_loc = axon_inv_fresh(3) [OF inv]
  have old: "ab_batch_id b \<noteq> ?c" using fresh_buf [OF b] .
  show ?thesis
    unfolding axon_inv_def
  proof (intro conjI allI impI, goal_cases)
    case 1 then show ?case using axon_invD(1) [OF inv] by (simp add: ax')
  next
    case (2 n x)
    show ?case
    proof (cases "n = ns")
      case True
      with 2 have "x = b'" by (simp add: ax')
      with fresh_loc fresh_arch old up show ?thesis by (simp add: buffer_ok_def b'_def ax')
    next
      case False
      with 2 have m: "map_of (ax_buffers ax) n = Some x" by (simp add: ax')
      have "ab_batch_id x \<noteq> ab_batch_id b" using axon_invD(3) [OF inv m b] False by blast
      with axon_invD(2) [OF inv m] mono show ?thesis by (auto simp: buffer_ok_def ax')
    qed
  next
    case (3 n n' x x')
    then show ?case using axon_invD(3) [OF inv, of n x n' x'] fresh_buf [of n x] fresh_buf [of n' x']
      by (auto simp: ax' b'_def split: if_splits)
  next
    case (4 bid batch')
    show ?case
    proof (cases "bid = ab_batch_id b")
      case True
      with 4 have "batch' = batch" by (simp add: ax')
      moreover have "set (ab_leaves b) \<subseteq> ran M"
        using bok unfolding buffer_ok_def in_set_conv_nth by (force simp: in_set_conv_nth ran_def)
      moreover have "unat (ab_batch_id b) < unat (?c + 1)"
        using bok mono unfolding buffer_ok_def by blast
      moreover have "\<forall>tx i. ax_location ax tx = Some (ab_batch_id b, i) \<longrightarrow>
          i < length (ab_leaves b) \<and> M tx = Some (ab_leaves b ! i)"
        using bok unfolding buffer_ok_def by blast
      ultimately show ?thesis using True full by (simp add: batch_ok_def batch ax')
    next
      case False
      with 4 have "ax_archive ax bid = Some batch'" by (simp add: ax')
      from axon_invD(4) [OF inv this] show ?thesis using mono by (auto simp: batch_ok_def ax')
    qed
  next
    case (5 tx bid i)
    then show ?case using mono [OF axon_invD(5) [OF inv, of tx bid i]] by (simp add: ax')
  next
    case (6 tx)
    then obtain bid i where l: "ax_location ax tx = Some (bid, i)"
      and d: "ax_archive ax bid \<noteq> None \<or> (\<exists>n x. map_of (ax_buffers ax) n = Some x \<and> ab_batch_id x = bid)"
      using axon_invD(6) [OF inv, of tx] by blast
    from d b have "ax_archive ax' bid \<noteq> None \<or>
        (\<exists>n x. map_of (ax_buffers ax') n = Some x \<and> ab_batch_id x = bid)"
    proof (cases "bid = ab_batch_id b")
      case True
      then show ?thesis by (simp add: ax')
    next
      case False
      have m: "map_of (ax_buffers ax') n = Some x" if "map_of (ax_buffers ax) n = Some x"
        and "ab_batch_id x = bid" for n x
        using that b False by (auto simp: ax')
      have "ax_archive ax' bid = ax_archive ax bid" using False by (simp add: ax')
      with d m show ?thesis by metis
    qed
    with l show ?case by (simp add: ax')
  qed
qed

section \<open>One ingestion\<close>

lemma below_cap_update:
  "below_cap ax \<Longrightarrow> ax_buffers ax' = AList.update ns b (ax_buffers ax) \<Longrightarrow>
   length (ab_leaves b) < axon_cap \<Longrightarrow> below_cap ax'"
  by (auto simp: below_cap_def)

lemma below_capD: "below_cap ax \<Longrightarrow> map_of (ax_buffers ax) ns = Some b \<Longrightarrow> length (ab_leaves b) < axon_cap"
  by (simp add: below_cap_def)

lemma axon_cap_pos [simp]: "0 < axon_cap"
  by (simp add: axon_cap_def)

lemma buffer_entry_below:
  "below_cap ax \<Longrightarrow> buffer_entry ax ns = (ax', b) \<Longrightarrow> below_cap ax' \<and> length (ab_leaves b) < axon_cap"
  by (auto simp: buffer_entry_def Let_def below_cap_def split: option.splits if_splits)

text \<open>
  What an ingestion keeps and takes: the invariant for the ghost map with the new leaf, buffers
  below their capacity, and at most two batch ids.
\<close>

lemma ingest_inv:
  assumes inv: "axon_inv E ax M" and cap: "below_cap ax"
    and new: "M (ol_txid log) = None" and room: "unat (ax_counter ax) + 2 < 2 ^ 64"
  shows "axon_inv E (fst (ingest_leaf_internal E ax ns leaf log)) (M(ol_txid log \<mapsto> leaf))"
    and "below_cap (fst (ingest_leaf_internal E ax ns leaf log))"
    and "unat (ax_counter (fst (ingest_leaf_internal E ax ns leaf log))) \<le> unat (ax_counter ax) + 2"
proof -
  obtain ax1 b where e: "buffer_entry ax ns = (ax1, b)" by fastforce
  obtain ax2 b' where p: "push_leaf ax1 ns b leaf log = (ax2, b')" by fastforce
  obtain ax3 batch where c: "crystallize E ax2 ns b' = (ax3, batch)" by fastforce
  note r = ingest_leaf_internal_def [of E ax ns leaf log] e p c
  have i1: "axon_inv E ax1 M" using buffer_entry_inv [OF inv _ e] room by simp
  have m1: "map_of (ax_buffers ax1) ns = Some b" using e by (rule buffer_entry_in)
  have i2: "axon_inv E ax2 (M(ol_txid log \<mapsto> leaf))" using push_leaf_inv [OF i1 m1 new p] .
  have b1: "below_cap ax1" "length (ab_leaves b) < axon_cap" using buffer_entry_below [OF cap e] by auto
  have c1: "unat (ax_counter ax1) \<le> unat (ax_counter ax) + 1"
    using buffer_entry_counter [OF _ e] room by simp
  have p': "ax_buffers ax2 = AList.update ns b' (ax_buffers ax1)" "ax_counter ax2 = ax_counter ax1"
    "length (ab_leaves b') = length (ab_leaves b) + 1"
    using p by (auto simp: push_leaf_def Let_def)
  have m2: "map_of (ax_buffers ax2) ns = Some b'" using p' by simp
  have c3: "ax_buffers ax3 = AList.update ns (b'\<lparr>ab_parent_root := compute_markle_root E (ab_leaves b'),
      ab_batch_id := ax_counter ax2, ab_leaves := [], ab_logs := [], ab_tx_ids := []\<rparr>) (ax_buffers ax2)"
    "ax_counter ax3 = ax_counter ax2 + 1"
    using c by (auto simp: crystallize_def Let_def)
  have up: "unat (ax_counter ax2 + 1) = unat (ax_counter ax2) + 1"
    using c1 p' room by (intro unat_Suc_counter) simp
  have full: "axon_cap \<le> length (ab_leaves b') \<Longrightarrow> length (ab_leaves b') = axon_cap"
    using b1 p' by simp
  have i3: "axon_cap \<le> length (ab_leaves b') \<Longrightarrow> axon_inv E ax3 (M(ol_txid log \<mapsto> leaf))"
    using crystallize_inv [OF i2 m2 _ full c] c1 p' room by simp
  show "axon_inv E (fst (ingest_leaf_internal E ax ns leaf log)) (M(ol_txid log \<mapsto> leaf))"
    using i2 i3 by (simp add: r)
  show "unat (ax_counter (fst (ingest_leaf_internal E ax ns leaf log))) \<le> unat (ax_counter ax) + 2"
    using c1 p' c3 up by (simp add: r)
  show "below_cap (fst (ingest_leaf_internal E ax ns leaf log))"
    using below_cap_update [OF b1(1) p'(1)] b1 p' c3
    by (auto simp: r below_cap_def)
qed

lemma seal_thought_state:
  "fst (seal_thought E ax log) =
   fst (ingest_leaf_internal E ax (ol_namespace log) (leaf_hash E (ol_delta log) (ol_agent_id log))
     (fst (snd (seal_thought E ax log))))"
  by (simp add: seal_thought_def Let_def split: prod.splits)

text \<open>The sealed log: the leaf as its hash, everything but the two hashes unchanged.\<close>

lemma seal_thought_log:
  "\<exists>parent. fst (snd (seal_thought E ax log)) =
     log\<lparr>ol_previous_hash := parent, ol_current_hash := leaf_hash E (ol_delta log) (ol_agent_id log)\<rparr>"
  by (auto simp: seal_thought_def Let_def split: prod.splits)

section \<open>Every sealed thought has a proof that verifies\<close>

lemma make_proof_verifies:
  assumes E: "hash_ok E" "hex_ok E" and i: "i < length leaves"
    and l: "\<forall>x \<in> set leaves. length x = 32"
    and leaf: "leaves ! i = leaf_hash E delta agent"
  shows "\<exists>p. make_proof E tx leaves i (compute_markle_root E leaves) parent bid act = Inr p
     \<and> verify_inclusion E delta agent p \<and> ip_tx_id_hex p = fmt_032x tx
     \<and> ip_is_active_buffer p = act \<and> ip_batch_id p = bid"
proof -
  obtain q where q: "sibling_loop E leaves i = Inr q"
    and r: "root_loop E leaves ! 0 = climb E (leaves ! i) i q"
    using sibling_loop_climb [OF i] by blast
  have "\<forall>s \<in> set q. length s = 32" using sibling_loop_length [OF E(1) l q] .
  then have c: "climb_hex E (leaves ! i) i (map (x_hex_encode E) q) = Some (climb E (leaves ! i) i q)"
    using climb_hex_encode [OF E(2)] by blast
  from i have "leaves \<noteq> []" by auto
  with q r c leaf show ?thesis
    by (simp add: make_proof_def exract_sibling_path_def verify_inclusion_def compute_markle_root_def)
qed

definition leaves_32 :: "(u128 \<Rightarrow> bytes option) \<Rightarrow> bool" where
  "leaves_32 M \<longleftrightarrow> (\<forall>tx leaf. M tx = Some leaf \<longrightarrow> length leaf = 32)"

lemma buffer_leaves_32:
  assumes "buffer_ok ax M b" and "leaves_32 M"
  shows "\<forall>x \<in> set (ab_leaves b). length x = 32"
proof
  fix x
  assume "x \<in> set (ab_leaves b)"
  then obtain i where "i < length (ab_leaves b)" "ab_leaves b ! i = x" by (auto simp: in_set_conv_nth)
  then have "M (ab_tx_ids b ! i) = Some x" using assms(1) by (auto simp: buffer_ok_def)
  then show "length x = 32" using assms(2) by (auto simp: leaves_32_def)
qed

lemma proof_from_buffers_ok:
  assumes E: "hash_ok E" "hex_ok E" "leaves_32 M"
    and ok: "\<forall>(ns, b) \<in> set bufs. buffer_ok ax M b"
    and M: "M tx = Some (leaf_hash E delta agent)"
    and mem: "\<exists>(ns, b) \<in> set bufs. tx \<in> set (ab_tx_ids b)"
  shows "\<exists>p. proof_from_buffers E tx bufs = Inr (Some p) \<and> verify_inclusion E delta agent p
     \<and> ip_tx_id_hex p = fmt_032x tx"
  using ok mem
proof (induction bufs)
  case (Cons nb rest)
  obtain ns b where nb: "nb = (ns, b)" by (cases nb)
  show ?case
  proof (cases "position tx (ab_tx_ids b)")
    case None
    then have "tx \<notin> set (ab_tx_ids b)" by simp
    with Cons.prems nb have "\<exists>(ns, b) \<in> set rest. tx \<in> set (ab_tx_ids b)" by auto
    with Cons.IH Cons.prems(1) obtain p where "proof_from_buffers E tx rest = Inr (Some p)"
      "verify_inclusion E delta agent p" "ip_tx_id_hex p = fmt_032x tx" by auto
    moreover have "proof_from_buffers E tx (nb # rest) = proof_from_buffers E tx rest"
      unfolding nb proof_from_buffers.simps None by simp
    ultimately show ?thesis by simp
  next
    case (Some i)
    have b: "buffer_ok ax M b" using Cons.prems nb by simp
    from position_Some [OF Some] b have i: "i < length (ab_leaves b)" "ab_tx_ids b ! i = tx"
      by (auto simp: buffer_ok_def)
    with b M have "ab_leaves b ! i = leaf_hash E delta agent" by (auto simp: buffer_ok_def)
    from make_proof_verifies [OF E(1,2) i(1) buffer_leaves_32 [OF b E(3)] this]
    obtain p where "make_proof E tx (ab_leaves b) i (compute_markle_root E (ab_leaves b))
        (ab_parent_root b) (ab_batch_id b) True = Inr p"
      and "verify_inclusion E delta agent p" "ip_tx_id_hex p = fmt_032x tx" by blast
    then show ?thesis unfolding nb proof_from_buffers.simps Some by simp
  qed
qed simp

lemma proof_complete:
  assumes E: "hash_ok E" "hex_ok E" and inv: "axon_inv E ax M" and M32: "leaves_32 M"
    and M: "M tx = Some (leaf_hash E delta agent)"
  shows "\<exists>p. generate_proof_for_tx E ax tx = Inr (Some p) \<and> verify_inclusion E delta agent p
     \<and> ip_tx_id_hex p = fmt_032x tx"
proof -
  from M have "M tx \<noteq> None" by simp
  from axon_invD(6) [OF inv this] obtain bid i where l: "ax_location ax tx = Some (bid, i)"
    and d: "ax_archive ax bid \<noteq> None \<or> (\<exists>ns b. map_of (ax_buffers ax) ns = Some b \<and> ab_batch_id b = bid)"
    by blast
  show ?thesis
  proof (cases "ax_archive ax bid")
    case (Some batch)
    from axon_invD(4) [OF inv Some] l M
    have i: "i < length (mb_leaves batch)" "mb_leaves batch ! i = leaf_hash E delta agent"
      and r: "mb_markle_root batch = compute_markle_root E (mb_leaves batch)"
      unfolding batch_ok_def by auto
    have "\<forall>x \<in> set (mb_leaves batch). length x = 32"
      using M32 axon_invD(4) [OF inv Some] by (force simp: batch_ok_def leaves_32_def ran_def)
    from make_proof_verifies [OF E i(1) this i(2)]
    obtain p where "make_proof E tx (mb_leaves batch) i (mb_markle_root batch)
        (mb_parent_batch_root batch) bid False = Inr p"
      and "verify_inclusion E delta agent p" "ip_tx_id_hex p = fmt_032x tx"
      unfolding r by blast
    then show ?thesis using l Some by (simp add: generate_proof_for_tx_def)
  next
    case None
    with d obtain ns b where b: "map_of (ax_buffers ax) ns = Some b" "ab_batch_id b = bid" by auto
    with axon_invD(2) [OF inv b(1)] l have "tx \<in> set (ab_tx_ids b)"
      unfolding buffer_ok_def by (metis nth_mem)
    then have mem: "\<exists>(ns, b) \<in> set (ax_buffers ax). tx \<in> set (ab_tx_ids b)"
      using map_of_SomeD [OF b(1)] by blast
    have ok: "\<forall>(ns, b) \<in> set (ax_buffers ax). buffer_ok ax M b"
    proof clarify
      fix n x
      assume "(n, x) \<in> set (ax_buffers ax)"
      then have "map_of (ax_buffers ax) n = Some x" using axon_invD(1) [OF inv] by simp
      then show "buffer_ok ax M x" by (rule axon_invD(2) [OF inv])
    qed
    from proof_from_buffers_ok [OF E M32 ok M mem] show ?thesis
      using l None unfolding generate_proof_for_tx_def by simp
  qed
qed

section \<open>Runs of the gatekeeper\<close>

abbreviation leaf_of :: "ext \<Rightarrow> op_log \<Rightarrow> bytes" where
  "leaf_of E l \<equiv> leaf_hash E (ol_delta l) (ol_agent_id l)"

lemma seal_thought_inv:
  assumes "hash_ok E" "axon_inv E ax M" "below_cap ax" "leaves_32 M" "M (ol_txid l) = None"
    and "unat (ax_counter ax) + 2 < 2 ^ 64"
  shows "axon_inv E (fst (seal_thought E ax l)) (M(ol_txid l \<mapsto> leaf_of E l))"
    and "below_cap (fst (seal_thought E ax l))"
    and "leaves_32 (M(ol_txid l \<mapsto> leaf_of E l))"
    and "unat (ax_counter (fst (seal_thought E ax l))) \<le> unat (ax_counter ax) + 2"
proof -
  obtain parent where l': "fst (snd (seal_thought E ax l)) =
     l\<lparr>ol_previous_hash := parent, ol_current_hash := leaf_of E l\<rparr>"
    using seal_thought_log by blast
  then have t: "ol_txid (fst (snd (seal_thought E ax l))) = ol_txid l" by simp
  note i = ingest_inv [OF assms(2,3) _ assms(6), of "fst (snd (seal_thought E ax l))", unfolded t, OF assms(5)]
  show "axon_inv E (fst (seal_thought E ax l)) (M(ol_txid l \<mapsto> leaf_of E l))"
    unfolding seal_thought_state by (rule i)
  show "below_cap (fst (seal_thought E ax l))"
    unfolding seal_thought_state by (rule i)
  show "unat (ax_counter (fst (seal_thought E ax l))) \<le> unat (ax_counter ax) + 2"
    unfolding seal_thought_state by (rule i)
  show "leaves_32 (M(ol_txid l \<mapsto> leaf_of E l))"
    using assms(1,4) by (simp add: leaves_32_def)
qed

lemma seal_run_fst:
  "fst (seal_run E ax (l # ls)) = fst (seal_run E (fst (seal_thought E ax l)) ls)"
  by (simp add: Let_def split: prod.splits)

lemma seal_run_inv:
  assumes "hash_ok E" "axon_inv E ax M" "below_cap ax" "leaves_32 M"
    and "distinct (map ol_txid logs)" "\<forall>l \<in> set logs. M (ol_txid l) = None"
    and "unat (ax_counter ax) + 2 * length logs < 2 ^ 64"
  shows "\<exists>M'. axon_inv E (fst (seal_run E ax logs)) M' \<and> leaves_32 M' \<and> below_cap (fst (seal_run E ax logs))
     \<and> (\<forall>tx v. M tx = Some v \<longrightarrow> M' tx = Some v)
     \<and> (\<forall>l \<in> set logs. M' (ol_txid l) = Some (leaf_of E l))"
  using assms
proof (induction logs arbitrary: ax M)
  case Nil
  then show ?case by auto
next
  case (Cons l ls)
  let ?M = "M(ol_txid l \<mapsto> leaf_of E l)"
  let ?ax = "fst (seal_thought E ax l)"
  have new: "M (ol_txid l) = None" using Cons.prems(6) by simp
  have room: "unat (ax_counter ax) + 2 < 2 ^ 64" using Cons.prems(7) by simp
  note s = seal_thought_inv [OF Cons.prems(1-4) new room]
  have "\<forall>k \<in> set ls. ?M (ol_txid k) = None" using Cons.prems(5,6) by (force simp: image_iff)
  moreover have "distinct (map ol_txid ls)" using Cons.prems(5) by simp
  moreover have "unat (ax_counter ?ax) + 2 * length ls < 2 ^ 64" using s(4) Cons.prems(7) by simp
  ultimately obtain M' where M': "axon_inv E (fst (seal_run E ?ax ls)) M'" "leaves_32 M'"
    "below_cap (fst (seal_run E ?ax ls))" "\<forall>tx v. ?M tx = Some v \<longrightarrow> M' tx = Some v"
    "\<forall>k \<in> set ls. M' (ol_txid k) = Some (leaf_of E k)"
    using Cons.IH [OF Cons.prems(1) s(1-3)] by blast
  have "M tx = Some v \<Longrightarrow> M' tx = Some v" for tx v using M'(4) new by (cases "tx = ol_txid l") auto
  moreover have "M' (ol_txid l) = Some (leaf_of E l)" using M'(4) by simp
  ultimately show ?case using M'(1,2,3,5) unfolding seal_run_fst by auto
qed

lemma sealed_thoughts_provable:
  assumes "hash_ok E" and "hex_ok E"
    and "distinct (map ol_txid logs)" and "2 * length logs < 2 ^ 64" and "l \<in> set logs"
  shows "\<exists>p. generate_proof_for_tx E (fst (seal_run E axon_new logs)) (ol_txid l) = Inr (Some p)
     \<and> verify_inclusion E (ol_delta l) (ol_agent_id l) p
     \<and> ip_tx_id_hex p = fmt_032x (ol_txid l)"
proof -
  have "leaves_32 (\<lambda>_. None)" by (simp add: leaves_32_def)
  then obtain M where M: "axon_inv E (fst (seal_run E axon_new logs)) M" "leaves_32 M"
    "\<forall>l \<in> set logs. M (ol_txid l) = Some (leaf_of E l)"
    using seal_run_inv [OF assms(1) axon_inv_new below_cap_new, of logs] assms(3,4)
    by (auto simp: axon_new_def)
  from M(3) assms(5) have "M (ol_txid l) = Some (leaf_of E l)" by blast
  then show ?thesis by (rule proof_complete [OF assms(1,2) M(1,2)])
qed

text \<open>
  C1. Every thought the gatekeeper sealed, in a run of any length over any namespaces whose
  transaction ids are distinct, has an inclusion proof that the verifier accepts for its delta
  and its agent, whether its batch is archived or still active.
\<close>

theorem sealed_thoughts_have_verifying_proofs:
  assumes "hash_ok E" and "hex_ok E"
    and "distinct (map ol_txid logs)" and "2 * length logs < 2 ^ 64" and "l \<in> set logs"
  shows "\<exists>p. generate_proof_for_tx E (fst (seal_run E axon_new logs)) (ol_txid l) = Inr (Some p)
     \<and> verify_inclusion E (ol_delta l) (ol_agent_id l) p
     \<and> ip_tx_id_hex p = fmt_032x (ol_txid l)"
  by (rule sealed_thoughts_provable [OF assms])

section \<open>The batch chain of a namespace\<close>

definition parent_of :: "axon \<Rightarrow> string \<Rightarrow> bytes" where
  "parent_of ax ns = (case map_of (ax_buffers ax) ns of Some b \<Rightarrow> ab_parent_root b | None \<Rightarrow> zeros 32)"

fun chained :: "bytes \<Rightarrow> markle_batch list \<Rightarrow> bool" where
  "chained p [] = True"
| "chained p (b # bs) = (mb_parent_batch_root b = p \<and> chained (mb_markle_root b) bs)"

lemma seal_thought_parent:
  assumes "seal_thought E ax l = (ax', l', bo)" and "below_cap ax"
  shows "ol_previous_hash l' = parent_of ax (ol_namespace l)"
    and "ns \<noteq> ol_namespace l \<Longrightarrow> parent_of ax' ns = parent_of ax ns"
    and "case bo of
           None \<Rightarrow> parent_of ax' (ol_namespace l) = parent_of ax (ol_namespace l)
         | Some b \<Rightarrow> mb_namespace b = ol_namespace l \<and> length (mb_leaves b) = axon_cap
             \<and> mb_markle_root b = compute_markle_root E (mb_leaves b)
             \<and> mb_parent_batch_root b = parent_of ax (ol_namespace l)
             \<and> parent_of ax' (ol_namespace l) = mb_markle_root b"
    and "below_cap ax'"
proof -
  note d = assms(1) [unfolded seal_thought_def ingest_leaf_internal_def buffer_entry_def push_leaf_def
      crystallize_def Let_def]
  show "ol_previous_hash l' = parent_of ax (ol_namespace l)"
    using d by (auto simp: parent_of_def split: prod.splits)
  show "ns \<noteq> ol_namespace l \<Longrightarrow> parent_of ax' ns = parent_of ax ns"
    using d by (auto simp: parent_of_def split: option.splits if_splits)
  show "case bo of
           None \<Rightarrow> parent_of ax' (ol_namespace l) = parent_of ax (ol_namespace l)
         | Some b \<Rightarrow> mb_namespace b = ol_namespace l \<and> length (mb_leaves b) = axon_cap
             \<and> mb_markle_root b = compute_markle_root E (mb_leaves b)
             \<and> mb_parent_batch_root b = parent_of ax (ol_namespace l)
             \<and> parent_of ax' (ol_namespace l) = mb_markle_root b"
    using d below_capD [OF assms(2), of "ol_namespace l"]
    by (fastforce simp: parent_of_def axon_cap_def split: option.splits if_splits)
  show "below_cap ax'"
    using d assms(2) by (auto simp: below_cap_def axon_cap_def split: option.splits if_splits)
qed

lemma seal_run_chain:
  assumes "below_cap ax"
  shows "chained (parent_of ax ns) (filter (\<lambda>b. mb_namespace b = ns) (snd (snd (seal_run E ax logs))))
    \<and> list_all (\<lambda>b. length (mb_leaves b) = axon_cap
          \<and> mb_markle_root b = compute_markle_root E (mb_leaves b)) (snd (snd (seal_run E ax logs)))"
  using assms
proof (induction logs arbitrary: ax)
  case (Cons l ls)
  obtain ax1 l1 bo where s: "seal_thought E ax l = (ax1, l1, bo)" by (metis prod.exhaust)
  obtain ax2 l2 bs where r: "seal_run E ax1 ls = (ax2, l2, bs)" by (metis prod.exhaust)
  note p = seal_thought_parent [OF s Cons.prems]
  have ih: "chained (parent_of ax1 ns) (filter (\<lambda>b. mb_namespace b = ns) bs)"
    and all: "list_all (\<lambda>b. length (mb_leaves b) = axon_cap
          \<and> mb_markle_root b = compute_markle_root E (mb_leaves b)) bs"
    using Cons.IH [OF p(4)] r by simp_all
  show ?case using ih all p(2) [of ns] p(3) s r
    by (cases bo; cases "ns = ol_namespace l") (auto simp: Let_def)
qed simp


section \<open>Recovery\<close>

lemma hydrate_seal_thought:
  assumes "seal_thought E ax l = (ax', l', bo)"
  shows "hydrate_from_recovery E ax l' = ax'"
proof -
  have "l' = fst (snd (seal_thought E ax l))" using assms by simp
  moreover obtain parent where "fst (snd (seal_thought E ax l)) =
     l\<lparr>ol_previous_hash := parent, ol_current_hash := leaf_of E l\<rparr>"
    using seal_thought_log by blast
  ultimately have "ol_namespace l' = ol_namespace l" "ol_current_hash l' = leaf_of E l" by simp_all
  then show ?thesis
    using seal_thought_state [of E ax l] assms by (simp add: hydrate_from_recovery_def)
qed

lemma hydrate_seal_run: "hydrate_run E ax (fst (snd (seal_run E ax logs))) = fst (seal_run E ax logs)"
proof (induction logs arbitrary: ax)
  case (Cons l ls)
  obtain ax1 l1 bo where s: "seal_thought E ax l = (ax1, l1, bo)" by (metis prod.exhaust)
  obtain ax2 l2 bs where r: "seal_run E ax1 ls = (ax2, l2, bs)" by (metis prod.exhaust)
  have "hydrate_run E ax1 l2 = ax2" using Cons.IH [of ax1] r by simp
  with s r hydrate_seal_thought [OF s] show ?case by (simp add: hydrate_run_def)
qed (simp add: hydrate_run_def)

lemma seal_run_foreign: "list_all (verify_foreign_thoughts E) (fst (snd (seal_run E ax logs)))"
proof (induction logs arbitrary: ax)
  case (Cons l ls)
  obtain ax1 l1 bo where s: "seal_thought E ax l = (ax1, l1, bo)" by (metis prod.exhaust)
  obtain ax2 l2 bs where r: "seal_run E ax1 ls = (ax2, l2, bs)" by (metis prod.exhaust)
  obtain parent where "l1 = l\<lparr>ol_previous_hash := parent, ol_current_hash := leaf_of E l\<rparr>"
    using seal_thought_log [of E ax l] s by auto
  then have "verify_foreign_thoughts E l1" by (simp add: verify_foreign_thoughts_def)
  with Cons.IH [of ax1] s r show ?case by simp
qed simp

text \<open>
  Crash recovery: feeding the sealed logs of a run, in their order, to
  \<open>hydrate_from_recovery\<close> on a fresh gatekeeper rebuilds exactly the ledger the run had
  (buffers, archive, counter and index), and every sealed log passes the check the network
  applies to foreign thoughts.
\<close>

theorem hydration_rebuilds_the_ledger:
  "hydrate_run E axon_new (fst (snd (seal_run E axon_new logs))) = fst (seal_run E axon_new logs)
   \<and> list_all (verify_foreign_thoughts E) (fst (snd (seal_run E axon_new logs)))"
  by (simp add: hydrate_seal_run seal_run_foreign)

section \<open>Concrete runs\<close>

lemma sealed_thoughts_have_verifying_proofs_witness:
  "\<exists>p. generate_proof_for_tx demo (fst (seal_run demo axon_new
        [demo_log 1 ''a'' ''x'', demo_log 2 ''b'' ''y'', demo_log 3 ''a'' ''z''])) 3 = Inr (Some p)
     \<and> verify_inclusion demo (as_bytes ''z'') (zeros 16) p \<and> ip_tx_id_hex p = fmt_032x 3"
  using sealed_thoughts_have_verifying_proofs [OF demo_hash_ok demo_hex_ok,
      of "[demo_log 1 ''a'' ''x'', demo_log 2 ''b'' ''y'', demo_log 3 ''a'' ''z'']" "demo_log 3 ''a'' ''z''"]
  by (simp add: demo_log_def)

text \<open>
  The hypothesis of distinct ids is needed: when two thoughts with the same transaction id
  are sealed into one active batch, the proof the ledger gives for the id is that of the first,
  whatever the second one was.
\<close>

theorem duplicate_txid_proof_is_of_the_first:
  assumes "hash_ok E" and "hex_ok E" and "ol_namespace l1 = ol_namespace l2" and "ol_txid l1 = ol_txid l2"
  shows "\<exists>p. generate_proof_for_tx E (fst (seal_run E axon_new [l1, l2])) (ol_txid l2) = Inr (Some p)
     \<and> verify_inclusion E (ol_delta l1) (ol_agent_id l1) p"
proof -
  let ?ax = "fst (seal_run E axon_new [l1, l2])"
  let ?xs = "[leaf_of E l1, leaf_of E l2]"
  have g: "\<exists>logs. ax_buffers ?ax = [(ol_namespace l2, \<lparr>ab_batch_id = 0, ab_parent_root = zeros 32,
       ab_leaves = ?xs, ab_logs = logs, ab_tx_ids = [ol_txid l2, ol_txid l2]\<rparr>)]
     \<and> ax_archive ?ax = (\<lambda>_. None)"
    using assms(3,4) by (simp add: seal_thought_def ingest_leaf_internal_def buffer_entry_def
        push_leaf_def crystallize_def Let_def axon_new_def axon_cap_def)
  have "generate_proof_for_tx E ?ax (ol_txid l2) = proof_from_buffers E (ol_txid l2) (ax_buffers ?ax)"
    using g by (auto simp: generate_proof_for_tx_def split: option.splits)
  moreover obtain p where "make_proof E (ol_txid l2) ?xs 0 (compute_markle_root E ?xs) (zeros 32) 0 True = Inr p"
    and "verify_inclusion E (ol_delta l1) (ol_agent_id l1) p"
    using make_proof_verifies [OF assms(1,2), of 0 ?xs "ol_delta l1" "ol_agent_id l1" "ol_txid l2" "zeros 32" 0 True]
      assms(1) by auto
  ultimately show ?thesis using g by auto
qed

lemma duplicate_txid_proof_is_of_the_first_witness:
  "\<exists>p. generate_proof_for_tx demo (fst (seal_run demo axon_new
        [demo_log 7 ''a'' ''x'', demo_log 7 ''a'' ''y''])) 7 = Inr (Some p)
     \<and> verify_inclusion demo (as_bytes ''x'') (zeros 16) p"
  using duplicate_txid_proof_is_of_the_first [OF demo_hash_ok demo_hex_ok,
      of "demo_log 7 ''a'' ''x''" "demo_log 7 ''a'' ''y''"]
  by (simp add: demo_log_def)

end
