(* ===== verification/Witness.thy ===== *)
theory Witness
  imports Axon
begin

text \<open>
  The WORM witness engine of src/raqim-core/src/witness.rs and the forensic boot audit of
  src/raqim-core/src/axon.rs that consumes it. The witness directory is an association list from
  file name to content, with the set of names made immutable; the bucket is a function from
  object name to what the HTTP client returns. The lemmas establish what the audit guarantees
  when it is given the anchored witnesses and can fetch their bundles, and what the names the
  engine writes and reads make of it.
\<close>

section \<open>The engine\<close>

record worm_engine =
  we_key :: bytes
  we_bucket :: "string option"
  we_files :: "(string \<times> bytes) list"
  we_immutable :: "string list"
  we_uploads :: "(string \<times> bytes) list"

definition batch_file :: "u64 \<Rightarrow> string" where
  "batch_file batch_id = ''batch_'' @ fmt_08 (unat batch_id) @ ''.json''"

definition bundle_file :: "u64 \<Rightarrow> string" where
  "bundle_file batch_id = ''bundle_'' @ fmt_08 (unat batch_id) @ ''.json''"

definition unsign_payload :: "ext \<Rightarrow> markle_batch \<Rightarrow> u64 \<Rightarrow> string" where
  "unsign_payload E batch timestamp =
     ''raqim.worm.v1:'' @ fmt_nat (unat (mb_batch_id batch)) @ '':'' @ mb_namespace batch @ '':''
     @ x_hex_encode E (mb_markle_root batch) @ '':'' @ x_hex_encode E (mb_parent_batch_root batch)
     @ '':'' @ fmt_nat (unat timestamp)"

definition witness_of :: "ext \<Rightarrow> bytes \<Rightarrow> markle_batch \<Rightarrow> u64 \<Rightarrow> anchored_root_witness" where
  "witness_of E key batch timestamp =
     \<lparr>aw_batch_id = mb_batch_id batch, aw_namespace = mb_namespace batch,
      aw_merkle_root_hex = x_hex_encode E (mb_markle_root batch),
      aw_parent_batch_root_hex = x_hex_encode E (mb_parent_batch_root batch),
      aw_leaf_count = length (mb_leaves batch), aw_timestamp = timestamp,
      aw_master_signature_hex =
        x_hex_encode E (x_ed_sign E key (as_bytes (unsign_payload E batch timestamp)))\<rparr>"

text \<open>
  \<open>anchor_batch\<close>: opening an immutable file for writing fails; the \<open>chattr\<close> call and the upload
  are best effort (\<open>chattr_ok\<close> says whether the former took effect).
\<close>

definition anchor_batch ::
  "ext \<Rightarrow> worm_engine \<Rightarrow> u64 \<Rightarrow> bool \<Rightarrow> markle_batch \<Rightarrow> op_log list
   \<Rightarrow> worm_engine \<times> anchored_root_witness res" where
  "anchor_batch E eng timestamp chattr_ok batch raw_logs =
     (let witness = witness_of E (we_key eng) batch timestamp;
          bundle_bytes = x_bundle_to E \<lparr>cb_witness = witness, cb_raw_logs = raw_logs\<rparr>;
          name = batch_file (mb_batch_id batch)
      in if name \<in> set (we_immutable eng) then (eng, Inl (Err ''Operation not permitted''))
         else
           (let eng1 = eng\<lparr>we_files := AList.update name bundle_bytes (we_files eng)\<rparr>;
                eng2 = (if chattr_ok then eng1\<lparr>we_immutable := name # we_immutable eng1\<rparr> else eng1);
                eng3 = (case we_bucket eng2 of
                          None \<Rightarrow> eng2
                        | Some url \<Rightarrow> eng2\<lparr>we_uploads := we_uploads eng2 @ [(url @ ''/'' @ name, bundle_bytes)]\<rparr>)
            in (eng3, Inr witness)))"

text \<open>
  \<open>fetch_bundle_from_witness\<close>. The HTTP client gives a transport error, a response with a
  failure status, or a successful response with a body.
\<close>

datatype http_reply = Transport_Error string | Failure_Status nat | Success_Body bytes

definition fetch_bundle_from_witness ::
  "ext \<Rightarrow> (string \<Rightarrow> http_reply) \<Rightarrow> worm_engine \<Rightarrow> u64 \<Rightarrow> certified_bundle_block res" where
  "fetch_bundle_from_witness E http eng batch_id =
     (case map_of (we_files eng) (bundle_file batch_id) of
        Some content \<Rightarrow>
          (case x_bundle_from E content of
             None \<Rightarrow> Inl (Err ''invalid bundle JSON'')
           | Some bundle \<Rightarrow> Inr bundle)
      | None \<Rightarrow>
          (let missing = Inl (Err (''Disaster Recovery Error: Block bundle #'' @ fmt_nat (unat batch_id)
                              @ '' not found in any worm target.''))
           in case we_bucket eng of
                None \<Rightarrow> missing
              | Some bucket_url \<Rightarrow>
                  (case http (bucket_url @ ''/'' @ bundle_file batch_id) of
                     Transport_Error e \<Rightarrow> Inl (Err e)
                   | Failure_Status _ \<Rightarrow> missing
                   | Success_Body body \<Rightarrow>
                       (case x_bundle_from E body of
                          None \<Rightarrow> Inl (Err ''error decoding response body'')
                        | Some bundle \<Rightarrow> Inr bundle))))"

text \<open>
  \<open>Path::extension\<close>: what follows the last dot of the file name, unless there is no dot or the
  only dot is at the beginning.
\<close>

definition path_extension :: "string \<Rightarrow> string option" where
  "path_extension name =
     (let after = takeWhile (\<lambda>c. c \<noteq> CHR ''.'') (rev name);
          before = dropWhile (\<lambda>c. c \<noteq> CHR ''.'') (rev name)
      in if before = [] \<or> tl before = [] then None else Some (rev after))"

definition load_local_witness :: "ext \<Rightarrow> worm_engine \<Rightarrow> anchored_root_witness list" where
  "load_local_witness E eng =
     sort_key aw_batch_id
       (map cb_witness
         (List.map_filter (\<lambda>(name, content).
            if path_extension name = Some ''.json'' then x_bundle_from E content else None)
          (we_files eng)))"

section \<open>The forensic boot audit\<close>

definition bundle_leaves :: "certified_bundle_block \<Rightarrow> bytes list" where
  "bundle_leaves b = map ol_current_hash (cb_raw_logs b)"

fun remap_logs :: "u64 \<Rightarrow> nat \<Rightarrow> op_log list \<Rightarrow> axon \<Rightarrow> axon" where
  "remap_logs bid idx [] ax = ax"
| "remap_logs bid idx (l # ls) ax =
     remap_logs bid (Suc idx) ls (ax\<lparr>ax_location := (ax_location ax)(ol_txid l \<mapsto> (bid, idx))\<rparr>)"

text \<open>
  The repair of one witness. \<open>hex::decode(..)?\<close> aborts the audit with an error on text that is
  not hexadecimal; a decoded parent root of another length becomes the zero root.
\<close>

definition audit_repair ::
  "ext \<Rightarrow> axon \<Rightarrow> anchored_root_witness \<Rightarrow> certified_bundle_block \<Rightarrow> axon res" where
  "audit_repair E ax w bundle =
     (let computed_root = compute_markle_root E (bundle_leaves bundle) in
      if x_hex_encode E computed_root \<noteq> aw_merkle_root_hex w then
        Inl (Err ''FATAL: WORM witness vault payload failed self-authentication. Perimeter compromised. Terminating.'')
      else
        (case x_hex_decode E (aw_parent_batch_root_hex (cb_witness bundle)) of
           None \<Rightarrow> Inl (Err ''invalid hexadecimal text'')
         | Some parent \<Rightarrow>
             (let batch = \<lparr>mb_batch_id = aw_batch_id (cb_witness bundle),
                    mb_namespace = aw_namespace (cb_witness bundle),
                    mb_markle_root = computed_root,
                    mb_parent_batch_root = (if length parent = 32 then parent else zeros 32),
                    mb_leaves = bundle_leaves bundle\<rparr>
              in Inr (remap_logs (aw_batch_id w) 0 (cb_raw_logs bundle)
                   (ax\<lparr>ax_archive := (ax_archive ax)(mb_batch_id batch \<mapsto> batch)\<rparr>)))))"

definition local_valid :: "ext \<Rightarrow> axon \<Rightarrow> anchored_root_witness \<Rightarrow> bool" where
  "local_valid E ax w =
     (case ax_archive ax (aw_batch_id w) of
        None \<Rightarrow> False
      | Some b \<Rightarrow> x_hex_encode E (mb_markle_root b) = aw_merkle_root_hex w)"

text \<open>An error returns at once; what earlier witnesses repaired stays.\<close>

fun execute_forensic_boot_audit ::
  "ext \<Rightarrow> (u64 \<Rightarrow> certified_bundle_block res) \<Rightarrow> axon \<Rightarrow> anchored_root_witness list \<Rightarrow> axon \<times> unit res" where
  "execute_forensic_boot_audit E fetch ax [] = (ax, Inr ())"
| "execute_forensic_boot_audit E fetch ax (w # ws) =
     (if local_valid E ax w then execute_forensic_boot_audit E fetch ax ws
      else case fetch (aw_batch_id w) of
             Inl e \<Rightarrow> (ax, Inl e)
           | Inr bundle \<Rightarrow>
               (case audit_repair E ax w bundle of
                  Inl e \<Rightarrow> (ax, Inl e)
                | Inr ax' \<Rightarrow> execute_forensic_boot_audit E fetch ax' ws))"

text \<open>The audit as the boot sequence runs it, on the engine's own vault.\<close>

definition boot_audit ::
  "ext \<Rightarrow> (string \<Rightarrow> http_reply) \<Rightarrow> worm_engine \<Rightarrow> axon \<Rightarrow> axon \<times> unit res" where
  "boot_audit E http eng ax =
     execute_forensic_boot_audit E (fetch_bundle_from_witness E http eng) ax (load_local_witness E eng)"

section \<open>What a successful audit guarantees\<close>

lemma remap_logs_archive [simp]: "ax_archive (remap_logs bid i ls ax) = ax_archive ax"
  by (induction bid i ls ax rule: remap_logs.induct) simp_all

text \<open>The vault returns the bundle of the batch it is asked for.\<close>

definition faithful_vault :: "(u64 \<Rightarrow> certified_bundle_block res) \<Rightarrow> bool" where
  "faithful_vault fetch \<longleftrightarrow> (\<forall>i b. fetch i = Inr b \<longrightarrow> aw_batch_id (cb_witness b) = i)"

lemma audit_repair_valid:
  assumes "audit_repair E ax w bundle = Inr ax'" and "aw_batch_id (cb_witness bundle) = aw_batch_id w"
  shows "local_valid E ax' w"
    and "aw_batch_id v \<noteq> aw_batch_id w \<Longrightarrow> local_valid E ax' v = local_valid E ax v"
  using assms by (auto simp: audit_repair_def local_valid_def Let_def split: if_splits option.splits)

lemma audit_keeps_other:
  assumes "faithful_vault fetch" and "aw_batch_id v \<notin> aw_batch_id ` set ws"
  shows "local_valid E (fst (execute_forensic_boot_audit E fetch ax ws)) v = local_valid E ax v"
  using assms(2)
proof (induction ws arbitrary: ax)
  case (Cons w ws)
  show ?case
  proof (cases "local_valid E ax w")
    case False
    show ?thesis
    proof (cases "fetch (aw_batch_id w)")
      case (Inr blk)
      then have f: "aw_batch_id (cb_witness blk) = aw_batch_id w"
        using assms(1) by (simp add: faithful_vault_def)
      show ?thesis
      proof (cases "audit_repair E ax w blk")
        case (Inr ax')
        with audit_repair_valid(2) [OF this f, of v] Cons False \<open>fetch (aw_batch_id w) = Inr blk\<close>
        show ?thesis by auto
      qed (use False Inr in simp)
    qed (use False in simp)
  qed (use Cons in simp)
qed simp


definition demo_witness :: "u64 \<Rightarrow> anchored_root_witness" where
  "demo_witness bid = \<lparr>aw_batch_id = bid, aw_namespace = ''a'',
     aw_merkle_root_hex = x_hex_encode demo (compute_markle_root demo [zeros 32]),
     aw_parent_batch_root_hex = [], aw_leaf_count = 1, aw_timestamp = 0, aw_master_signature_hex = []\<rparr>"


text \<open>
  A restored bundle whose logs do not have the anchored root is refused, and the ledger is
  left as it was.
\<close>

theorem audit_refuses_tampered_bundle:
  assumes "\<not> local_valid E ax w" and "fetch (aw_batch_id w) = Inr blk"
    and "x_hex_encode E (compute_markle_root E (bundle_leaves blk)) \<noteq> aw_merkle_root_hex w"
  shows "execute_forensic_boot_audit E fetch ax (w # ws) = (ax, Inl (Err
    ''FATAL: WORM witness vault payload failed self-authentication. Perimeter compromised. Terminating.''))"
  using assms by (simp add: audit_repair_def)

lemma audit_refuses_tampered_bundle_witness:
  "execute_forensic_boot_audit demo
     (\<lambda>i. Inr \<lparr>cb_witness = demo_witness i, cb_raw_logs = []\<rparr>) axon_new
     [(demo_witness 5)\<lparr>aw_merkle_root_hex := ''00''\<rparr>] = (axon_new, Inl (Err
    ''FATAL: WORM witness vault payload failed self-authentication. Perimeter compromised. Terminating.''))"
proof -
  have "length (x_hex_encode demo (compute_markle_root demo [])) = 64"
    by (simp add: demo_hex_ok compute_markle_root_def)
  then have "x_hex_encode demo (compute_markle_root demo []) \<noteq> ''00''" by force
  then show ?thesis
    by (intro audit_refuses_tampered_bundle
        [where blk = "\<lparr>cb_witness = demo_witness 5, cb_raw_logs = []\<rparr>"])
      (simp_all add: local_valid_def axon_new_def bundle_leaves_def demo_witness_def)
qed

section \<open>The names the engine uses\<close>

lemma path_extension_no_dot: "path_extension name = Some e \<Longrightarrow> CHR ''.'' \<notin> set e"
  by (auto simp: path_extension_def Let_def dest: set_takeWhileD split: if_splits)

text \<open>
  The boot audit examines nothing: \<open>load_local_witness\<close> compares the extension with
  \<open>".json"\<close>, but an extension never contains a dot, so it returns no witness for any content of
  the vault and the audit succeeds with the ledger unchanged.
\<close>

theorem boot_audit_examines_nothing:
  "load_local_witness E eng = [] \<and> boot_audit E http eng ax = (ax, Inr ())"
proof -
  have "path_extension name \<noteq> Some ''.json''" for name
    using path_extension_no_dot [of name "''.json''"] by auto
  then have "List.map_filter (\<lambda>(name, content).
      if path_extension name = Some ''.json'' then x_bundle_from E content else None) files = []" for files
    by (induction files) (auto simp: List.map_filter_def)
  then show ?thesis by (simp add: boot_audit_def load_local_witness_def)
qed

lemma bundle_file_not_batch: "bundle_file i \<noteq> batch_file j"
  by (simp add: bundle_file_def batch_file_def)

lemma anchored_files:
  "map_of (we_files (fst (anchor_batch E eng ts c batch logs))) (bundle_file i) = map_of (we_files eng) (bundle_file i)"
  "we_bucket (fst (anchor_batch E eng ts c batch logs)) = we_bucket eng"
  using bundle_file_not_batch [of i "mb_batch_id batch"]
  by (auto simp: anchor_batch_def Let_def split: option.splits)

text \<open>
  Anchoring writes \<open>batch_N.json\<close> and recovery reads \<open>bundle_N.json\<close>: with no bucket, a
  batch anchored by the engine can never be fetched back, unless some other program put a
  bundle file there.
\<close>

theorem anchored_batch_cannot_be_fetched:
  assumes "we_bucket eng = None" and "map_of (we_files eng) (bundle_file (mb_batch_id batch)) = None"
  shows "\<exists>e. fetch_bundle_from_witness E http (fst (anchor_batch E eng ts c batch logs)) (mb_batch_id batch) = Inl (Err e)"
  using assms anchored_files [of E eng ts c batch logs] by (simp add: fetch_bundle_from_witness_def)

definition demo_engine :: worm_engine where
  "demo_engine = \<lparr>we_key = zeros 32, we_bucket = None, we_files = [], we_immutable = [], we_uploads = []\<rparr>"

definition demo_batch :: "u64 \<Rightarrow> markle_batch" where
  "demo_batch i = \<lparr>mb_batch_id = i, mb_namespace = ''a'', mb_markle_root = zeros 32,
     mb_parent_batch_root = zeros 32, mb_leaves = [zeros 32]\<rparr>"

lemma anchored_batch_cannot_be_fetched_witness:
  "\<exists>e. fetch_bundle_from_witness demo (\<lambda>_. Failure_Status 404)
     (fst (anchor_batch demo demo_engine 0 True (demo_batch 3) [])) (mb_batch_id (demo_batch 3)) = Inl (Err e)"
  by (rule anchored_batch_cannot_be_fetched) (simp_all add: demo_engine_def)

text \<open>
  What anchoring does provide: the returned witness carries a signature of the master key
  over the batch id, the namespace, both roots and the time, the file holds a bundle from which
  that witness and the logs can be read back, and a file made immutable is never rewritten.
\<close>

theorem anchored_witness_is_signed_and_stored:
  assumes "ed_ok E" and "hex_ok E" and "serde_ok E"
    and "batch_file (mb_batch_id batch) \<notin> set (we_immutable eng)"
  shows "\<exists>w content sig. snd (anchor_batch E eng ts c batch logs) = Inr w
     \<and> map_of (we_files (fst (anchor_batch E eng ts c batch logs))) (batch_file (mb_batch_id batch)) = Some content
     \<and> x_bundle_from E content = Some \<lparr>cb_witness = w, cb_raw_logs = logs\<rparr>
     \<and> x_hex_decode E (aw_master_signature_hex w) = Some sig
     \<and> x_ed_verify E (x_ed_public E (we_key eng)) (as_bytes (unsign_payload E batch ts)) sig
     \<and> (c \<longrightarrow> anchor_batch E (fst (anchor_batch E eng ts c batch logs)) ts' c' batch logs' =
          (fst (anchor_batch E eng ts c batch logs), Inl (Err ''Operation not permitted'')))"
  using assms(4) ed_ok_simps(2) [OF assms(1)] assms(2,3)
  by (auto simp: anchor_batch_def witness_of_def Let_def split: option.splits)

lemma anchored_witness_is_signed_and_stored_witness:
  "\<exists>w. snd (anchor_batch demo demo_engine 0 True (demo_batch 3) []) = Inr w"
  using anchored_witness_is_signed_and_stored [OF demo_ed_ok demo_hex_ok demo_serde_ok,
      of "demo_batch 3" demo_engine 0 True "[]"] unfolding demo_engine_def
  by (simp only: worm_engine.simps list.set empty_iff not_False_eq_True simp_thms) blast

end
