(* ===== verification/Token_Bucket.thy ===== *)
theory Token_Bucket
  imports Prelude
begin

text \<open>
  The atomic token bucket of src/raqim-core/src/aegis.rs. A call of \<open>check_and_consume\<close> that
  runs alone is a function of the bucket and the clock; its relaxed atomic operations interleave
  with those of other callers, which the step relation at the end models. The lemmas give the
  admission bound of a sequence of calls, the refill after an idle second, and the underflow
  that the interleaving of the final load and subtraction permits.
\<close>

section \<open>The bucket\<close>

record token_bucket =
  tb_max_tps :: u64
  tb_burst :: u64
  tb_tokens :: u64
  tb_last :: u64

definition token_bucket_new :: "u64 \<Rightarrow> u64 \<Rightarrow> u64 \<Rightarrow> token_bucket" where
  "token_bucket_new now_nanos max_tps burst =
     \<lparr>tb_max_tps = max_tps, tb_burst = burst, tb_tokens = burst, tb_last = now_nanos\<rparr>"

definition saturating_sub :: "u64 \<Rightarrow> u64 \<Rightarrow> u64" where
  "saturating_sub a b = (if b \<le> a then a - b else 0)"

text \<open>The product is computed in 128 bits; the quotient is cut to 64 bits.\<close>

definition new_tokens :: "u64 \<Rightarrow> u64 \<Rightarrow> u64" where
  "new_tokens elapsed max_tps = ucast ((ucast elapsed * ucast max_tps :: u128) div 1000000000)"

definition refill :: "u64 \<Rightarrow> token_bucket \<Rightarrow> token_bucket" where
  "refill now_nanos b =
     (let new = new_tokens (saturating_sub now_nanos (tb_last b)) (tb_max_tps b) in
      if 0 < new then b\<lparr>tb_last := now_nanos, tb_tokens := min (tb_tokens b + new) (tb_burst b)\<rparr>
      else b)"

definition take_token :: "token_bucket \<Rightarrow> token_bucket \<times> bool" where
  "take_token b = (if 0 < tb_tokens b then (b\<lparr>tb_tokens := tb_tokens b - 1\<rparr>, True) else (b, False))"

definition check_and_consume :: "u64 \<Rightarrow> token_bucket \<Rightarrow> token_bucket \<times> bool" where
  "check_and_consume now_nanos b = take_token (refill now_nanos b)"

text \<open>Calls one after the other, at the given clock readings.\<close>

fun bucket_run :: "token_bucket \<Rightarrow> u64 list \<Rightarrow> token_bucket \<times> bool list" where
  "bucket_run b [] = (b, [])"
| "bucket_run b (t # ts) =
     (let (b1, ok) = check_and_consume t b; (b2, oks) = bucket_run b1 ts in (b2, ok # oks))"

definition admitted :: "bool list \<Rightarrow> nat" where
  "admitted oks = length (filter (\<lambda>x. x) oks)"

section \<open>The admission bound\<close>

lemma unat_saturating_sub: "unat (saturating_sub a b) = unat a - unat b"
  by (auto simp: saturating_sub_def unat_sub word_le_nat_alt)

lemma unat_u128_product: "unat (ucast (e :: u64) * ucast (r :: u64) :: u128) = unat e * unat r"
proof -
  have "unat e * unat r < 2 ^ 64 * 2 ^ 64"
    using unat_lt [of e] unat_lt [of r] by (intro mult_strict_mono) simp_all
  moreover have "unat (ucast w :: u128) = unat w" for w :: u64
    using unat_lt [of w] by (simp add: unsigned_ucast_eq take_bit_eq_mod)
  ultimately show ?thesis by (simp add: unat_word_ariths)
qed

lemma unat_pos: "0 < (w :: u64) \<longleftrightarrow> 0 < unat w"
  by (simp add: word_less_nat_alt)

lemma unat_new_tokens_le: "unat (new_tokens e r) * 1000000000 \<le> unat e * unat r"
proof -
  have "unat (new_tokens e r) \<le> unat ((ucast e * ucast r :: u128) div 1000000000)"
    unfolding new_tokens_def by (simp add: unsigned_ucast_eq take_bit_eq_mod)
  also have "\<dots> = unat e * unat r div 1000000000" by (simp add: unat_div unat_u128_product)
  finally have "unat (new_tokens e r) * 1000000000 \<le> unat e * unat r div 1000000000 * 1000000000"
    by (rule mult_le_mono1)
  also have "\<dots> \<le> unat e * unat r" by (rule div_times_less_eq_dividend)
  finally show ?thesis .
qed

lemma refill_bound:
  assumes "refill t b = b'"
  shows "unat (tb_tokens b') * 1000000000 + unat (tb_last b) * unat (tb_max_tps b)
      \<le> unat (tb_tokens b) * 1000000000 + unat (tb_last b') * unat (tb_max_tps b)"
    and "tb_last b \<le> tb_last b'" and "tb_max_tps b' = tb_max_tps b" and "tb_burst b' = tb_burst b"
    and "tb_last b' \<le> max t (tb_last b)"
proof -
  let ?e = "saturating_sub t (tb_last b)"
  let ?n = "new_tokens ?e (tb_max_tps b)"
  have main: "unat (tb_tokens b') * 1000000000 + unat (tb_last b) * unat (tb_max_tps b)
      \<le> unat (tb_tokens b) * 1000000000 + unat (tb_last b') * unat (tb_max_tps b)
    \<and> tb_last b \<le> tb_last b' \<and> tb_last b' \<le> max t (tb_last b)"
  proof (cases "0 < ?n")
    case False
    with assms show ?thesis by (auto simp: refill_def Let_def)
  next
    case True
    then have b': "b' = b\<lparr>tb_last := t, tb_tokens := min (tb_tokens b + ?n) (tb_burst b)\<rparr>"
      using assms by (simp add: refill_def Let_def)
    have pos: "0 < unat ?e"
    proof (rule ccontr)
      assume "\<not> 0 < unat ?e"
      then have "unat ?n * 1000000000 \<le> 0" using unat_new_tokens_le [of ?e "tb_max_tps b"] by simp
      with True show False unfolding unat_pos by simp
    qed
    then have lt: "unat (tb_last b) < unat t" by (simp add: unat_saturating_sub)
    have "unat (min (tb_tokens b + ?n) (tb_burst b)) \<le> unat (tb_tokens b + ?n)"
      by (simp add: min_def word_le_nat_alt)
    also have "\<dots> \<le> unat (tb_tokens b) + unat ?n" by (rule unat_le_plus)
    finally have "unat (tb_tokens b') \<le> unat (tb_tokens b) + unat ?n" by (simp add: b')
    then have "unat (tb_tokens b') * 1000000000 \<le> unat (tb_tokens b) * 1000000000 + unat ?n * 1000000000"
      by linarith
    also have "\<dots> \<le> unat (tb_tokens b) * 1000000000 + (unat t - unat (tb_last b)) * unat (tb_max_tps b)"
      using unat_new_tokens_le [of ?e "tb_max_tps b"] by (simp add: unat_saturating_sub)
    finally have "unat (tb_tokens b') * 1000000000 + unat (tb_last b) * unat (tb_max_tps b)
      \<le> unat (tb_tokens b) * 1000000000 + ((unat t - unat (tb_last b)) + unat (tb_last b)) * unat (tb_max_tps b)"
      by (simp add: add_mult_distrib)
    then have "unat (tb_tokens b') * 1000000000 + unat (tb_last b) * unat (tb_max_tps b)
      \<le> unat (tb_tokens b) * 1000000000 + unat t * unat (tb_max_tps b)" using lt by simp
    then show ?thesis using lt by (simp add: b' word_le_nat_alt)
  qed
  show "unat (tb_tokens b') * 1000000000 + unat (tb_last b) * unat (tb_max_tps b)
      \<le> unat (tb_tokens b) * 1000000000 + unat (tb_last b') * unat (tb_max_tps b)"
    and "tb_last b \<le> tb_last b'" and "tb_last b' \<le> max t (tb_last b)" using main by blast+
  show "tb_max_tps b' = tb_max_tps b" "tb_burst b' = tb_burst b"
    using assms by (auto simp: refill_def Let_def)
qed

lemma unat_minus_1: "0 < (x :: u64) \<Longrightarrow> unat (x - 1) + 1 = unat x"
  by (simp add: unat_minus_one word_gt_0 unat_gt_0 Suc_le_eq)

lemma check_bound:
  assumes "check_and_consume t b = (b', ok)"
  shows "(unat (tb_tokens b') + (if ok then 1 else 0)) * 1000000000 + unat (tb_last b) * unat (tb_max_tps b)
      \<le> unat (tb_tokens b) * 1000000000 + unat (tb_last b') * unat (tb_max_tps b)"
    and "tb_last b \<le> tb_last b'" and "tb_max_tps b' = tb_max_tps b" and "tb_last b' \<le> max t (tb_last b)"
proof -
  obtain c where c: "refill t b = c" by simp
  have b': "tb_last b' = tb_last c" "tb_max_tps b' = tb_max_tps c"
    "unat (tb_tokens b') + (if ok then 1 else 0) = unat (tb_tokens c)"
    using assms unat_minus_1 [of "tb_tokens c"]
    by (auto simp: check_and_consume_def take_token_def c split: if_splits)
  show "(unat (tb_tokens b') + (if ok then 1 else 0)) * 1000000000 + unat (tb_last b) * unat (tb_max_tps b)
      \<le> unat (tb_tokens b) * 1000000000 + unat (tb_last b') * unat (tb_max_tps b)"
    using refill_bound(1) [OF c] by (simp only: b')
  show "tb_last b \<le> tb_last b'" "tb_max_tps b' = tb_max_tps b" "tb_last b' \<le> max t (tb_last b)"
    using refill_bound(2,3,5) [OF c] by (simp_all only: b')
qed

lemma bucket_run_bound:
  assumes "bucket_run b ts = (b', oks)"
  shows "(unat (tb_tokens b') + admitted oks) * 1000000000 + unat (tb_last b) * unat (tb_max_tps b)
      \<le> unat (tb_tokens b) * 1000000000 + unat (tb_last b') * unat (tb_max_tps b)
    \<and> tb_max_tps b' = tb_max_tps b \<and> tb_last b \<le> tb_last b'
    \<and> (\<forall>T. (\<forall>t \<in> set ts. t \<le> T) \<longrightarrow> tb_last b \<le> T \<longrightarrow> tb_last b' \<le> T)"
  using assms
proof (induction ts arbitrary: b oks)
  case (Cons t ts)
  obtain c ok where c: "check_and_consume t b = (c, ok)" by fastforce
  obtain oks' where r: "bucket_run c ts = (b', oks')" and oks: "oks = ok # oks'"
    using Cons.prems c by (auto split: prod.splits)
  note s = check_bound [OF c] and ih = Cons.IH [OF r]
  have "admitted oks = (if ok then 1 else 0) + admitted oks'" by (simp add: oks admitted_def)
  then have "(unat (tb_tokens b') + admitted oks) * 1000000000 + unat (tb_last b) * unat (tb_max_tps b)
      \<le> unat (tb_tokens b) * 1000000000 + unat (tb_last b') * unat (tb_max_tps b)"
    using s(1) ih by (simp only: s(3)) (simp add: algebra_simps)
  moreover have "tb_last b' \<le> T" if "\<forall>x \<in> set (t # ts). x \<le> T" "tb_last b \<le> T" for T
    using ih s(4) that by (auto simp: max_def split: if_splits)
  ultimately show ?case using ih s(2,3) by auto
qed (simp add: admitted_def)

text \<open>
  C18. The rate limit: over any sequence of calls at clock readings up to \<open>T\<close>, in any order, a
  bucket whose tokens are within its burst capacity admits at most the burst plus the tokens
  that \<open>max_tps\<close> allows for the time from its last refill to \<open>T\<close> (no overflow of the counter
  breaks this bound).
\<close>

theorem admissions_are_bounded:
  assumes "bucket_run b ts = (b', oks)" and "tb_tokens b \<le> tb_burst b"
    and "\<forall>t \<in> set ts. t \<le> T" and "tb_last b \<le> T"
  shows "admitted oks \<le> unat (tb_burst b) + (unat T - unat (tb_last b)) * unat (tb_max_tps b) div 1000000000"
proof -
  let ?r = "unat (tb_max_tps b)"
  have r: "(unat (tb_tokens b') + admitted oks) * 1000000000 + unat (tb_last b) * ?r
      \<le> unat (tb_tokens b) * 1000000000 + unat (tb_last b') * ?r" and T: "tb_last b' \<le> T"
    using bucket_run_bound [OF assms(1)] assms(3,4) by blast+
  have "unat (tb_last b') * ?r \<le> unat T * ?r" using T by (simp add: word_le_nat_alt)
  moreover have "unat (tb_tokens b) \<le> unat (tb_burst b)" using assms(2) by (simp add: word_le_nat_alt)
  ultimately have "admitted oks * 1000000000 + unat (tb_last b) * ?r \<le> unat (tb_burst b) * 1000000000 + unat T * ?r"
    using r unfolding add_mult_distrib by linarith
  then have "admitted oks * 1000000000 \<le> unat (tb_burst b) * 1000000000 + (unat T - unat (tb_last b)) * ?r"
    by (simp add: diff_mult_distrib)
  then have "admitted oks * 1000000000 div 1000000000
      \<le> (unat (tb_burst b) * 1000000000 + (unat T - unat (tb_last b)) * ?r) div 1000000000"
    by (rule div_le_mono)
  then show ?thesis by simp
qed

lemma admissions_are_bounded_witness:
  "admitted (snd (bucket_run (token_bucket_new 0 10 3) [1, 2, 3, 4])) \<le> 3"
proof -
  obtain b' oks where r: "bucket_run (token_bucket_new 0 10 3) [1, 2, 3, 4] = (b', oks)" by fastforce
  from admissions_are_bounded [OF r, of 4] have "admitted oks \<le> 3"
    by (simp add: token_bucket_new_def)
  then show ?thesis unfolding r by simp
qed

text \<open>
  Refill: a call at least one second after the last refill is admitted, whatever the bucket
  held, provided the group has a rate and a burst and the refilled count fits 64 bits.
\<close>

theorem idle_second_admits:
  assumes "0 < tb_max_tps b" and "0 < tb_burst b"
    and "unat (tb_last b) + 1000000000 \<le> unat t"
    and "unat (tb_tokens b) + (unat t - unat (tb_last b)) * unat (tb_max_tps b) div 1000000000 < 2 ^ 64"
  shows "snd (check_and_consume t b)"
proof -
  let ?e = "saturating_sub t (tb_last b)"
  let ?q = "unat ?e * unat (tb_max_tps b) div 1000000000"
  have e: "unat ?e = unat t - unat (tb_last b)" by (rule unat_saturating_sub)
  have "?q < 2 ^ 64" using assms(4) e by simp
  then have n: "unat (new_tokens ?e (tb_max_tps b)) = ?q"
    by (simp add: new_tokens_def unsigned_ucast_eq take_bit_eq_mod unat_div unat_u128_product)
  have "1000000000 \<le> unat ?e * unat (tb_max_tps b)"
    using assms(1,3) e mult_le_mono [of 1000000000 "unat ?e" 1 "unat (tb_max_tps b)"]
    unfolding unat_pos by simp
  then have "1 \<le> ?q" by (simp add: div_greater_zero_iff Suc_le_eq)
  then have pos: "0 < new_tokens ?e (tb_max_tps b)" using n unfolding unat_pos by linarith
  have "unat (tb_tokens b + new_tokens ?e (tb_max_tps b)) = unat (tb_tokens b) + ?q"
    using n assms(4) e by (subst unat_plus_bounded) simp_all
  then have "0 < unat (tb_tokens b + new_tokens ?e (tb_max_tps b))" using \<open>1 \<le> ?q\<close> by linarith
  then have "0 < tb_tokens b + new_tokens ?e (tb_max_tps b)" unfolding unat_pos .
  then have "0 < tb_tokens (refill t b)" using pos assms(2) by (simp add: refill_def Let_def min_def)
  then show ?thesis by (simp add: check_and_consume_def take_token_def)
qed

lemma idle_second_admits_witness:
  "snd (check_and_consume 1000000000 \<lparr>tb_max_tps = 5, tb_burst = 10, tb_tokens = 0, tb_last = 0\<rparr>)"
  by (rule idle_second_admits) simp_all

section \<open>Concurrent callers\<close>

text \<open>
  The last two atomic operations of \<open>check_and_consume\<close> as separate steps of each caller: the
  load of the counter and, if it was positive, the subtraction. The state is the counter and
  the program points of the callers.
\<close>

datatype caller = Loading | Subtracting | Returned bool

inductive race_step :: "u64 \<times> caller list \<Rightarrow> u64 \<times> caller list \<Rightarrow> bool" where
  Load: "i < length cs \<Longrightarrow> cs ! i = Loading \<Longrightarrow>
    race_step (n, cs) (n, cs[i := if 0 < n then Subtracting else Returned False])"
| Sub: "i < length cs \<Longrightarrow> cs ! i = Subtracting \<Longrightarrow> race_step (n, cs) (n - 1, cs[i := Returned True])"

inductive_cases race_stepE: "race_step s t"

definition race_admitted :: "caller list \<Rightarrow> nat" where
  "race_admitted cs = length (filter (\<lambda>c. c = Returned True) cs)"

text \<open>
  Two callers that race for the last token are both admitted, and the counter wraps around
  to its largest value, so the limiter admits every call from then on.
\<close>

theorem racing_callers_underflow_the_bucket:
  "race_step\<^sup>*\<^sup>* (1, [Loading, Loading]) (- 1, [Returned True, Returned True]) \<and> unat (- 1 :: u64) = 2 ^ 64 - 1"
proof -
  have 1: "race_step (1, [Loading, Loading]) (1, [Subtracting, Loading])"
    using Load [of 0 "[Loading, Loading]" 1] by simp
  have 2: "race_step (1, [Subtracting, Loading]) (1, [Subtracting, Subtracting])"
    using Load [of 1 "[Subtracting, Loading]" 1] by simp
  have 3: "race_step (1, [Subtracting, Subtracting]) (0, [Returned True, Subtracting])"
    using Sub [of 0 "[Subtracting, Subtracting]" 1] by simp
  have 4: "race_step (0, [Returned True, Subtracting]) (- 1, [Returned True, Returned True])"
    using Sub [of 1 "[Returned True, Subtracting]" 0] by simp
  from 1 2 3 4 show ?thesis by (simp add: converse_rtranclp_into_rtranclp unsigned_minus_1_eq_mask mask_eq_exp_minus_1)
qed

end
