(* ===== verification/Interfaces.thy ===== *)
theory Interfaces
  imports Prelude
begin

text \<open>
  The interfaces through which components rely on each other, as locales with the laws the
  provider promises: a state kept well-formed by every operation, a mark that no operation
  removes, and a store addressed by keys. The component theories interpret them on the model's
  own operations.
\<close>

section \<open>Operations that keep an invariant\<close>

locale preserved =
  fixes step :: "'s \<Rightarrow> 'op \<Rightarrow> 's" and inv :: "'s \<Rightarrow> bool"
  assumes step_inv: "inv s \<Longrightarrow> inv (step s op)"
begin

lemma run_inv: "inv s \<Longrightarrow> inv (foldl step s ops)"
  by (induction ops arbitrary: s) (simp_all add: step_inv)

end

section \<open>Marks that no operation removes\<close>

locale marking =
  fixes step :: "'s \<Rightarrow> 'op \<Rightarrow> 's" and marked :: "'s \<Rightarrow> 'k \<Rightarrow> bool"
  assumes step_marked: "marked s k \<Longrightarrow> marked (step s op) k"
begin

lemma run_marked: "marked s k \<Longrightarrow> marked (foldl step s ops) k"
  by (induction ops arbitrary: s) (simp_all add: step_marked)

lemma marked_after: "marked (step s op) k \<Longrightarrow> marked (foldl step s (op # ops)) k"
  by (simp add: run_marked)

end

section \<open>Stores addressed by keys\<close>

locale keyed_store =
  fixes look :: "'s \<Rightarrow> 'k \<Rightarrow> 'v option" and put :: "'s \<Rightarrow> 'k \<Rightarrow> 'v \<Rightarrow> 's"
  assumes look_put: "look (put s k v) k' = (if k' = k then Some v else look s k')"
begin

lemma look_put_run:
  "look (foldl (\<lambda>s kv. put s (fst kv) (snd kv)) s kvs) k =
     (case map_of (rev kvs) k of None \<Rightarrow> look s k | Some v \<Rightarrow> Some v)"
  by (induction kvs arbitrary: s) (auto simp: look_put map_add_def split: option.splits)

lemma look_last_put: "k \<notin> fst ` set kvs \<Longrightarrow>
    look (foldl (\<lambda>s kv. put s (fst kv) (snd kv)) (put s k v) kvs) k = Some v"
  by (simp add: look_put_run look_put map_of_eq_None_iff [THEN iffD2] split: option.splits)

end

end
