(* ===== verification/Aegis.thy ===== *)
theory Aegis
  imports Demo_Externs Token_Bucket Interfaces
begin

text \<open>
  The Aegis firewall of src/raqim-core/src/aegis.rs, with the certificate minting and the
  firewall metrics of src/raqim-core/src/api.rs: group policies, the quarantine blocklist, the
  per-packet check, the session handshake. Operations return the new state, which carries the
  events they broadcast, and their result; the clock readings are arguments. The lemmas
  characterise when a packet or a certificate is accepted, what a refusal leaves behind and what
  the check does not look at.
\<close>

section \<open>State\<close>

record group_policy =
  gp_allowed :: "string list"
  gp_blocked :: "string list"
  gp_bucket :: token_bucket

record group_policy_config =
  gc_allowed :: "string list"
  gc_blocked :: "string list"
  gc_max_tps :: u64
  gc_burst :: u64

record aegis =
  ag_policies :: "(string \<times> group_policy) list"
  ag_quarantine :: "(string \<times> quarantine_record) list"
  ag_master :: bytes
  ag_bus :: "system_event list"
  ag_ui :: "ui_event list"

definition to_group_policies ::
  "u64 \<Rightarrow> (string \<times> group_policy_config) list \<Rightarrow> (string \<times> group_policy) list" where
  "to_group_policies now_nanos groups =
     map (\<lambda>(group_name, cfg).
        (group_name, \<lparr>gp_allowed = gc_allowed cfg, gp_blocked = gc_blocked cfg,
           gp_bucket = token_bucket_new now_nanos (gc_max_tps cfg) (gc_burst cfg)\<rparr>)) groups"

definition aegis_new :: "ext \<Rightarrow> (string \<times> group_policy) list \<Rightarrow> bytes \<Rightarrow> aegis res" where
  "aegis_new E initial_policies master_pub_bytes =
     (if x_ed_key_ok E master_pub_bytes then
        Inr \<lparr>ag_policies = initial_policies, ag_quarantine = [], ag_master = master_pub_bytes,
             ag_bus = [], ag_ui = []\<rparr>
      else Inl (Panic ''FATAL: Failed to parse master public key''))"

definition reload_policies :: "aegis \<Rightarrow> (string \<times> group_policy) list \<Rightarrow> aegis" where
  "reload_policies ag new_policies = ag\<lparr>ag_policies := new_policies\<rparr>"

definition is_quarantined :: "aegis \<Rightarrow> string \<Rightarrow> bool" where
  "is_quarantined ag agent_hex \<longleftrightarrow> map_of (ag_quarantine ag) agent_hex \<noteq> None"

definition trigger_quarantine ::
  "u64 \<Rightarrow> aegis \<Rightarrow> string \<Rightarrow> string \<Rightarrow> string \<Rightarrow> string \<Rightarrow> aegis" where
  "trigger_quarantine now_secs ag agent_hex target v_type reason =
     (let rec = \<lparr>q_agent_hex = agent_hex, q_violation_type = v_type, q_attemped_path = target,
                 q_payload_preview = reason, q_timestamp = now_secs\<rparr>
      in ag\<lparr>ag_quarantine := AList.update agent_hex rec (ag_quarantine ag),
            ag_bus := ag_bus ag @ [GlobalQuarantineSync rec,
                                   AegisInterdiction agent_hex target v_type reason],
            ag_ui := ag_ui ag @ [UiAegisAlert rec]\<rparr>)"

definition assimilate_remote_quarantine :: "aegis \<Rightarrow> quarantine_record \<Rightarrow> aegis" where
  "assimilate_remote_quarantine ag rec =
     (if is_quarantined ag (q_agent_hex rec) then ag
      else ag\<lparr>ag_quarantine := AList.update (q_agent_hex rec) rec (ag_quarantine ag),
              ag_bus := ag_bus ag @ [SecurityBreach (q_agent_hex rec)
                  (''Global Network Quarantine: '' @ q_violation_type rec) (q_payload_preview rec)],
              ag_ui := ag_ui ag @ [UiAegisAlert rec]\<rparr>)"

section \<open>The packet check\<close>

text \<open>
  \<open>(current_ts - packet_timestamp).abs() > 30\<close> on \<open>i64\<close>: the difference wraps, and so does the
  absolute value of the smallest integer, which stays negative.
\<close>

definition stale :: "u64 \<Rightarrow> i64 \<Rightarrow> bool" where
  "stale now_secs packet_ts =
     (let d = now_secs - packet_ts; a = (if d <s 0 then - d else d) in 30 <s a)"

text \<open>The blocked patterns, with the slice \<open>&blocked[..blocked.len() + 1]\<close> of the source.\<close>

fun blocked_match :: "string \<Rightarrow> string list \<Rightarrow> bool res" where
  "blocked_match path [] = Inr False"
| "blocked_match path (blocked # rest) =
     (if ends_with blocked ''*'' then
        (case slice blocked 0 (length blocked + 1) of
           Inl e \<Rightarrow> Inl e
         | Inr p \<Rightarrow> if starts_with path p then Inr True else blocked_match path rest)
      else if path = blocked then Inr True else blocked_match path rest)"

fun allowed_match :: "string \<Rightarrow> string list \<Rightarrow> bool res" where
  "allowed_match path [] = Inr False"
| "allowed_match path (allowed # rest) =
     (if ends_with allowed ''*'' then
        (case slice allowed 0 (length allowed - 1) of
           Inl e \<Rightarrow> Inl e
         | Inr p \<Rightarrow> if starts_with path p then Inr True else allowed_match path rest)
      else if allowed = path then Inr True else allowed_match path rest)"

definition authorize_packet_fast ::
  "ext \<Rightarrow> u64 \<Rightarrow> u64 \<Rightarrow> aegis \<Rightarrow> string \<Rightarrow> string \<Rightarrow> bytes \<Rightarrow> bytes \<Rightarrow> bytes \<Rightarrow> string \<Rightarrow> i64
   \<Rightarrow> aegis \<times> unit res" where
  "authorize_packet_fast E now_secs now_nanos ag agent_hex group_name agent_pub payload packet_sig
     intent_path packet_timestamp =
     (if stale now_secs packet_timestamp then
        (trigger_quarantine now_secs ag agent_hex intent_path ''REPLAY_ATTACK''
           ''Packet timestamp expired (drift > 30s)'',
         Inl (Err ''Security Violation: State packet rejected (Anti-replay)''))
      else if \<not> x_ed_key_ok E agent_pub then (ag, Inl (Err ''signature error''))
      else if \<not> x_ed_verify E agent_pub payload packet_sig then
        (trigger_quarantine now_secs ag agent_hex intent_path ''CRYPTO_SPOOF''
           ''Invalid Agent Frame Signature'',
         Inl (Err ''Integrity Audit Failure: Mismatched Agent Handshake ''))
      else
        (case map_of (ag_policies ag) group_name of
           None \<Rightarrow> (ag, Inl (Err (''Group Policy mapping '' @ [CHR 0x27] @ group_name @ [CHR 0x27]
                       @ '' not defined inside active aegis.toml '')))
         | Some live_policy \<Rightarrow>
             (let (bucket, granted) = check_and_consume now_nanos (gp_bucket live_policy);
                  ag1 = ag\<lparr>ag_policies := AList.update group_name (live_policy\<lparr>gp_bucket := bucket\<rparr>)
                             (ag_policies ag)\<rparr>
              in if \<not> granted then
                   (trigger_quarantine now_secs ag1 agent_hex intent_path ''RATE_LIMIT_EXCEDED''
                      (''Agent exceeded group '' @ [CHR 0x27] @ group_name @ [CHR 0x27] @ '' max TPS quota''),
                    Inl (Err ''Acess Denied: Group Rate Limit Exceeded (DoS Interdiction)''))
                 else
                   (case blocked_match intent_path (gp_blocked live_policy) of
                      Inl e \<Rightarrow> (ag1, Inl e)
                    | Inr True \<Rightarrow>
                        (trigger_quarantine now_secs ag1 agent_hex intent_path ''NAMESPACE_BREACH''
                           ''Atempted interaction inside expicitely blocked domain'',
                         Inl (Err ''Access Denied: Namespace explicitely blocked''))
                    | Inr False \<Rightarrow>
                        (case allowed_match intent_path (gp_allowed live_policy) of
                           Inl e \<Rightarrow> (ag1, Inl e)
                         | Inr True \<Rightarrow> (ag1, Inr ())
                         | Inr False \<Rightarrow>
                             (trigger_quarantine now_secs ag1 agent_hex intent_path ''NAMESPACE_BREACH''
                                ''No explicit allowance match withing token permissions'',
                              Inl (Err ''Access Denied: Default Deny Policy Tripped'')))))))"

section \<open>The session handshake\<close>

definition unsigned_cert :: "capability_certificate \<Rightarrow> capability_certificate" where
  "unsigned_cert cert = cert\<lparr>cc_master_signature := []\<rparr>"

definition verify_session_lineage ::
  "ext \<Rightarrow> u64 \<Rightarrow> aegis \<Rightarrow> bytes \<Rightarrow> bytes \<Rightarrow> aegis \<times> (string \<times> string) res" where
  "verify_session_lineage E now_secs ag cert_bytes agent_pub =
     (case x_cert_from E cert_bytes of
        None \<Rightarrow> (ag, Inl (Err ''Malformed Cryptographic Certificate Token''))
      | Some cert \<Rightarrow>
          (let derived_agent_hex = x_hex_encode E (derive_agent_id E agent_pub) in
           if cc_agent_hex cert \<noteq> derived_agent_hex then
             (trigger_quarantine now_secs ag derived_agent_hex ''Handshake'' ''CONFUSED_DEPUTY_SPOOF''
                ''Public key does not match CapabilityCertificate identity'',
              Inl (Err ''Security Violation: Certificate identity mismatch with signing key ''))
           else if is_quarantined ag (cc_agent_hex cert) then
             (ag, Inl (Err '' Agent is expicitely locked down by firewall ''))
           else if cc_expiration_timestamp cert < now_secs then
             (ag, Inl (Err '' Capability Certificate has expired ''))
           else if length (cc_master_signature cert) \<noteq> 64 then
             (ag, Inl (Err ''Invalid Master Signature block lengnth''))
           else if \<not> x_ed_verify E (ag_master ag) (x_cert_to E (unsigned_cert cert)) (cc_master_signature cert) then
             (trigger_quarantine now_secs ag (cc_agent_hex cert) ''Handshake'' ''CRYPTO_SPOOF''
                ''Forged Swarm Lineage Token'',
              Inl (Err ''Lineage Audit Failure: Forged Master Signature''))
           else (ag, Inr (cc_agent_hex cert, cc_group_name cert))))"

text \<open>\<open>handle_ca_mint\<close> of api.rs; the expiration is a wrapping sum in the release profile.\<close>

definition handle_ca_mint :: "ext \<Rightarrow> bytes \<Rightarrow> u64 \<Rightarrow> string \<Rightarrow> string \<Rightarrow> string" where
  "handle_ca_mint E master_signing_key now_secs agent_hex grp =
     (let cert = \<lparr>cc_agent_hex = agent_hex, cc_group_name = grp,
                  cc_expiration_timestamp = now_secs + 365 * 24 * 60 * 60, cc_master_signature = []\<rparr>;
          signature = x_ed_sign E master_signing_key (x_cert_to E cert)
      in x_hex_encode E (x_cert_to E (cert\<lparr>cc_master_signature := signature\<rparr>)))"

section \<open>The metrics endpoint\<close>

record group_policy_telemetry =
  gt_group_name :: string
  gt_allowed :: "string list"
  gt_blocked :: "string list"
  gt_max_tps :: u64
  gt_burst :: u64
  gt_remaining :: u64

record aegis_metrics =
  am_total_quarantined :: nat
  am_recent_interdictions :: nat
  am_signature_spoofs :: nat
  am_namespace_breaches :: nat
  am_rate_limit_blocks :: nat
  am_active_policies :: "group_policy_telemetry list"

definition tally :: "u64 \<Rightarrow> aegis_metrics \<Rightarrow> quarantine_record \<Rightarrow> aegis_metrics" where
  "tally ten_minutes_ago m rec =
     (let m1 = m\<lparr>am_total_quarantined := am_total_quarantined m + 1\<rparr>;
          m2 = (if ten_minutes_ago \<le> q_timestamp rec
                then m1\<lparr>am_recent_interdictions := am_recent_interdictions m1 + 1\<rparr> else m1)
      in if q_violation_type rec = ''CRYPTO_SPOOF'' then
           m2\<lparr>am_signature_spoofs := am_signature_spoofs m2 + 1\<rparr>
         else if q_violation_type rec = ''NAMESPACE_BREACH'' then
           m2\<lparr>am_namespace_breaches := am_namespace_breaches m2 + 1\<rparr>
         else if q_violation_type rec = ''RATE_LIMIT_EXCEEDED'' then
           m2\<lparr>am_rate_limit_blocks := am_rate_limit_blocks m2 + 1\<rparr>
         else m2)"

definition aegis_metics_endpoint :: "u64 \<Rightarrow> aegis \<Rightarrow> aegis_metrics" where
  "aegis_metics_endpoint now ag =
     (let counted = foldl (tally (saturating_sub now 600))
            \<lparr>am_total_quarantined = 0, am_recent_interdictions = 0, am_signature_spoofs = 0,
             am_namespace_breaches = 0, am_rate_limit_blocks = 0, am_active_policies = []\<rparr>
            (map snd (ag_quarantine ag))
      in counted\<lparr>am_active_policies := map (\<lambda>(name, policy).
           \<lparr>gt_group_name = name, gt_allowed = gp_allowed policy, gt_blocked = gp_blocked policy,
            gt_max_tps = tb_max_tps (gp_bucket policy), gt_burst = tb_burst (gp_bucket policy),
            gt_remaining = tb_tokens (gp_bucket policy)\<rparr>) (ag_policies ag)\<rparr>)"

section \<open>When a packet is accepted\<close>

definition pattern_allows :: "string \<Rightarrow> string \<Rightarrow> bool" where
  "pattern_allows path pat \<longleftrightarrow>
     (if ends_with pat ''*'' then starts_with path (butlast pat) else pat = path)"

text \<open>
  The specification of the check: a fresh packet with a valid signature of the key, in a group
  that exists and has a token, whose path no blocked pattern names (and no blocked pattern is a
  wildcard, since a wildcard there panics) and some allowed pattern covers.
\<close>

definition packet_admissible ::
  "ext \<Rightarrow> u64 \<Rightarrow> u64 \<Rightarrow> aegis \<Rightarrow> string \<Rightarrow> bytes \<Rightarrow> bytes \<Rightarrow> bytes \<Rightarrow> string \<Rightarrow> i64 \<Rightarrow> bool" where
  "packet_admissible E now_secs now_nanos ag grp pub payload sig path ts \<longleftrightarrow>
     \<not> stale now_secs ts \<and> x_ed_key_ok E pub \<and> x_ed_verify E pub payload sig
     \<and> (\<exists>policy. map_of (ag_policies ag) grp = Some policy
          \<and> snd (check_and_consume now_nanos (gp_bucket policy))
          \<and> list_all (\<lambda>b. \<not> ends_with b ''*'' \<and> b \<noteq> path) (gp_blocked policy)
          \<and> list_ex (pattern_allows path) (gp_allowed policy))"

lemma blocked_match_clear:
  "blocked_match path bs = Inr False \<longleftrightarrow> list_all (\<lambda>b. \<not> ends_with b ''*'' \<and> b \<noteq> path) bs"
  by (induction path bs rule: blocked_match.induct) (auto simp: slice_def)

lemma allowed_match_ok: "allowed_match path as = Inr (list_ex (pattern_allows path) as)"
proof (induction path as rule: allowed_match.induct)
  case (2 path a as)
  have "slice a 0 (length a - 1) = Inr (butlast a)" by (simp add: slice_def butlast_conv_take)
  with 2 show ?case by (auto simp: pattern_allows_def)
qed simp

lemma authorize_split:
  "authorize_packet_fast E now_secs now_nanos ag hex grp pub payload sig path ts = (ag', r) \<Longrightarrow>
   r = Inr () \<longleftrightarrow> packet_admissible E now_secs now_nanos ag grp pub payload sig path ts"
  unfolding authorize_packet_fast_def packet_admissible_def blocked_match_clear [symmetric]
  by (auto simp: allowed_match_ok Let_def split: if_splits option.splits prod.splits sum.splits bool.splits)

text \<open>
  C14. The packet check accepts exactly the packets of its specification.
\<close>

theorem packet_accepted_iff_admissible:
  "snd (authorize_packet_fast E now_secs now_nanos ag hex grp pub payload sig path ts) = Inr ()
   \<longleftrightarrow> packet_admissible E now_secs now_nanos ag grp pub payload sig path ts"
  using authorize_split by (metis prod.collapse)

lemma trigger_quarantine_marks [simp]: "is_quarantined (trigger_quarantine t ag h p v r) h"
  by (simp add: is_quarantined_def trigger_quarantine_def Let_def)

lemma trigger_quarantine_mono:
  "is_quarantined ag k \<Longrightarrow> is_quarantined (trigger_quarantine t ag h p v r) k"
  by (auto simp: is_quarantined_def trigger_quarantine_def Let_def)

text \<open>
  A refusal quarantines: when the check refuses a packet, the agent is on the blocklist
  afterwards and a quarantine record for it has been broadcast on the bus, except for a group
  that has no policy, a public key that does not parse, and the panic on a blocked wildcard.
\<close>

theorem refusal_quarantines_the_agent:
  assumes "authorize_packet_fast E now_secs now_nanos ag hex grp pub payload sig path ts = (ag', Inl (Err e))"
    and "map_of (ag_policies ag) grp \<noteq> None" and "x_ed_key_ok E pub"
  shows "is_quarantined ag' hex
    \<and> (\<exists>rec. q_agent_hex rec = hex \<and> q_attemped_path rec = path \<and> GlobalQuarantineSync rec \<in> set (ag_bus ag'))"
proof -
  have trig: "\<exists>rec. q_agent_hex rec = hex \<and> q_attemped_path rec = path
      \<and> GlobalQuarantineSync rec \<in> set (ag_bus (trigger_quarantine t a hex path v r))" for t a v r
    by (auto simp: trigger_quarantine_def Let_def intro!: exI)
  have no_err: "blocked_match path bs \<noteq> Inl (Err e)" for bs
    by (induction path bs rule: blocked_match.induct) (auto simp: slice_def)
  show ?thesis
    using assms trig no_err
    by (auto simp: authorize_packet_fast_def allowed_match_ok Let_def
        split: if_splits option.splits prod.splits sum.splits bool.splits)
qed

text \<open>
  The check does not look at the blocklist: its verdict is the same for every blocklist, so
  a quarantined agent that still has a session is accepted as before.
\<close>

theorem verdict_ignores_the_blocklist:
  "snd (authorize_packet_fast E now_secs now_nanos (ag\<lparr>ag_quarantine := q\<rparr>) hex grp pub payload sig path ts)
   = snd (authorize_packet_fast E now_secs now_nanos ag hex grp pub payload sig path ts)"
  by (auto simp: authorize_packet_fast_def Let_def split: option.splits prod.splits sum.splits bool.splits)

lemma blocked_wildcard_panic:
  assumes "\<not> stale now_secs ts" and "x_ed_key_ok E pub" and "x_ed_verify E pub payload sig"
    and "map_of (ag_policies ag) grp = Some policy"
    and "snd (check_and_consume now_nanos (gp_bucket policy))"
    and "gp_blocked policy = before @ blocked # after" and "ends_with blocked ''*''"
    and "path \<notin> set before"
  shows "\<exists>msg. snd (authorize_packet_fast E now_secs now_nanos ag hex grp pub payload sig path ts) = Inl (Panic msg)"
proof -
  have b: "\<exists>msg. blocked_match path (before @ blocked # after) = Inl (Panic msg)"
    using assms(7,8) by (induction before) (auto simp: slice_def)
  show ?thesis
    using assms(1-6) b by (auto simp: authorize_packet_fast_def Let_def split: prod.splits)
qed

text \<open>
  A wildcard among the blocked namespaces makes every packet of the group panic once it has
  passed the signature and rate checks, unless an earlier blocked entry names its path exactly.
\<close>

theorem blocked_wildcard_panics:
  assumes "\<not> stale now_secs ts" and "x_ed_key_ok E pub" and "x_ed_verify E pub payload sig"
    and "map_of (ag_policies ag) grp = Some policy"
    and "snd (check_and_consume now_nanos (gp_bucket policy))"
    and "gp_blocked policy = before @ blocked # after" and "ends_with blocked ''*''"
    and "path \<notin> set before"
  shows "\<exists>msg. snd (authorize_packet_fast E now_secs now_nanos ag hex grp pub payload sig path ts) = Inl (Panic msg)"
  by (rule blocked_wildcard_panic [OF assms])

text \<open>
  The anti-replay window: a packet is refused as stale exactly when the wrapping difference
  of clock and timestamp is above 30 seconds in absolute value, except for the one difference
  \<open>2^63\<close>, whose absolute value wraps to a negative number: a packet dated there is fresh.
\<close>

theorem stale_iff:
  "stale now_secs ts \<longleftrightarrow> 30 < \<bar>sint (now_secs - ts)\<bar> \<and> now_secs - ts \<noteq> 2 ^ 63"
proof -
  define d where "d = now_secs - ts"
  have r: "- (2 ^ 63) \<le> sint d" "sint d < 2 ^ 63"
    using sint_range_size [of d] by (simp_all add: word_size)
  have min: "d = 2 ^ 63 \<longleftrightarrow> sint d = - (2 ^ 63)"
  proof
    assume "sint d = - (2 ^ 63)"
    then have "word_of_int (sint d) = (word_of_int (- (2 ^ 63)) :: u64)" by simp
    then show "d = 2 ^ 63" by simp
  qed simp
  have neg: "sint (- d) = - sint d" if "sint d \<noteq> - (2 ^ 63)"
  proof -
    have "sint (- d) = signed_take_bit 63 (- sint d)"
      by (simp add: sint_word_ariths)
    also have "\<dots> = - sint d" using that r by (simp add: signed_take_bit_int_eq_self_iff)
    finally show ?thesis .
  qed
  show ?thesis
  proof (cases "d = 2 ^ 63")
    case True
    then show ?thesis by (simp add: stale_def d_def [symmetric] Let_def)
  next
    case False
    then show ?thesis using neg min
      by (auto simp: stale_def d_def [symmetric] Let_def word_sless_alt)
  qed
qed

section \<open>The handshake\<close>

definition lineage_ok :: "ext \<Rightarrow> u64 \<Rightarrow> aegis \<Rightarrow> capability_certificate \<Rightarrow> bytes \<Rightarrow> bool" where
  "lineage_ok E now_secs ag cert pub \<longleftrightarrow>
     cc_agent_hex cert = x_hex_encode E (derive_agent_id E pub)
     \<and> \<not> is_quarantined ag (cc_agent_hex cert)
     \<and> now_secs \<le> cc_expiration_timestamp cert
     \<and> length (cc_master_signature cert) = 64
     \<and> x_ed_verify E (ag_master ag) (x_cert_to E (unsigned_cert cert)) (cc_master_signature cert)"

text \<open>
  C15. A session is opened exactly for a certificate that decodes, is bound to the signing key,
  belongs to an agent that is not quarantined, is not expired and carries the master key's
  signature; it is opened under the identity and the group of that certificate, and changes
  nothing.
\<close>

theorem session_opened_iff_lineage_ok:
  "snd (verify_session_lineage E now_secs ag cert_bytes pub) = Inr (hex, grp)
   \<longleftrightarrow> (\<exists>cert. x_cert_from E cert_bytes = Some cert \<and> lineage_ok E now_secs ag cert pub
          \<and> hex = cc_agent_hex cert \<and> grp = cc_group_name cert)"
  by (auto simp: verify_session_lineage_def lineage_ok_def Let_def not_less split: option.splits)

lemma minted_certificate_session:
  assumes "ed_ok E" and "hex_ok E" and "postcard_ok E"
    and "ag_master ag = x_ed_public E master_key"
    and "hex = x_hex_encode E (derive_agent_id E pub)"
    and "\<not> is_quarantined ag hex"
    and "now \<le> minted_at + 365 * 24 * 60 * 60"
    and "x_hex_decode E (handle_ca_mint E master_key minted_at hex grp) = Some cert_bytes"
  shows "verify_session_lineage E now ag cert_bytes pub = (ag, Inr (hex, grp))"
proof -
  define c where "c = \<lparr>cc_agent_hex = hex, cc_group_name = grp,
     cc_expiration_timestamp = minted_at + 365 * 24 * 60 * 60, cc_master_signature = []\<rparr>"
  let ?sig = "x_ed_sign E master_key (x_cert_to E c)"
  have "cert_bytes = x_cert_to E (c\<lparr>cc_master_signature := ?sig\<rparr>)"
    using assms(8) hex_ok_decode [OF assms(2)] by (simp add: handle_ca_mint_def Let_def c_def)
  then have dec: "x_cert_from E cert_bytes = Some (c\<lparr>cc_master_signature := ?sig\<rparr>)"
    using assms(3) by simp
  have "unsigned_cert (c\<lparr>cc_master_signature := ?sig\<rparr>) = c" by (simp add: unsigned_cert_def c_def)
  then show ?thesis
    using dec ed_ok_simps(2,3) [OF assms(1)] assms(4-7)
    by (simp add: verify_session_lineage_def Let_def c_def not_less)
qed

text \<open>
  C16. What the authority mints, the firewall accepts: a certificate minted for the identity of
  a key opens a session for that key until it expires, unless the agent is quarantined.
\<close>

theorem minted_certificate_opens_a_session:
  assumes "ed_ok E" and "hex_ok E" and "postcard_ok E"
    and "ag_master ag = x_ed_public E master_key"
    and "hex = x_hex_encode E (derive_agent_id E pub)"
    and "\<not> is_quarantined ag hex"
    and "now \<le> minted_at + 365 * 24 * 60 * 60"
    and "x_hex_decode E (handle_ca_mint E master_key minted_at hex grp) = Some cert_bytes"
  shows "verify_session_lineage E now ag cert_bytes pub = (ag, Inr (hex, grp))"
  by (rule minted_certificate_session [OF assms])

lemma minted_certificate_opens_a_session_witness:
  "\<exists>ag cert. verify_session_lineage demo 1000 ag cert (x_ed_public demo [7]) =
     (ag, Inr (x_hex_encode demo (derive_agent_id demo (x_ed_public demo [7])), ''g''))"
proof -
  let ?hex = "x_hex_encode demo (derive_agent_id demo (x_ed_public demo [7]))"
  let ?ag = "\<lparr>ag_policies = [], ag_quarantine = [], ag_master = x_ed_public demo [1], ag_bus = [], ag_ui = []\<rparr>"
  obtain cb where "x_hex_decode demo (handle_ca_mint demo [1] 5 ?hex ''g'') = Some cb"
    by (simp add: handle_ca_mint_def Let_def demo_hex_ok)
  from minted_certificate_opens_a_session [OF demo_ed_ok demo_hex_ok demo_postcard_ok _ refl _ _ this,
      of ?ag 1000]
  show ?thesis by (auto simp: is_quarantined_def)
qed

section \<open>Concrete packets\<close>

definition demo_policy :: "string list \<Rightarrow> group_policy" where
  "demo_policy blocked = \<lparr>gp_allowed = [''/a/*''], gp_blocked = blocked, gp_bucket = token_bucket_new 0 10 5\<rparr>"

definition demo_aegis :: "string list \<Rightarrow> aegis" where
  "demo_aegis blocked = \<lparr>ag_policies = [(''g'', demo_policy blocked)], ag_quarantine = [],
     ag_master = x_ed_public demo [1], ag_bus = [], ag_ui = []\<rparr>"

lemma demo_token: "snd (check_and_consume 0 (gp_bucket (demo_policy b)))"
  by (simp add: demo_policy_def check_and_consume_def take_token_def refill_def token_bucket_new_def
      new_tokens_def saturating_sub_def)

lemma demo_fresh: "\<not> stale 100 100"
  by (simp add: stale_def word_sless_alt)

definition demo_agent_pub :: bytes where
  "demo_agent_pub = x_ed_public demo [2]"

definition demo_agent_hex :: string where
  "demo_agent_hex = x_hex_encode demo (derive_agent_id demo demo_agent_pub)"

definition demo_cert :: bytes where
  "demo_cert = the (x_hex_decode demo (handle_ca_mint demo [1] 5 demo_agent_hex ''g''))"

lemma demo_lineage:
  "verify_session_lineage demo 100 (demo_aegis blocked) demo_cert demo_agent_pub =
     (demo_aegis blocked, Inr (demo_agent_hex, ''g''))"
proof (rule minted_certificate_session [OF demo_ed_ok demo_hex_ok demo_postcard_ok])
  show "x_hex_decode demo (handle_ca_mint demo [1] 5 demo_agent_hex ''g'') = Some demo_cert"
    by (simp add: demo_cert_def handle_ca_mint_def Let_def demo_hex_ok)
qed (simp_all add: demo_aegis_def demo_agent_hex_def is_quarantined_def)

lemma demo_packet:
  "packet_admissible demo 100 0 (demo_aegis []) ''g'' demo_agent_pub payload (x_ed_sign demo [2] payload) ''/a/x'' 100"
proof -
  have "pattern_allows ''/a/x'' ''/a/*''" by (simp add: pattern_allows_def ends_with_def)
  then show ?thesis
    by (simp add: packet_admissible_def demo_fresh demo_agent_pub_def ed_ok_simps [OF demo_ed_ok]
        demo_aegis_def demo_token) (simp add: demo_policy_def)
qed

lemma refusal_quarantines_the_agent_witness:
  "\<exists>ag'. is_quarantined ag' ''0a'' \<and> fst (authorize_packet_fast demo 100 0 (demo_aegis []) ''0a'' ''g''
      (x_ed_public demo [2]) [9] (x_ed_sign demo [2] [9]) ''/b'' 500) = ag'"
proof -
  have "stale 100 500" by (simp add: stale_def word_sless_alt)
  then have "\<exists>ag'. authorize_packet_fast demo 100 0 (demo_aegis []) ''0a'' ''g'' (x_ed_public demo [2]) [9]
      (x_ed_sign demo [2] [9]) ''/b'' 500 =
      (ag', Inl (Err ''Security Violation: State packet rejected (Anti-replay)''))"
    by (simp add: authorize_packet_fast_def)
  then obtain ag' where r: "authorize_packet_fast demo 100 0 (demo_aegis []) ''0a'' ''g'' (x_ed_public demo [2]) [9]
      (x_ed_sign demo [2] [9]) ''/b'' 500 =
      (ag', Inl (Err ''Security Violation: State packet rejected (Anti-replay)''))" by blast
  have "is_quarantined ag' ''0a''"
    using refusal_quarantines_the_agent [OF r] ed_ok_simps(1) [OF demo_ed_ok] by (simp add: demo_aegis_def)
  with r show ?thesis by simp
qed

lemma blocked_wildcard_panics_witness:
  "\<exists>msg. snd (authorize_packet_fast demo 100 0 (demo_aegis [''/secret*'']) ''0a'' ''g''
      (x_ed_public demo [2]) [9] (x_ed_sign demo [2] [9]) ''/a/x'' 100) = Inl (Panic msg)"
  by (rule blocked_wildcard_panics [where policy = "demo_policy [''/secret*'']" and before = "[]"
        and blocked = "''/secret*''" and after = "[]"])
    (simp_all add: demo_fresh demo_token ed_ok_simps [OF demo_ed_ok] demo_aegis_def,
     simp_all add: demo_policy_def ends_with_def)

section \<open>The firewall over time\<close>

text \<open>Everything that changes the firewall, as one step function.\<close>

datatype aegis_op =
    Packet u64 u64 string string bytes bytes bytes string i64
  | Handshake u64 bytes bytes
  | Remote quarantine_record
  | Reload "(string \<times> group_policy) list"

fun aegis_step :: "ext \<Rightarrow> aegis \<Rightarrow> aegis_op \<Rightarrow> aegis" where
  "aegis_step E ag (Packet secs nanos hex grp pub payload sig path ts) =
     fst (authorize_packet_fast E secs nanos ag hex grp pub payload sig path ts)"
| "aegis_step E ag (Handshake secs cert pub) = fst (verify_session_lineage E secs ag cert pub)"
| "aegis_step E ag (Remote rec) = assimilate_remote_quarantine ag rec"
| "aegis_step E ag (Reload policies) = reload_policies ag policies"

text \<open>What a packet does to the blocklist: nothing, or one record of a local violation.\<close>

definition packet_outcome :: "aegis \<Rightarrow> u64 \<Rightarrow> string \<Rightarrow> string \<Rightarrow> aegis \<Rightarrow> bool" where
  "packet_outcome ag secs hex path ag' \<longleftrightarrow> ag_quarantine ag' = ag_quarantine ag
     \<or> (\<exists>a v r. ag_quarantine a = ag_quarantine ag \<and> v \<noteq> ''RATE_LIMIT_EXCEEDED''
          \<and> ag' = trigger_quarantine secs a hex path v r)"

lemma packet_outcome_same: "ag_quarantine ag' = ag_quarantine ag \<Longrightarrow> packet_outcome ag secs hex path ag'"
  by (simp add: packet_outcome_def)

lemma packet_outcome_trigger:
  "ag_quarantine a = ag_quarantine ag \<Longrightarrow> v \<noteq> ''RATE_LIMIT_EXCEEDED'' \<Longrightarrow>
   packet_outcome ag secs hex path (trigger_quarantine secs a hex path v r)"
  unfolding packet_outcome_def by blast

lemma authorize_outcome:
  "packet_outcome ag secs hex path (fst (authorize_packet_fast E secs nanos ag hex grp pub payload sig path ts))"
  unfolding authorize_packet_fast_def Let_def
  by (auto simp: packet_outcome_same packet_outcome_trigger
      split: option.splits prod.splits sum.splits bool.splits)

lemma authorize_cases:
  obtains ag1 where "ag_quarantine ag1 = ag_quarantine ag"
    and "fst (authorize_packet_fast E secs nanos ag hex grp pub payload sig path ts) = ag1"
  | ag1 v r where "ag_quarantine ag1 = ag_quarantine ag" and "v \<noteq> ''RATE_LIMIT_EXCEEDED''"
    and "fst (authorize_packet_fast E secs nanos ag hex grp pub payload sig path ts)
           = trigger_quarantine secs ag1 hex path v r"
  using authorize_outcome [of ag secs hex path E nanos grp pub payload sig ts]
  unfolding packet_outcome_def by metis

lemma step_keeps_quarantine: "is_quarantined ag k \<Longrightarrow> is_quarantined (aegis_step E ag op) k"
proof (cases op)
  case (Packet secs nanos hex grp pub payload sig path ts)
  assume q: "is_quarantined ag k"
  show ?thesis
    by (rule authorize_cases [of ag E secs nanos hex grp pub payload sig path ts])
      (use q Packet trigger_quarantine_mono in \<open>auto simp: is_quarantined_def\<close>)
next
  case (Handshake secs cert pub)
  assume "is_quarantined ag k"
  with Handshake show ?thesis
    by (auto simp: verify_session_lineage_def Let_def trigger_quarantine_mono split: option.splits)
qed (auto simp: is_quarantined_def assimilate_remote_quarantine_def reload_policies_def)

interpretation firewall: marking "aegis_step E" is_quarantined for E
  by unfold_locales (rule step_keeps_quarantine)

text \<open>
  Quarantine is permanent for the firewall: no sequence of packets, handshakes, remote
  records and policy reloads takes an agent off the blocklist, and a remote record puts its
  agent on it.
\<close>

theorem quarantine_is_permanent:
  "is_quarantined (foldl (aegis_step E) ag (Remote rec # ops)) (q_agent_hex rec)"
  by (rule firewall.marked_after) (simp add: assimilate_remote_quarantine_def is_quarantined_def)

section \<open>The metrics\<close>

definition local_violations :: "aegis \<Rightarrow> bool" where
  "local_violations ag \<longleftrightarrow> list_all (\<lambda>q. q_violation_type (snd q) \<noteq> ''RATE_LIMIT_EXCEEDED'') (ag_quarantine ag)"

lemma trigger_local:
  "local_violations ag \<Longrightarrow> v \<noteq> ''RATE_LIMIT_EXCEEDED'' \<Longrightarrow> local_violations (trigger_quarantine t ag h p v r)"
proof -
  have "list_all P m \<Longrightarrow> P (k, v) \<Longrightarrow> (\<And>j. P (j, v)) \<Longrightarrow> list_all P (AList.update k v m)"
    for P :: "string \<times> quarantine_record \<Rightarrow> bool" and m k v
    by (induction m) auto
  then show "local_violations ag \<Longrightarrow> v \<noteq> ''RATE_LIMIT_EXCEEDED'' \<Longrightarrow> ?thesis"
    by (simp add: local_violations_def trigger_quarantine_def Let_def)
qed

fun is_remote :: "aegis_op \<Rightarrow> bool" where
  "is_remote (Remote rec) = True"
| "is_remote op = False"

lemma step_local: "local_violations ag \<Longrightarrow> \<not> is_remote op \<Longrightarrow> local_violations (aegis_step E ag op)"
proof (cases op)
  case (Packet secs nanos hex grp pub payload sig path ts)
  assume l: "local_violations ag"
  show ?thesis
    by (rule authorize_cases [of ag E secs nanos hex grp pub payload sig path ts])
      (use l Packet trigger_local in \<open>auto simp: local_violations_def\<close>)
next
  case (Handshake secs cert pub)
  assume "local_violations ag"
  with Handshake show ?thesis
    by (auto simp: verify_session_lineage_def Let_def trigger_local split: option.splits)
qed (auto simp: local_violations_def reload_policies_def)

lemma run_local:
  "local_violations ag \<Longrightarrow> list_all (\<lambda>op. \<not> is_remote op) ops \<Longrightarrow> local_violations (foldl (aegis_step E) ag ops)"
  by (induction ops arbitrary: ag) (simp_all add: step_local)

lemma tally_rate_limit:
  "list_all (\<lambda>q. q_violation_type q \<noteq> ''RATE_LIMIT_EXCEEDED'') qs \<Longrightarrow>
   am_rate_limit_blocks (foldl (tally t) m qs) = am_rate_limit_blocks m
   \<and> am_total_quarantined (foldl (tally t) m qs) = am_total_quarantined m + length qs"
  by (induction qs arbitrary: m) (auto simp: tally_def Let_def)

text \<open>
  The metrics count every quarantined agent, but never a rate-limit block of this node: the
  firewall records the violation under one spelling and the metrics look for another.
\<close>

theorem rate_limit_blocks_are_never_counted:
  assumes "ag_quarantine ag = []" and "list_all (\<lambda>op. \<not> is_remote op) ops"
  shows "am_rate_limit_blocks (aegis_metics_endpoint now (foldl (aegis_step E) ag ops)) = 0
     \<and> am_total_quarantined (aegis_metics_endpoint now (foldl (aegis_step E) ag ops))
         = length (ag_quarantine (foldl (aegis_step E) ag ops))"
proof -
  have "local_violations ag" using assms(1) by (simp add: local_violations_def)
  then have "local_violations (foldl (aegis_step E) ag ops)" using assms(2) by (rule run_local)
  then have "list_all (\<lambda>q. q_violation_type q \<noteq> ''RATE_LIMIT_EXCEEDED'')
      (map snd (ag_quarantine (foldl (aegis_step E) ag ops)))"
    by (simp add: local_violations_def list.pred_map comp_def)
  from tally_rate_limit [OF this] show ?thesis by (simp add: aegis_metics_endpoint_def Let_def)
qed

lemma rate_limit_blocks_are_never_counted_witness:
  "am_rate_limit_blocks (aegis_metics_endpoint 0 (foldl (aegis_step demo) (demo_aegis [])
     [Packet 100 0 ''0a'' ''g'' (x_ed_public demo [2]) [9] (x_ed_sign demo [2] [9]) ''/b'' 100])) = 0"
  by (rule conjunct1 [OF rate_limit_blocks_are_never_counted]) (simp_all add: demo_aegis_def)

end
