(* ===== verification/Swarm_State.thy ===== *)
theory Swarm_State
  imports Demo_Externs Interfaces
begin

text \<open>
  The CRDT shards and their registry (src/raqim-core/src/state.rs), the live process table
  (src/raqim-core/src/registry.rs) and the counters (src/raqim-core/src/telemetry.rs). The Loro
  document is a parameter: a record of the operations state.rs calls, with the laws the code
  relies on in \<open>crdt_ok\<close>. A shard has an identity and the number of \<open>Arc\<close> clones that tasks
  hold besides the one in the map, which is what the purge of phantom shards looks at.
\<close>

section \<open>The Loro document\<close>

record crdt_entry =
  ce_tx_id :: i64
  ce_ts :: i64
  ce_payload :: string
  ce_status :: string

record ('d, 'v) crdt =
  c_new :: "string \<Rightarrow> 'd"
  c_timeline :: "'d \<Rightarrow> string \<Rightarrow> crdt_entry list option"
  c_insert_list :: "'d \<Rightarrow> string \<Rightarrow> 'd option"
  c_push :: "'d \<Rightarrow> string \<Rightarrow> crdt_entry \<Rightarrow> 'd option"
  c_vv :: "'d \<Rightarrow> 'v"
  c_commit :: "'d \<Rightarrow> 'd"
  c_export :: "'d \<Rightarrow> 'v \<Rightarrow> bytes option"
  c_import :: "'d \<Rightarrow> bytes \<Rightarrow> 'd option"

text \<open>What the code relies on: list containers of a root map behave as lists under keys.\<close>

definition crdt_ok :: "('d, 'v) crdt \<Rightarrow> bool" where
  "crdt_ok L \<longleftrightarrow>
     (\<forall>ns a. c_timeline L (c_new L ns) a = None)
   \<and> (\<forall>d a. c_timeline L d a = None \<longrightarrow> (\<exists>d'. c_insert_list L d a = Some d'
         \<and> (\<forall>b. c_timeline L d' b = (if b = a then Some [] else c_timeline L d b))))
   \<and> (\<forall>d a r l. c_timeline L d a = Some l \<longrightarrow> (\<exists>d'. c_push L d a r = Some d'
         \<and> (\<forall>b. c_timeline L d' b = (if b = a then Some (l @ [r]) else c_timeline L d b))))
   \<and> (\<forall>d a. c_timeline L (c_commit L d) a = c_timeline L d a)
   \<and> (\<forall>d v. c_export L d v \<noteq> None)"

text \<open>A concrete document: association lists, for the witnesses.\<close>

definition demo_crdt :: "((string \<times> crdt_entry list) list, nat) crdt" where
  "demo_crdt = \<lparr>c_new = (\<lambda>_. []), c_timeline = map_of,
     c_insert_list = (\<lambda>d a. Some (AList.update a [] d)),
     c_push = (\<lambda>d a r. case map_of d a of None \<Rightarrow> None | Some l \<Rightarrow> Some (AList.update a (l @ [r]) d)),
     c_vv = length, c_commit = (\<lambda>d. d), c_export = (\<lambda>d v. Some [1]), c_import = (\<lambda>d b. Some d)\<rparr>"

lemma demo_crdt_ok: "crdt_ok demo_crdt"
  unfolding crdt_ok_def demo_crdt_def by auto

section \<open>A shard\<close>

fun status_str :: "agent_status \<Rightarrow> string" where
  "status_str Idle = ''IDLE''"
| "status_str Reasoning = ''REASONING''"
| "status_str Halted = ''HALTED''"
| "status_str ToolExecution = ''TOOL_EXEC''"

definition record_entry :: "agent_state \<Rightarrow> crdt_entry" where
  "record_entry state =
     \<lparr>ce_tx_id = ucast (st_transaction_id state), ce_ts = st_timestamp state,
      ce_payload = st_text state, ce_status = status_str (st_status state)\<rparr>"

text \<open>The document before an error is returned keeps the containers already inserted.\<close>

definition append_agent_thought ::
  "('d, 'v) crdt \<Rightarrow> 'd \<Rightarrow> string \<Rightarrow> agent_state \<Rightarrow> 'd \<times> bytes res" where
  "append_agent_thought L doc agent_id_hex state =
     (let previous_vv = c_vv L doc in
      case (case c_timeline L doc agent_id_hex of
              Some _ \<Rightarrow> Some doc
            | None \<Rightarrow> c_insert_list L doc agent_id_hex) of
        None \<Rightarrow> (doc, Inl (Err ''CRDT Allocation Error: Failed to generate agent timeine leaf ''))
      | Some doc1 \<Rightarrow>
          (case c_push L doc1 agent_id_hex (record_entry state) of
             None \<Rightarrow> (doc1, Inl (Err ''loro error''))
           | Some doc2 \<Rightarrow>
               (let doc3 = c_commit L doc2 in
                case c_export L doc3 previous_vv of
                  None \<Rightarrow> (doc3, Inl (Err ''loro export error''))
                | Some delta \<Rightarrow> (doc3, Inr delta))))"

definition assimilate_foreign_thought :: "('d, 'v) crdt \<Rightarrow> 'd \<Rightarrow> bytes \<Rightarrow> 'd \<times> unit res" where
  "assimilate_foreign_thought L doc delta =
     (case c_import L doc delta of
        None \<Rightarrow> (doc, Inl (Err ''loro import error''))
      | Some doc' \<Rightarrow> (doc', Inr ()))"

definition timeline :: "('d, 'v) crdt \<Rightarrow> 'd \<Rightarrow> string \<Rightarrow> crdt_entry list" where
  "timeline L doc a = (case c_timeline L doc a of None \<Rightarrow> [] | Some l \<Rightarrow> l)"

lemma append_one_timeline:
  assumes "crdt_ok L"
  shows "\<exists>doc' delta. append_agent_thought L doc hex state = (doc', Inr delta)
     \<and> (\<forall>b. timeline L doc' b = (if b = hex then timeline L doc b @ [record_entry state] else timeline L doc b))"
proof -
  note ok = assms [unfolded crdt_ok_def]
  obtain doc1 where d1: "(case c_timeline L doc hex of Some _ \<Rightarrow> Some doc | None \<Rightarrow> c_insert_list L doc hex) = Some doc1"
    and t1: "c_timeline L doc1 hex = Some (timeline L doc hex)"
    and o1: "\<And>b. b \<noteq> hex \<Longrightarrow> c_timeline L doc1 b = c_timeline L doc b"
  proof (cases "c_timeline L doc hex")
    case None
    with ok obtain d' where "c_insert_list L doc hex = Some d'"
      "\<forall>b. c_timeline L d' b = (if b = hex then Some [] else c_timeline L doc b)" by blast
    with None show ?thesis by (intro that [of d']) (simp_all add: timeline_def)
  next
    case (Some l)
    then show ?thesis by (intro that [of doc]) (simp_all add: timeline_def)
  qed
  obtain doc2 where d2: "c_push L doc1 hex (record_entry state) = Some doc2"
    and t2: "\<forall>b. c_timeline L doc2 b =
        (if b = hex then Some (timeline L doc hex @ [record_entry state]) else c_timeline L doc1 b)"
    using ok t1 by blast
  obtain delta where d3: "c_export L (c_commit L doc2) (c_vv L doc) = Some delta"
    using ok by (metis not_Some_eq)
  have "\<forall>b. c_timeline L (c_commit L doc2) b = c_timeline L doc2 b" using ok by blast
  with t2 o1 have "timeline L (c_commit L doc2) b =
      (if b = hex then timeline L doc b @ [record_entry state] else timeline L doc b)" for b
    by (simp add: timeline_def)
  then show ?thesis using d1 d2 d3 by (simp add: append_agent_thought_def Let_def)
qed

text \<open>
  Appending a thought never fails on a lawful document: it adds exactly one entry at the
  end of the agent's timeline, with the status word and the transaction id cut to its low 64
  bits, and leaves the timelines of all other agents unchanged.
\<close>

theorem append_extends_one_timeline:
  assumes "crdt_ok L"
  shows "\<exists>doc' delta. append_agent_thought L doc hex state = (doc', Inr delta)
     \<and> (\<forall>b. timeline L doc' b = (if b = hex then timeline L doc b @ [record_entry state] else timeline L doc b))"
  by (rule append_one_timeline [OF assms])

lemma append_extends_one_timeline_witness:
  "\<exists>doc' delta. append_agent_thought demo_crdt [] ''0a'' (ol_state (demo_log 1 ''a'' ''x'')) = (doc', Inr delta)
     \<and> timeline demo_crdt doc' ''0a'' = [record_entry (ol_state (demo_log 1 ''a'' ''x''))]"
  using append_extends_one_timeline [OF demo_crdt_ok, of "[]" "''0a''" "ol_state (demo_log 1 ''a'' ''x'')"]
  by (auto simp: timeline_def demo_crdt_def)

section \<open>The registry of shards\<close>

record 'd shard =
  sh_id :: nat
  sh_doc :: 'd
  sh_holders :: nat

record 'd shard_registry =
  rg_shards :: "(string \<times> 'd shard) list"
  rg_next :: nat

definition shard_registry_new :: "'d shard_registry" where
  "shard_registry_new = \<lparr>rg_shards = [], rg_next = 0\<rparr>"

definition swarm_state_new :: "('d, 'v) crdt \<Rightarrow> 'd shard_registry \<Rightarrow> string \<Rightarrow> 'd shard_registry \<times> 'd shard" where
  "swarm_state_new L rg ns =
     (rg\<lparr>rg_next := rg_next rg + 1\<rparr>, \<lparr>sh_id = rg_next rg, sh_doc = c_new L ns, sh_holders = 0\<rparr>)"

definition clone_shard :: "'d shard \<Rightarrow> 'd shard" where
  "clone_shard s = s\<lparr>sh_holders := sh_holders s + 1\<rparr>"

text \<open>
  The two passes of \<open>get_or_create_brain\<close>. Between them other tasks run: the map is not locked
  while the new document is allocated.
\<close>

definition get_pass :: "'d shard_registry \<Rightarrow> string \<Rightarrow> ('d shard_registry \<times> 'd shard) option" where
  "get_pass rg ns =
     (case map_of (rg_shards rg) ns of
        None \<Rightarrow> None
      | Some s \<Rightarrow> Some (rg\<lparr>rg_shards := AList.update ns (clone_shard s) (rg_shards rg)\<rparr>, clone_shard s))"

definition insert_pass :: "'d shard_registry \<Rightarrow> string \<Rightarrow> 'd shard \<Rightarrow> 'd shard_registry \<times> 'd shard" where
  "insert_pass rg ns new_brain =
     (let s = clone_shard (case map_of (rg_shards rg) ns of None \<Rightarrow> new_brain | Some old \<Rightarrow> old)
      in (rg\<lparr>rg_shards := AList.update ns s (rg_shards rg)\<rparr>, s))"

definition get_or_create_brain ::
  "('d, 'v) crdt \<Rightarrow> 'd shard_registry \<Rightarrow> string \<Rightarrow> 'd shard_registry \<times> 'd shard" where
  "get_or_create_brain L rg ns =
     (case get_pass rg ns of
        Some r \<Rightarrow> r
      | None \<Rightarrow> (let (rg1, new_brain) = swarm_state_new L rg ns in insert_pass rg1 ns new_brain))"

text \<open>A task drops its clone.\<close>

definition drop_clone :: "'d shard_registry \<Rightarrow> string \<Rightarrow> 'd shard_registry" where
  "drop_clone rg ns =
     (case map_of (rg_shards rg) ns of
        None \<Rightarrow> rg
      | Some s \<Rightarrow> rg\<lparr>rg_shards := AList.update ns (s\<lparr>sh_holders := sh_holders s - 1\<rparr>) (rg_shards rg)\<rparr>)"

definition update_doc :: "'d shard_registry \<Rightarrow> string \<Rightarrow> 'd \<Rightarrow> 'd shard_registry" where
  "update_doc rg ns doc =
     (case map_of (rg_shards rg) ns of
        None \<Rightarrow> rg
      | Some s \<Rightarrow> rg\<lparr>rg_shards := AList.update ns (s\<lparr>sh_doc := doc\<rparr>) (rg_shards rg)\<rparr>)"

definition evict_brain :: "'d shard_registry \<Rightarrow> string \<Rightarrow> 'd shard_registry \<times> bool" where
  "evict_brain rg ns =
     (rg\<lparr>rg_shards := AList.delete ns (rg_shards rg)\<rparr>, map_of (rg_shards rg) ns \<noteq> None)"

text \<open>\<open>Arc::strong_count(brain) == 1\<close>: only the map holds the shard.\<close>

definition dead_phantom :: "string \<times> 'd shard \<Rightarrow> bool" where
  "dead_phantom kb \<longleftrightarrow> starts_with (fst kb) ''phantom_'' \<and> sh_holders (snd kb) + 1 = 1"

definition purge_phantom_shards :: "'d shard_registry \<Rightarrow> 'd shard_registry \<times> nat" where
  "purge_phantom_shards rg =
     (rg\<lparr>rg_shards := filter (\<lambda>kb. \<not> dead_phantom kb) (rg_shards rg)\<rparr>,
      length (filter dead_phantom (rg_shards rg)))"

definition shard_id :: "'d shard_registry \<Rightarrow> string \<Rightarrow> nat option" where
  "shard_id rg ns = map_option sh_id (map_of (rg_shards rg) ns)"

text \<open>
  The purge removes exactly the phantom shards that no task holds, keeps every production
  shard and every phantom shard in use as it is, and returns the number it removed.
\<close>

theorem purge_removes_exactly_dead_phantoms:
  assumes "wf_map (rg_shards rg)" and "purge_phantom_shards rg = (rg', n)"
  shows "map_of (rg_shards rg') ns =
      (case map_of (rg_shards rg) ns of
         None \<Rightarrow> None
       | Some s \<Rightarrow> if starts_with ns ''phantom_'' \<and> sh_holders s = 0 then None else Some s)
    \<and> n + length (rg_shards rg') = length (rg_shards rg)"
proof -
  have rg': "rg_shards rg' = filter (\<lambda>kb. \<not> dead_phantom kb) (rg_shards rg)"
    and n: "n = length (filter dead_phantom (rg_shards rg))"
    using assms(2) by (auto simp: purge_phantom_shards_def)
  have "n + length (rg_shards rg') = length (rg_shards rg)"
    unfolding rg' n by (rule sum_length_filter_compl)
  then show ?thesis
    by (simp add: rg' map_of_filter_key [OF assms(1)] dead_phantom_def split: option.splits)
qed

lemma purge_removes_exactly_dead_phantoms_witness:
  "map_of (rg_shards (fst (purge_phantom_shards
     \<lparr>rg_shards = [(''phantom_1'', \<lparr>sh_id = 0, sh_doc = (), sh_holders = 0\<rparr>),
                   (''prod'', \<lparr>sh_id = 1, sh_doc = (), sh_holders = 0\<rparr>)], rg_next = 2\<rparr>))) ''phantom_1'' = None"
proof -
  let ?rg = "\<lparr>rg_shards = [(''phantom_1'', \<lparr>sh_id = 0, sh_doc = (), sh_holders = 0\<rparr>),
                   (''prod'', \<lparr>sh_id = 1, sh_doc = (), sh_holders = 0\<rparr>)], rg_next = 2\<rparr> :: unit shard_registry"
  obtain rg' n where r: "purge_phantom_shards ?rg = (rg', n)" by fastforce
  from purge_removes_exactly_dead_phantoms [OF _ r, of "''phantom_1''"]
  have "map_of (rg_shards rg') ''phantom_1'' = None" by simp
  then show ?thesis unfolding r by simp
qed

section \<open>Tasks racing for a shard\<close>

text \<open>
  Registry steps that any task may take between the two passes of another: a read pass, an
  insert pass with a shard of its own, a document update, a dropped clone.
\<close>

datatype 'd registry_op =
    Read_Pass string
  | Insert_Pass string "'d shard"
  | Set_Doc string 'd
  | Drop_Clone string

fun registry_step :: "'d shard_registry \<Rightarrow> 'd registry_op \<Rightarrow> 'd shard_registry" where
  "registry_step rg (Read_Pass ns) = (case get_pass rg ns of None \<Rightarrow> rg | Some (rg', _) \<Rightarrow> rg')"
| "registry_step rg (Insert_Pass ns s) = fst (insert_pass rg ns s)"
| "registry_step rg (Set_Doc ns d) = update_doc rg ns d"
| "registry_step rg (Drop_Clone ns) = drop_clone rg ns"

lemma registry_step_keeps_id: "shard_id rg ns = Some i \<Longrightarrow> shard_id (registry_step rg op) ns = Some i"
  by (cases op) (auto simp: shard_id_def get_pass_def insert_pass_def update_doc_def drop_clone_def
      clone_shard_def Let_def split: option.splits)

interpretation shards: marking registry_step "\<lambda>rg (ns, i). shard_id rg ns = Some i"
  by unfold_locales (auto simp: registry_step_keeps_id)

text \<open>
  Speculative allocation is safe: once any task has inserted a shard for a namespace, a
  task that allocated its own meanwhile gets the shard of the first one from its insert pass,
  after any steps of other tasks in between, so the namespace never has two brains.
\<close>

theorem racing_allocations_share_one_shard:
  "sh_id (snd (insert_pass (foldl registry_step (fst (insert_pass rg ns s1)) ops) ns s2))
     = sh_id (snd (insert_pass rg ns s1))"
proof -
  let ?i = "sh_id (snd (insert_pass rg ns s1))"
  have "shard_id (fst (insert_pass rg ns s1)) ns = Some ?i"
    by (simp add: shard_id_def insert_pass_def Let_def)
  then have "shard_id (foldl registry_step (fst (insert_pass rg ns s1)) ops) ns = Some ?i"
    using shards.run_marked [of "fst (insert_pass rg ns s1)" "(ns, ?i)" ops] by simp
  then show ?thesis by (auto simp: shard_id_def insert_pass_def clone_shard_def Let_def)
qed

section \<open>The process table and the counters\<close>

record agent_process =
  ap_agent_hex :: string
  ap_alias :: string
  ap_namespace :: string
  ap_last_seen_ts :: u64
  ap_status :: string

type_synonym process_table = "(string \<times> agent_process) list"

definition touch_agent ::
  "u64 \<Rightarrow> process_table \<Rightarrow> string \<Rightarrow> string \<Rightarrow> string \<Rightarrow> string \<Rightarrow> process_table" where
  "touch_agent now tab agent_hex ns status alias =
     AList.update agent_hex
       \<lparr>ap_agent_hex = agent_hex, ap_alias = alias, ap_namespace = ns, ap_last_seen_ts = now,
        ap_status = status\<rparr> tab"

definition quarantine_agent :: "process_table \<Rightarrow> string \<Rightarrow> process_table" where
  "quarantine_agent tab agent_hex =
     (case map_of tab agent_hex of
        None \<Rightarrow> tab
      | Some p \<Rightarrow> AList.update agent_hex (p\<lparr>ap_status := ''Quarantined''\<rparr>) tab)"

text \<open>
  The quarantine flag of the process table only marks agents it already knows and is lost
  at the agent's next frame: touching a quarantined agent overwrites its status.
\<close>

theorem touch_clears_the_quarantine_flag:
  "map_of (quarantine_agent tab hex) hex = map_option (\<lambda>p. p\<lparr>ap_status := ''Quarantined''\<rparr>) (map_of tab hex)
   \<and> map_option ap_status (map_of (touch_agent now (quarantine_agent tab hex) hex ns status alias) hex) = Some status"
  by (auto simp: quarantine_agent_def touch_agent_def split: option.splits)

record telemetry =
  te_tenant_id :: string
  te_crdt_merges :: u64
  te_a2a_bytes_routed :: u64
  te_time_travel_queries :: u64

definition telemetry_new :: "string \<Rightarrow> telemetry" where
  "telemetry_new tenant =
     \<lparr>te_tenant_id = tenant, te_crdt_merges = 0, te_a2a_bytes_routed = 0, te_time_travel_queries = 0\<rparr>"

definition record_crdt_merge :: "telemetry \<Rightarrow> telemetry" where
  "record_crdt_merge t = t\<lparr>te_crdt_merges := te_crdt_merges t + 1\<rparr>"

definition record_a2a_bytes :: "telemetry \<Rightarrow> u64 \<Rightarrow> telemetry" where
  "record_a2a_bytes t n = t\<lparr>te_a2a_bytes_routed := te_a2a_bytes_routed t + n\<rparr>"

definition record_time_travel :: "telemetry \<Rightarrow> telemetry" where
  "record_time_travel t = t\<lparr>te_time_travel_queries := te_time_travel_queries t + 1\<rparr>"

end
