(* ===== verification/Network.thy ===== *)
theory Network
  imports Axon Aegis Swarm_State
begin

text \<open>
  The global network bridge of src/raqim-core/src/network.rs over Zenoh. The session is a list of
  the publications it was asked to make; what the mesh delivers (samples, queries, replies) are
  arguments. Every spawned listener is a function of the deliveries it processes one by one.
\<close>

section \<open>The bridge and its egress funnel\<close>

record network =
  nb_prefix :: string
  nb_node_id :: string
  nb_endpoints :: "string list"
  nb_allow_wan :: bool
  nb_allow_a2a :: bool
  nb_allow_aegis :: bool
  nb_egress :: "bytes list"
  nb_puts :: "(string \<times> bytes) list"

definition network_new :: "string \<Rightarrow> string \<Rightarrow> string \<Rightarrow> bool \<Rightarrow> bool \<Rightarrow> bool \<Rightarrow> network" where
  "network_new tenant swarm_name os_node_id allow_wan allow_a2a allow_aegis =
     \<lparr>nb_prefix = ''raqim/'' @ tenant @ ''/'' @ swarm_name, nb_node_id = os_node_id,
      nb_endpoints = (if allow_wan then [''tcp/router.raqim.cloud:7447''] else []),
      nb_allow_wan = allow_wan, nb_allow_a2a = allow_a2a, nb_allow_aegis = allow_aegis,
      nb_egress = [], nb_puts = []\<rparr>"

definition broadcast_to_world :: "ext \<Rightarrow> network \<Rightarrow> op_log \<Rightarrow> network" where
  "broadcast_to_world E nb log = nb\<lparr>nb_egress := nb_egress nb @ [x_oplog_to E log]\<rparr>"

text \<open>One turn of the egress task; \<open>put_ok\<close> says whether Zenoh took the packet.\<close>

definition egress_step :: "bool \<Rightarrow> network \<Rightarrow> network" where
  "egress_step put_ok nb =
     (case nb_egress nb of
        [] \<Rightarrow> nb
      | bytes # rest \<Rightarrow>
          (let nb1 = nb\<lparr>nb_egress := rest\<rparr>;
               topic = nb_prefix nb @ ''/thoughts/'' @ nb_node_id nb
           in if \<not> nb_allow_wan nb then nb1
              else if put_ok then nb1\<lparr>nb_puts := nb_puts nb1 @ [(topic, bytes)]\<rparr>
              else nb1))"

definition broadcast_quarantine_sync :: "ext \<Rightarrow> bool \<Rightarrow> network \<Rightarrow> quarantine_record \<Rightarrow> network" where
  "broadcast_quarantine_sync E put_ok nb rec =
     (if \<not> nb_allow_aegis nb then nb
      else if put_ok then
        nb\<lparr>nb_puts := nb_puts nb @ [(nb_prefix nb @ ''/system/quarantine'', x_quarantine_to E rec)]\<rparr>
      else nb)"

text \<open>\<open>control_json\<close> is serde_json's text of the command object with the prompt and the time.\<close>

definition dispatch_control_override ::
  "(string \<Rightarrow> u64 \<Rightarrow> string) \<Rightarrow> u64 \<Rightarrow> bool \<Rightarrow> network \<Rightarrow> string \<Rightarrow> string \<Rightarrow> network" where
  "dispatch_control_override control_json now put_ok nb target_agent_hex system_prompt =
     (let control_topic = nb_prefix nb @ ''control/'' @ target_agent_hex in
      if put_ok then
        nb\<lparr>nb_puts := nb_puts nb @ [(control_topic, as_bytes (control_json system_prompt now))]\<rparr>
      else nb)"

text \<open>
  The egress funnel forwards or drops, in order: the publications it makes are the queued packets
  at the time, and none while the WAN switch is off.
\<close>

lemma egress_step_wan_off: "\<not> nb_allow_wan nb \<Longrightarrow> nb_puts (egress_step ok nb) = nb_puts nb"
  by (auto simp: egress_step_def Let_def split: list.splits)

section \<open>A node without the WAN\<close>

text \<open>The calls that change the bridge; no method changes a switch or a name.\<close>

datatype network_op =
    Broadcast op_log
  | Egress bool
  | Quarantine_Sync bool quarantine_record
  | Dispatch "string \<Rightarrow> u64 \<Rightarrow> string" u64 bool string string

fun network_step :: "ext \<Rightarrow> network \<Rightarrow> network_op \<Rightarrow> network" where
  "network_step E nb (Broadcast log) = broadcast_to_world E nb log"
| "network_step E nb (Egress ok) = egress_step ok nb"
| "network_step E nb (Quarantine_Sync ok rec) = broadcast_quarantine_sync E ok nb rec"
| "network_step E nb (Dispatch cj now ok hex prompt) = dispatch_control_override cj now ok nb hex prompt"

definition thoughts_topic :: "network \<Rightarrow> string" where
  "thoughts_topic nb = nb_prefix nb @ ''/thoughts/'' @ nb_node_id nb"

text \<open>The WAN switch is off and nothing was published on the topic of the thoughts.\<close>

definition silent :: "string \<Rightarrow> network \<Rightarrow> bool" where
  "silent topic nb \<longleftrightarrow> \<not> nb_allow_wan nb \<and> thoughts_topic nb = topic \<and> topic \<notin> fst ` set (nb_puts nb)"

lemma network_step_silent: "silent topic nb \<Longrightarrow> silent topic (network_step E nb op)"
  by (cases op) (auto simp: silent_def thoughts_topic_def broadcast_to_world_def egress_step_def
      broadcast_quarantine_sync_def dispatch_control_override_def Let_def split: list.splits)

interpretation silence: preserved "network_step E" "silent topic"
  by unfold_locales (rule network_step_silent)

section \<open>Outgoing questions\<close>

text \<open>
  What the mesh answers within the timeout: nothing, an error reply, or bytes. \<open>parse_answer\<close>
  is the JSON reading of a reply: \<open>None\<close> when it is not JSON, otherwise its \<open>responder_hex\<close>
  and \<open>answer\<close> members where they are strings.
\<close>

datatype a2a_reply = No_Reply | Error_Reply | Sample_Reply bytes

datatype query_target = Target_All | Target_Best_Matching

definition execute_a2a_rpc ::
  "ext \<Rightarrow> (bytes \<Rightarrow> (string option \<times> string option) option) \<Rightarrow> u64 \<Rightarrow> u64 \<Rightarrow> network \<Rightarrow> aegis
   \<Rightarrow> a2a_envelope \<Rightarrow> (string \<Rightarrow> query_target \<Rightarrow> bytes \<Rightarrow> a2a_reply) \<Rightarrow> aegis \<times> (bytes \<times> string) res" where
  "execute_a2a_rpc E parse_answer secs nanos nb ag env mesh =
     (let sender_hex = x_hex_encode E (a2a_sender_id env) in
      case verify_session_lineage E secs ag (a2a_sender_capability_cert env) (a2a_sender_public_key env) of
        (ag1, Inl e) \<Rightarrow> (ag1, Inl (Err []))
      | (ag1, Inr (agent_hex, group_name)) \<Rightarrow>
          (case authorize_packet_fast E secs nanos ag1 agent_hex group_name (a2a_sender_public_key env)
                  (a2a_payload env) (a2a_signature env) (a2a_target_capability env) (a2a_timestamp env) of
             (ag2, Inl (Panic p)) \<Rightarrow> (ag2, Inl (Panic p))
           | (ag2, Inl (Err e)) \<Rightarrow>
               (ag2, Inl (Err (''[AEGIS INTERDICTION]: A2A Transmission Violation: '' @ e @ '' '')))
           | (ag2, Inr _) \<Rightarrow>
               (let target = (if nb_allow_a2a nb then Target_All else Target_Best_Matching);
                    key_expr = nb_prefix nb @ ''/a2a/'' @ a2a_target_capability env;
                    timed_out = Inl (Err (''A2A Timeout: No agent responded to capability ''
                                  @ a2a_target_capability env))
                in case mesh key_expr target (x_a2a_to E env) of
                     No_Reply \<Rightarrow> (ag2, timed_out)
                   | Error_Reply \<Rightarrow> (ag2, timed_out)
                   | Sample_Reply res_bytes \<Rightarrow>
                       (case parse_answer res_bytes of
                          None \<Rightarrow> (ag2, Inr (res_bytes, sender_hex))
                        | Some (responder, answer) \<Rightarrow>
                            (ag2, Inr (as_bytes (case answer of None \<Rightarrow> [] | Some a \<Rightarrow> a),
                                       case responder of None \<Rightarrow> sender_hex | Some r \<Rightarrow> r))))))"

lemma rpc_authorised:
  assumes "execute_a2a_rpc E parse secs nanos nb ag env mesh = (ag', Inr ans)"
  shows "\<exists>hex grp. snd (verify_session_lineage E secs ag (a2a_sender_capability_cert env)
            (a2a_sender_public_key env)) = Inr (hex, grp)
     \<and> packet_admissible E secs nanos ag grp (a2a_sender_public_key env) (a2a_payload env)
         (a2a_signature env) (a2a_target_capability env) (a2a_timestamp env)"
proof -
  obtain ag1 r where v: "verify_session_lineage E secs ag (a2a_sender_capability_cert env)
      (a2a_sender_public_key env) = (ag1, r)" by fastforce
  obtain hex grp where r: "r = Inr (hex, grp)"
    using assms v by (cases r) (auto simp: execute_a2a_rpc_def Let_def)
  have "ag1 = ag" using v r by (auto simp: verify_session_lineage_def Let_def split: option.splits if_splits)
  obtain ag2 r2 where a: "authorize_packet_fast E secs nanos ag hex grp (a2a_sender_public_key env)
      (a2a_payload env) (a2a_signature env) (a2a_target_capability env) (a2a_timestamp env) = (ag2, r2)"
    by fastforce
  have "r2 = Inr ()"
    using assms v r a \<open>ag1 = ag\<close>
    by (cases r2) (auto simp: execute_a2a_rpc_def Let_def split: rust_fail.splits)
  with a authorize_split [OF a] v r show ?thesis by auto
qed

text \<open>
  A question goes out only for an authorised packet: whenever the call returns an answer, the
  certificate and the packet were accepted, under the identity of the certificate.
\<close>

theorem question_leaves_only_when_authorised:
  assumes "execute_a2a_rpc E parse secs nanos nb ag env mesh = (ag', Inr ans)"
  shows "\<exists>hex grp. snd (verify_session_lineage E secs ag (a2a_sender_capability_cert env)
            (a2a_sender_public_key env)) = Inr (hex, grp)
     \<and> packet_admissible E secs nanos ag grp (a2a_sender_public_key env) (a2a_payload env)
         (a2a_signature env) (a2a_target_capability env) (a2a_timestamp env)"
  by (rule rpc_authorised [OF assms])

section \<open>The quarantine listener\<close>

text \<open>
  The subscriber loop over the samples in order, each with the value of the switch when it
  arrives. The loop returns, for good, at the first sample that finds the switch off.
\<close>

fun quarantine_listener :: "ext \<Rightarrow> aegis \<Rightarrow> (bool \<times> bytes) list \<Rightarrow> aegis \<times> bool" where
  "quarantine_listener E ag [] = (ag, True)"
| "quarantine_listener E ag ((allow, payload) # samples) =
     (if \<not> allow then (ag, False)
      else (case x_quarantine_from E payload of
              Some rec \<Rightarrow> quarantine_listener E (assimilate_remote_quarantine ag rec) samples
            | None \<Rightarrow> quarantine_listener E ag samples))"

lemma listener_assimilates:
  "list_all fst samples \<Longrightarrow> quarantine_listener E ag samples =
     (foldl assimilate_remote_quarantine ag (List.map_filter (\<lambda>(_, p). x_quarantine_from E p) samples), True)"
  by (induction E ag samples rule: quarantine_listener.induct)
    (auto simp: List.map_filter_def split: option.splits)

text \<open>
  A sample that arrives while the switch is off ends the quarantine listener: every later record
  is ignored, also after the switch is on again.
\<close>

theorem switched_off_listener_never_resumes:
  "quarantine_listener E ag (before @ (False, p) # after) = quarantine_listener E ag (before @ [(False, p)])
   \<and> \<not> snd (quarantine_listener E ag (before @ (False, p) # after))"
  by (induction E ag before rule: quarantine_listener.induct) (auto split: option.splits)

section \<open>Foreign thoughts\<close>

definition last_segment :: "string \<Rightarrow> string" where
  "last_segment topic = rev (takeWhile (\<lambda>c. c \<noteq> CHR ''/'') (rev topic))"

definition foreign_thought ::
  "ext \<Rightarrow> ('d, 'v) crdt \<Rightarrow> string \<Rightarrow> 'd shard_registry \<times> system_event list \<Rightarrow> string \<Rightarrow> bytes
   \<Rightarrow> 'd shard_registry \<times> system_event list" where
  "foreign_thought E L my_node_id s topic payload =
     (let (rg, bus) = s in
      if last_segment topic = my_node_id then (rg, bus)
      else (case x_oplog_access E payload of
              None \<Rightarrow> (rg, bus)
            | Some log \<Rightarrow>
                if verify_foreign_thoughts E log then
                  (let ns = ol_namespace log;
                       (rg1, brain) = get_or_create_brain L rg ns;
                       (doc, _) = assimilate_foreign_thought L (sh_doc brain) (ol_delta log)
                   in (drop_clone (update_doc rg1 ns doc) ns, bus))
                else (rg, bus @ [SecurityBreach (x_hex_encode E (ol_agent_id log))
                        ''Forged thought detected on global network - Markle Hash Mismatch ''
                        (st_text (ol_state log))])))"

text \<open>
  A foreign thought changes the shards only when it is not an echo of this node and its leaf
  hash matches its delta and its agent; then only the shard of its namespace is touched. A
  mismatch is reported on the bus.
\<close>

theorem foreign_thought_is_checked:
  assumes "foreign_thought E L me (rg, bus) topic payload = (rg', bus')"
  shows "(rg' \<noteq> rg \<longrightarrow> last_segment topic \<noteq> me \<and> (\<exists>log. x_oplog_access E payload = Some log
            \<and> verify_foreign_thoughts E log
            \<and> (\<forall>ns. ns \<noteq> ol_namespace log \<longrightarrow> map_of (rg_shards rg') ns = map_of (rg_shards rg) ns)))
     \<and> (last_segment topic \<noteq> me \<longrightarrow> (\<forall>log. x_oplog_access E payload = Some log \<longrightarrow>
           \<not> verify_foreign_thoughts E log \<longrightarrow> rg' = rg \<and> length bus' = length bus + 1))"
  using assms
  by (auto simp: foreign_thought_def Let_def get_or_create_brain_def get_pass_def insert_pass_def
      swarm_state_new_def update_doc_def drop_clone_def split: if_splits option.splits prod.splits)

section \<open>Serving a capability\<close>

text \<open>
  One incoming query of \<open>register_agent_capability\<close>: \<open>handler\<close> is the registered closure with
  its state. The source invokes it and replies inside the accepting branch and again after the
  match; the second reply is unwrapped.
\<close>

definition capability_query ::
  "ext \<Rightarrow> u64 \<Rightarrow> u64 \<Rightarrow> ('h \<Rightarrow> bytes \<Rightarrow> 'h \<times> bytes) \<Rightarrow> bool \<Rightarrow> aegis \<times> 'h \<times> bytes list \<Rightarrow> bytes option
   \<Rightarrow> (aegis \<times> 'h \<times> bytes list) \<times> unit res" where
  "capability_query E secs nanos handler second_reply_ok s query =
     (let (ag, h, replies) = s in
      case query of
        None \<Rightarrow> (s, Inr ())
      | Some payload_bytes \<Rightarrow>
          (let env = x_a2a_unchecked E payload_bytes in
           case verify_session_lineage E secs ag (a2a_sender_capability_cert env) (a2a_sender_public_key env) of
             (ag1, Inl e) \<Rightarrow> ((ag1, h, replies), Inr ())
           | (ag1, Inr (agent_hex, group_name)) \<Rightarrow>
               (case authorize_packet_fast E secs nanos ag1 agent_hex group_name (a2a_sender_public_key env)
                       (a2a_payload env) (a2a_signature env) (a2a_target_capability env) (a2a_timestamp env) of
                  (ag2, Inl (Panic p)) \<Rightarrow> ((ag2, h, replies), Inl (Panic p))
                | (ag2, Inl (Err e)) \<Rightarrow> ((ag2, h, replies), Inr ())
                | (ag2, Inr _) \<Rightarrow>
                    (let (h1, answer1) = handler h (a2a_payload env);
                         (h2, answer2) = handler h1 (a2a_payload env)
                     in if second_reply_ok then ((ag2, h2, replies @ [answer1, answer2]), Inr ())
                        else ((ag2, h2, replies @ [answer1]), Inl (Panic ''reply failed''))))))"

lemma lineage_ok_same:
  "verify_session_lineage E secs ag cert pub = (ag', Inr x) \<Longrightarrow> ag' = ag"
  by (auto simp: verify_session_lineage_def Let_def split: option.splits if_splits)

text \<open>
  Every accepted question runs the registered handler twice and is answered twice, with the
  answers of both runs.
\<close>

theorem accepted_question_runs_the_handler_twice:
  assumes "env = x_a2a_unchecked E payload"
    and "snd (verify_session_lineage E secs ag (a2a_sender_capability_cert env) (a2a_sender_public_key env))
           = Inr (hex, grp)"
    and "packet_admissible E secs nanos ag grp (a2a_sender_public_key env) (a2a_payload env)
           (a2a_signature env) (a2a_target_capability env) (a2a_timestamp env)"
  shows "\<exists>ag'. capability_query E secs nanos (\<lambda>n q. (n + 1, f n q)) True (ag, n, replies) (Some payload) =
     ((ag', n + 1 + 1, replies @ [f n (a2a_payload env), f (n + 1) (a2a_payload env)]), Inr ())"
proof -
  obtain ag1 where v: "verify_session_lineage E secs ag (a2a_sender_capability_cert env)
      (a2a_sender_public_key env) = (ag1, Inr (hex, grp))" using assms(2) by (metis prod.collapse)
  then have [simp]: "ag1 = ag" by (rule lineage_ok_same)
  obtain ag2 r where a: "authorize_packet_fast E secs nanos ag hex grp (a2a_sender_public_key env)
      (a2a_payload env) (a2a_signature env) (a2a_target_capability env) (a2a_timestamp env) = (ag2, r)"
    by fastforce
  have "r = Inr ()" using authorize_split [OF a] assms(3) by simp
  then show ?thesis using v a unfolding assms(1) by (simp add: capability_query_def Let_def)
qed

section \<open>Concrete exchanges\<close>

definition demo_question :: a2a_envelope where
  "demo_question = \<lparr>a2a_sender_id = zeros 16, a2a_sender_public_key = demo_agent_pub,
     a2a_target_capability = ''/a/x'', a2a_payload = [1], a2a_signature = x_ed_sign demo [2] [1],
     a2a_sender_capability_cert = demo_cert, a2a_timestamp = 100\<rparr>"

lemma demo_question_simps [simp]:
  "a2a_sender_public_key demo_question = demo_agent_pub" "a2a_payload demo_question = [1]"
  "a2a_signature demo_question = x_ed_sign demo [2] [1]" "a2a_target_capability demo_question = ''/a/x''"
  "a2a_sender_capability_cert demo_question = demo_cert" "a2a_timestamp demo_question = 100"
  by (simp_all add: demo_question_def)

lemma accepted_question_runs_the_handler_twice_witness:
  "\<exists>ag'. capability_query demo 100 0 (\<lambda>n q. (n + 1, n # q)) True (demo_aegis [], 0, []) (Some (x_a2a_to demo demo_question)) =
     ((ag', 1 + 1, [[0, 1], [1, 1]]), Inr ())"
proof -
  have e: "demo_question = x_a2a_unchecked demo (x_a2a_to demo demo_question)"
    using rkyv_ok_unchecked(3) [OF demo_rkyv_ok] rkyv_ok_a2a [OF demo_rkyv_ok] by simp
  show ?thesis
    using accepted_question_runs_the_handler_twice [OF e, of 100 "demo_aegis []" demo_agent_hex "''g''" 0 "\<lambda>n q. n # q" 0 "[]"]
      demo_packet [of "[1]"] by (simp add: demo_lineage)
qed

lemma question_leaves_only_when_authorised_witness:
  "packet_admissible demo 100 0 (demo_aegis []) ''g'' demo_agent_pub [1] (x_ed_sign demo [2] [1]) ''/a/x'' 100"
proof -
  let ?run = "execute_a2a_rpc demo (\<lambda>_. None) 100 0 (network_new ''t'' ''s'' ''n'' True True True) (demo_aegis [])
      demo_question (\<lambda>_ _ _. Sample_Reply [7])"
  obtain ag2 r2 where a: "authorize_packet_fast demo 100 0 (demo_aegis []) demo_agent_hex ''g'' demo_agent_pub
      [1] (x_ed_sign demo [2] [1]) ''/a/x'' 100 = (ag2, r2)" by fastforce
  have "r2 = Inr ()" using authorize_split [OF a] demo_packet [of "[1]"] by simp
  then have "?run = (ag2, Inr ([7], x_hex_encode demo (a2a_sender_id demo_question)))"
    using a by (simp add: execute_a2a_rpc_def demo_lineage Let_def)
  from question_leaves_only_when_authorised [OF this] show ?thesis by (auto simp: demo_lineage)
qed

lemma foreign_thought_is_checked_witness:
  "last_segment ''t/n'' \<noteq> ''m'' \<and> (\<exists>rg bus. foreign_thought demo demo_crdt ''m'' (shard_registry_new, []) ''t/n'' [] = (rg, bus)
     \<and> (rg \<noteq> shard_registry_new \<longrightarrow> (\<exists>log. x_oplog_access demo [] = Some log \<and> verify_foreign_thoughts demo log)))"
proof -
  obtain rg bus where f: "foreign_thought demo demo_crdt ''m'' (shard_registry_new, []) ''t/n'' [] = (rg, bus)" by fastforce
  from foreign_thought_is_checked [OF this] have
    "rg \<noteq> shard_registry_new \<longrightarrow> (\<exists>log. x_oplog_access demo [] = Some log \<and> verify_foreign_thoughts demo log)" by blast
  moreover have "last_segment ''t/n'' \<noteq> ''m''" by (simp add: last_segment_def)
  ultimately show ?thesis using f by blast
qed

end
