(* ===== verification/Wal.thy ===== *)
theory Wal
  imports Merkle
begin

text \<open>
  The write-ahead log of src/raqim-core/src/nucleus.rs: the frame format, the batch writer with
  its I/O faults, the torn-frame recovery, the worker's event loop, and the readers that scan
  the raw file. The file is a byte list with the cursor of the open handle. A frame is a
  little-endian length, a CRC32 and the rkyv bytes of a batch of logs.
\<close>

section \<open>Frames and the batch writer\<close>

definition wal_payload :: "ext \<Rightarrow> op_log list \<Rightarrow> bytes" where
  "wal_payload E batch = x_oplogs_to E batch"

definition len_prefix :: "ext \<Rightarrow> op_log list \<Rightarrow> bytes" where
  "len_prefix E batch = u32_to_le (word_of_nat (length (wal_payload E batch)))"

definition crc_bytes :: "ext \<Rightarrow> op_log list \<Rightarrow> bytes" where
  "crc_bytes E batch = u32_to_le (x_crc32 E (wal_payload E batch))"

definition wal_frame :: "ext \<Rightarrow> op_log list \<Rightarrow> bytes" where
  "wal_frame E batch = len_prefix E batch @ crc_bytes E batch @ wal_payload E batch"

text \<open>The worker: the open file, its cursor, the offset counter, the index and the channel.\<close>

record wal =
  wal_file :: bytes
  wal_pos :: nat
  wal_offset :: nat
  wal_index :: "(u128 \<times> nat) list"
  wal_queue :: "op_log list"
  wal_segments :: "(string \<times> bytes) list"

text \<open>\<open>write_all\<close> at the cursor of the handle; it extends the file when it reaches past its end.\<close>

definition file_write :: "wal \<Rightarrow> bytes \<Rightarrow> wal" where
  "file_write w bs =
     w\<lparr>wal_file := take (wal_pos w) (wal_file w) @ zeros (wal_pos w - length (wal_file w)) @ bs
                    @ drop (wal_pos w + length bs) (wal_file w),
       wal_pos := wal_pos w + length bs\<rparr>"

text \<open>
  Where the disk fails: while writing the length, the checksum or the payload, of which the
  first \<open>n\<close> bytes still reach the file, or in the sync barrier.
\<close>

datatype io_fault = No_Fault | Len_Fault nat | Crc_Fault nat | Payload_Fault nat | Sync_Fault

definition write_batch_to_disk :: "ext \<Rightarrow> io_fault \<Rightarrow> wal \<Rightarrow> op_log list \<Rightarrow> wal" where
  "write_batch_to_disk E fault w batch =
     (if batch = [] then w
      else
        (let payload = wal_payload E batch in
         case fault of
           Len_Fault n \<Rightarrow> file_write w (take n (len_prefix E batch))
         | _ \<Rightarrow>
           (let w1 = file_write w (len_prefix E batch) in
            case fault of
              Crc_Fault n \<Rightarrow> file_write w1 (take n (crc_bytes E batch))
            | _ \<Rightarrow>
              (let w2 = file_write w1 (crc_bytes E batch) in
               case fault of
                 Payload_Fault n \<Rightarrow> file_write w2 (take n payload)
               | _ \<Rightarrow>
                 (let w3 = file_write w2 payload in
                  if fault = Sync_Fault then w3
                  else w3\<lparr>wal_index := AList.update (ol_txid (hd batch)) (wal_offset w3) (wal_index w3),
                          wal_offset := wal_offset w3 + (4 + 4 + length payload)\<rparr>)))))"

section \<open>Recovery\<close>

text \<open>
  The scan loop on the unread rest of the file. \<open>read_exact\<close> fails when fewer bytes are left
  than asked for.
\<close>

function scan_frames :: "ext \<Rightarrow> bytes \<Rightarrow> nat \<Rightarrow> (u128 \<times> nat) list \<Rightarrow> nat \<times> (u128 \<times> nat) list" where
  "scan_frames E rest offset index =
     (if length rest < 4 then (offset, index)
      else
        (let payload_len = unat (u32_from_le (take 4 rest)) in
         if length (drop 4 rest) < 4 then (offset, index)
         else
           (let expected_crc = u32_from_le (take 4 (drop 4 rest));
                body = drop 8 rest
            in if length body < payload_len then (offset, index)
               else
                 (let payload = take payload_len body in
                  if x_crc32 E payload \<noteq> expected_crc then (offset, index)
                  else
                    (let index' = (case x_oplogs_access E payload of
                                     None \<Rightarrow> index
                                   | Some batch \<Rightarrow>
                                       if batch \<noteq> [] then AList.update (ol_txid (hd batch)) offset index
                                       else index)
                     in scan_frames E (drop payload_len body) (offset + (4 + 4 + payload_len)) index')))))"
  by pat_completeness auto
termination
  by (relation "measure (\<lambda>(E, rest, offset, index). length rest)") auto

declare scan_frames.simps [simp del]

text \<open>
  \<open>recover_and_truncate_torn_frames\<close>: \<open>None\<close> is a file that does not exist; \<open>set_len\<close> may fail,
  which is only logged.
\<close>

definition recover_and_truncate_torn_frames ::
  "ext \<Rightarrow> bool \<Rightarrow> bytes option \<Rightarrow> bytes option \<times> nat \<times> (u128 \<times> nat) list" where
  "recover_and_truncate_torn_frames E set_len_ok file =
     (case file of
        None \<Rightarrow> (None, 0, [])
      | Some content \<Rightarrow>
          (let (offset, index) = scan_frames E content 0 [] in
           (Some (if set_len_ok then take offset content else content), offset, index)))"

text \<open>\<open>WalEngine::start\<close>: the handle is opened without seeking, so its cursor is 0.\<close>

definition wal_start :: "ext \<Rightarrow> bool \<Rightarrow> bytes option \<Rightarrow> wal" where
  "wal_start E set_len_ok file =
     (let (content, clean_offset, recovered_index) = recover_and_truncate_torn_frames E set_len_ok file in
      \<lparr>wal_file = (case content of None \<Rightarrow> [] | Some c \<Rightarrow> c), wal_pos = 0, wal_offset = clean_offset,
       wal_index = recovered_index, wal_queue = [], wal_segments = []\<rparr>)"

section \<open>The worker's event loop\<close>

definition batch_limit :: nat where
  "batch_limit = 6000"

definition channel_capacity :: nat where
  "channel_capacity = 100000"

text \<open>Path A: one received log and whatever else the channel holds, up to the batch limit.\<close>

definition drain_and_write :: "ext \<Rightarrow> io_fault \<Rightarrow> wal \<Rightarrow> wal" where
  "drain_and_write E fault w =
     (let batch = take batch_limit (wal_queue w) in
      write_batch_to_disk E fault (w\<lparr>wal_queue := drop batch_limit (wal_queue w)\<rparr>) batch)"

definition archived_name :: "string \<Rightarrow> u128 \<Rightarrow> string" where
  "archived_name fp timestamp = fp @ ''_'' @ fmt_nat (unat timestamp) @ ''.wal''"

text \<open>Path C: the segment is renamed and a fresh file opened; a failed rename changes nothing.\<close>

definition rotate_segment :: "string \<Rightarrow> u128 \<Rightarrow> bool \<Rightarrow> wal \<Rightarrow> wal \<times> string option" where
  "rotate_segment fp timestamp rename_ok w =
     (let name = archived_name fp timestamp in
      if \<not> rename_ok then (w, None)
      else (w\<lparr>wal_segments := AList.update name (wal_file w) (wal_segments w), wal_file := [],
              wal_pos := 0, wal_offset := 0, wal_index := []\<rparr>, Some name))"

definition wal_append :: "wal \<Rightarrow> op_log \<Rightarrow> wal" where
  "wal_append w log = w\<lparr>wal_queue := wal_queue w @ [log]\<rparr>"

definition get_pending_count :: "wal \<Rightarrow> nat" where
  "get_pending_count w = length (wal_index w)"

text \<open>
  The interleavings of the producers and the three branches of \<open>select!\<close>, with a label for what
  each step did; a producer waits while the channel is full. The group-commit tick leaves this
  state as it is.
\<close>

datatype wal_label = Appended op_log | Wrote "op_log list" io_fault | Ticked | Rotated "string option"

inductive wal_step :: "ext \<Rightarrow> string \<Rightarrow> wal \<Rightarrow> wal_label \<Rightarrow> wal \<Rightarrow> bool" for E fp where
  Append: "length (wal_queue w) < channel_capacity \<Longrightarrow> wal_step E fp w (Appended log) (wal_append w log)"
| Drain: "wal_queue w \<noteq> [] \<Longrightarrow>
    wal_step E fp w (Wrote (take batch_limit (wal_queue w)) fault) (drain_and_write E fault w)"
| Tick: "wal_step E fp w Ticked w"
| Rotate: "rotate_segment fp ts ok w = (w', name) \<Longrightarrow> wal_step E fp w (Rotated name) w'"

inductive_cases wal_stepE: "wal_step E fp w lab w'"

inductive wal_run :: "ext \<Rightarrow> string \<Rightarrow> wal \<Rightarrow> wal_label list \<Rightarrow> wal \<Rightarrow> bool" for E fp w where
  Run_Nil: "wal_run E fp w [] w"
| Run_Step: "wal_run E fp w labs w' \<Longrightarrow> wal_step E fp w' lab w'' \<Longrightarrow> wal_run E fp w (labs @ [lab]) w''"

section \<open>The readers of the raw file\<close>

text \<open>
  One entry of the zero-copy readers: a length, then that many bytes. A slice past the end of
  the mapping panics.
\<close>

definition read_entry :: "bytes \<Rightarrow> nat \<Rightarrow> (bytes \<times> nat) res" where
  "read_entry mmap cursor =
     (let len = unat (u32_from_le (take 4 (drop cursor mmap)));
          start = cursor + 4
      in case slice mmap start (start + len) of
           Inl e \<Rightarrow> Inl e
         | Inr payload \<Rightarrow> Inr (payload, start + len))"

lemma read_entry_advances: "read_entry mmap c = Inr (p, c') \<Longrightarrow> c < c' \<and> c' \<le> length mmap"
  by (auto simp: read_entry_def slice_def Let_def split: sum.splits if_splits)

definition one_f32 :: f32 where
  "one_f32 = 0x3f800000"

text \<open>
  \<open>lexical_scan\<close>; \<open>is_match\<close> is the automaton of the aho-corasick crate built for the query.
\<close>

function lexical_loop ::
  "ext \<Rightarrow> (string \<Rightarrow> bool) \<Rightarrow> string option \<Rightarrow> nat \<Rightarrow> bytes \<Rightarrow> nat \<Rightarrow> vault_search_result list
   \<Rightarrow> vault_search_result list res" where
  "lexical_loop E is_match ns_filter limit mmap cursor results =
     (if cursor < length mmap \<and> length results < limit then
        (if length mmap < cursor + 4 then Inr results
         else
           (case read_entry mmap cursor of
              Inl e \<Rightarrow> Inl e
            | Inr (payload, next) \<Rightarrow>
                (let log = x_oplog_unchecked E payload;
                     skip = (case ns_filter of None \<Rightarrow> False | Some f \<Rightarrow> f \<noteq> [] \<and> f \<noteq> ol_namespace log)
                 in if skip then lexical_loop E is_match ns_filter limit mmap next results
                    else if is_match (st_text (ol_state log)) then
                      (case st_agent_id (ol_state log) of
                         None \<Rightarrow> Inl (Panic ''called Option::unwrap() on a None value'')
                       | Some aid \<Rightarrow>
                           lexical_loop E is_match ns_filter limit mmap next
                             (results @ [\<lparr>vs_tx_id = ol_txid log, vs_agent_hex = x_hex_encode E aid,
                                vs_namespace = ol_namespace log, vs_payload = st_text (ol_state log),
                                vs_timestamp = fmt_i64 (st_timestamp (ol_state log)),
                                vs_source = ''HOT_WAL'', vs_similarity_score = one_f32\<rparr>]))
                    else lexical_loop E is_match ns_filter limit mmap next results)))
      else Inr results)"
  by pat_completeness auto
termination
  by (relation "measure (\<lambda>(E, m, f, l, mmap, cursor, r). length mmap - cursor)")
    (auto dest!: read_entry_advances)

declare lexical_loop.simps [simp del]

definition lexical_scan ::
  "ext \<Rightarrow> (string \<Rightarrow> bool) \<Rightarrow> string option \<Rightarrow> nat \<Rightarrow> bytes option \<Rightarrow> vault_search_result list res" where
  "lexical_scan E is_match ns_filter limit file =
     (case file of
        None \<Rightarrow> Inl (Err ''No such file or directory'')
      | Some mmap \<Rightarrow>
          (case lexical_loop E is_match ns_filter limit mmap 0 [] of
             Inl e \<Rightarrow> Inl e
           | Inr results \<Rightarrow> Inr (rev results)))"

text \<open>The loop of \<open>get_highest_tx_id\<close> on the unread rest of the file.\<close>

function highest_loop :: "ext \<Rightarrow> bytes \<Rightarrow> u128 \<Rightarrow> u128" where
  "highest_loop E rest highest =
     (if length rest < 4 then highest
      else
        (let payload_len = unat (u32_from_le (take 4 rest)) in
         if length (drop 4 rest) < payload_len then highest
         else highest_loop E (drop payload_len (drop 4 rest))
                (case x_oplog_access E (take payload_len (drop 4 rest)) of
                   None \<Rightarrow> highest
                 | Some log \<Rightarrow> if highest < ol_txid log then ol_txid log else highest)))"
  by pat_completeness auto
termination
  by (relation "measure (\<lambda>(E, rest, h). length rest)") auto

declare highest_loop.simps [simp del]

definition get_highest_tx_id :: "ext \<Rightarrow> bytes option \<Rightarrow> u128" where
  "get_highest_tx_id E file = (case file of None \<Rightarrow> 0 | Some content \<Rightarrow> highest_loop E content 0)"

function timeline_loop ::
  "ext \<Rightarrow> bytes \<Rightarrow> bytes \<Rightarrow> nat \<Rightarrow> timeline_node list \<Rightarrow> timeline_node list res" where
  "timeline_loop E target mmap cursor nodes =
     (if cursor < length mmap then
        (if length mmap < cursor + 4 then Inr nodes
         else
           (case read_entry mmap cursor of
              Inl e \<Rightarrow> Inl e
            | Inr (payload, next) \<Rightarrow>
                (let log = x_oplog_unchecked E payload in
                 timeline_loop E target mmap next
                   (if ol_agent_id log = target
                    then nodes @ [\<lparr>tn_tx_id = ol_txid log,
                       tn_timestamp = fmt_i64 (st_timestamp (ol_state log)),
                       tn_agent_status = debug_status (st_status (ol_state log)),
                       tn_payload_preview = st_text (ol_state log)\<rparr>]
                    else nodes))))
      else Inr nodes)"
  by pat_completeness auto
termination
  by (relation "measure (\<lambda>(E, t, mmap, cursor, n). length mmap - cursor)")
    (auto dest!: read_entry_advances)

declare timeline_loop.simps [simp del]

definition fetch_hot_timeline :: "ext \<Rightarrow> string \<Rightarrow> bytes option \<Rightarrow> timeline_node list res" where
  "fetch_hot_timeline E agent_hex file =
     (case file of
        None \<Rightarrow> Inr []
      | Some mmap \<Rightarrow>
          timeline_loop E (case x_hex_decode E agent_hex of None \<Rightarrow> zeros 16 | Some t \<Rightarrow> t) mmap 0 [])"

section \<open>Scanning frames\<close>

lemma wal_frame_length: "length (wal_frame E b) = 8 + length (wal_payload E b)"
  by (simp add: wal_frame_def len_prefix_def crc_bytes_def)

text \<open>A batch whose length fits the 32-bit prefix.\<close>

definition framed_ok :: "ext \<Rightarrow> op_log list \<Rightarrow> bool" where
  "framed_ok E b \<longleftrightarrow> b \<noteq> [] \<and> length (wal_payload E b) < 2 ^ 32"

lemma len_prefix_value:
  "length (wal_payload E b) < 2 ^ 32 \<Longrightarrow> unat (u32_from_le (len_prefix E b)) = length (wal_payload E b)"
  by (simp add: len_prefix_def unat_of_nat)

lemma frame_parts:
  "take 4 (wal_frame E b @ r) = len_prefix E b"
  "take 4 (drop 4 (wal_frame E b @ r)) = crc_bytes E b"
  "drop 8 (wal_frame E b @ r) = wal_payload E b @ r"
  by (simp_all add: wal_frame_def len_prefix_def crc_bytes_def)

lemma scan_stop_header: "length rest < 8 \<Longrightarrow> scan_frames E rest off idx = (off, idx)"
  by (subst scan_frames.simps) (auto simp: Let_def)

lemma scan_stop_payload:
  "length rest < 8 + unat (u32_from_le (take 4 rest)) \<Longrightarrow> scan_frames E rest off idx = (off, idx)"
  by (subst scan_frames.simps) (auto simp: Let_def)

lemma scan_go:
  assumes "8 \<le> length rest" and "drop 8 rest = payload @ r"
    and "unat (u32_from_le (take 4 rest)) = length payload"
    and "u32_from_le (take 4 (drop 4 rest)) = x_crc32 E payload"
  shows "scan_frames E rest off idx = scan_frames E r (off + (8 + length payload))
     (case x_oplogs_access E payload of None \<Rightarrow> idx
      | Some batch \<Rightarrow> if batch \<noteq> [] then AList.update (ol_txid (hd batch)) off idx else idx)"
proof -
  have "length rest = 8 + length payload + length r"
    using assms(1) arg_cong [OF assms(2), of length] by simp
  then show ?thesis
    unfolding scan_frames.simps [of E rest] Let_def using assms(2-4) by simp
qed

fun frame_index :: "ext \<Rightarrow> nat \<Rightarrow> (u128 \<times> nat) list \<Rightarrow> op_log list list \<Rightarrow> (u128 \<times> nat) list" where
  "frame_index E offset index [] = index"
| "frame_index E offset index (b # bs) =
     frame_index E (offset + length (wal_frame E b)) (AList.update (ol_txid (hd b)) offset index) bs"

lemma frame_index_append:
  "frame_index E off idx (bs @ [b]) =
     AList.update (ol_txid (hd b)) (off + length (concat (map (wal_frame E) bs))) (frame_index E off idx bs)"
  by (induction bs arbitrary: off idx) (simp_all add: add.assoc)

lemma scan_frame_step:
  assumes "rkyv_ok E" and "framed_ok E b"
  shows "scan_frames E (wal_frame E b @ r) off idx =
     scan_frames E r (off + length (wal_frame E b)) (AList.update (ol_txid (hd b)) off idx)"
proof -
  have n: "unat (u32_from_le (take 4 (wal_frame E b @ r))) = length (wal_payload E b)"
    using assms(2) unfolding frame_parts by (simp add: framed_ok_def len_prefix_value)
  have crc: "u32_from_le (take 4 (drop 4 (wal_frame E b @ r))) = x_crc32 E (wal_payload E b)"
    unfolding frame_parts by (simp add: crc_bytes_def)
  have "b \<noteq> []" using assms(2) by (simp add: framed_ok_def)
  then show ?thesis
    using scan_go [OF _ frame_parts(3) n crc] assms(1) by (simp add: wal_frame_length wal_payload_def)
qed

lemma scan_frames_complete:
  assumes "rkyv_ok E" and "\<forall>b \<in> set bs. framed_ok E b"
  shows "scan_frames E (concat (map (wal_frame E) bs) @ r) off idx =
     scan_frames E r (off + length (concat (map (wal_frame E) bs))) (frame_index E off idx bs)"
  using assms(2) by (induction bs arbitrary: off idx) (simp_all add: scan_frame_step [OF assms(1)] add.assoc)

text \<open>A frame that was cut anywhere stops the scan where it began.\<close>

lemma scan_torn_frame:
  assumes "length (wal_payload E b) < 2 ^ 32" and "k < length (wal_frame E b)"
  shows "scan_frames E (take k (wal_frame E b)) off idx = (off, idx)"
proof -
  let ?t = "take k (wal_frame E b)"
  have len: "length ?t = k" using assms(2) by simp
  show ?thesis
  proof (cases "k < 8")
    case True
    with len show ?thesis by (simp only: scan_stop_header)
  next
    case False
    then have "take 4 ?t = len_prefix E b"
      using frame_parts(1) [of E b "[]"] by (simp add: min_def)
    with len_prefix_value [OF assms(1)]
    have n: "unat (u32_from_le (take 4 ?t)) = length (wal_payload E b)" by simp
    have "k < 8 + length (wal_payload E b)" using assms(2) by (simp add: wal_frame_length)
    then show ?thesis by (intro scan_stop_payload) (simp only: len n)
  qed
qed

lemma scan_frames_Nil [simp]: "scan_frames E [] off idx = (off, idx)"
  by (simp add: scan_frames.simps)

lemma torn_log_recovery:
  assumes "rkyv_ok E" and "\<forall>b \<in> set (bs @ [torn]). framed_ok E b" and "k < length (wal_frame E torn)"
  shows "recover_and_truncate_torn_frames E True
           (Some (concat (map (wal_frame E) bs) @ take k (wal_frame E torn))) =
         (Some (concat (map (wal_frame E) bs)), length (concat (map (wal_frame E) bs)), frame_index E 0 [] bs)"
proof -
  have t: "length (wal_payload E torn) < 2 ^ 32" using assms(2) by (simp add: framed_ok_def)
  have bs: "\<forall>b \<in> set bs. framed_ok E b" using assms(2) by simp
  show ?thesis
    by (simp add: recover_and_truncate_torn_frames_def scan_frames_complete [OF assms(1) bs]
        scan_torn_frame [OF t assms(3)])
qed

text \<open>
  Crash recovery. A log of complete frames followed by a frame cut at any byte (a torn
  write) is truncated to exactly its complete frames: the clean offset is their length, and the
  index holds the offset of every complete batch under its first transaction id.
\<close>

theorem recovery_keeps_exactly_the_complete_frames:
  assumes "rkyv_ok E" and "\<forall>b \<in> set (bs @ [torn]). framed_ok E b" and "k < length (wal_frame E torn)"
  shows "recover_and_truncate_torn_frames E True
           (Some (concat (map (wal_frame E) bs) @ take k (wal_frame E torn))) =
         (Some (concat (map (wal_frame E) bs)), length (concat (map (wal_frame E) bs)), frame_index E 0 [] bs)"
  by (rule torn_log_recovery [OF assms])

lemma demo_framed_ok: "framed_ok demo [demo_log 1 ''a'' ''x'']"
  by (simp add: framed_ok_def wal_payload_def length_demo_oplogs)

lemma recovery_keeps_exactly_the_complete_frames_witness:
  "fst (recover_and_truncate_torn_frames demo True
     (Some (wal_frame demo [demo_log 1 ''a'' ''x''] @ take 5 (wal_frame demo [demo_log 1 ''a'' ''x''])))) =
   Some (wal_frame demo [demo_log 1 ''a'' ''x''])"
  using recovery_keeps_exactly_the_complete_frames [OF demo_rkyv_ok,
      of "[[demo_log 1 ''a'' ''x'']]" "[demo_log 1 ''a'' ''x'']" 5]
  by (simp add: demo_framed_ok wal_frame_length)

lemma scan_frames_prefix:
  "scan_frames E rest off idx = (o', i') \<Longrightarrow>
   off \<le> o' \<and> o' - off \<le> length rest \<and> scan_frames E (take (o' - off) rest) off idx = (o', i')"
proof (induction "length rest" arbitrary: rest off idx rule: less_induct)
  case less
  let ?n = "unat (u32_from_le (take 4 rest))"
  let ?p = "take ?n (drop 8 rest)"
  show ?case
  proof (cases "8 + ?n \<le> length rest \<and> x_crc32 E ?p = u32_from_le (take 4 (drop 4 rest))")
    case False
    then have "(o', i') = (off, idx)"
      using less.prems by (auto simp: scan_frames.simps [of E rest] Let_def split: if_splits)
    then show ?thesis by simp
  next
    case True
    then have len: "8 + ?n \<le> length rest" and crc: "u32_from_le (take 4 (drop 4 rest)) = x_crc32 E ?p"
      by simp_all
    let ?r = "drop ?n (drop 8 rest)"
    let ?i = "case x_oplogs_access E ?p of None \<Rightarrow> idx
      | Some batch \<Rightarrow> if batch \<noteq> [] then AList.update (ol_txid (hd batch)) off idx else idx"
    have p: "?n = length ?p" using len by simp
    have d: "drop 8 rest = ?p @ ?r" by (simp only: append_take_drop_id)
    have "8 \<le> length rest" using len by simp
    from scan_go [OF this d p crc]
    have step: "scan_frames E rest off idx = scan_frames E ?r (off + (8 + ?n)) ?i"
      by (simp only: p [symmetric])
    have "length ?r < length rest" using len by simp
    from less.hyps [OF this] less.prems step
    have ih: "off + (8 + ?n) \<le> o' \<and> o' - (off + (8 + ?n)) \<le> length ?r
      \<and> scan_frames E (take (o' - (off + (8 + ?n))) ?r) (off + (8 + ?n)) ?i = (o', i')"
      by simp
    let ?k = "o' - off"
    have k: "8 + ?n \<le> ?k" "?k \<le> length rest" using ih len by auto
    let ?t = "take ?k rest"
    have t: "take 4 ?t = take 4 rest" "take 4 (drop 4 ?t) = take 4 (drop 4 rest)" "8 \<le> length ?t"
      using k by (simp_all add: min_def drop_take)
    have "drop 8 ?t = take (?n + (?k - 8 - ?n)) (drop 8 rest)" using k by (simp add: drop_take)
    also have "\<dots> = ?p @ take (?k - 8 - ?n) ?r" by (rule take_add)
    finally have d': "drop 8 ?t = ?p @ take (?k - 8 - ?n) ?r" .
    have "?k - 8 - ?n = o' - (off + (8 + ?n))" by simp
    moreover have "scan_frames E ?t off idx = scan_frames E (take (?k - 8 - ?n) ?r) (off + (8 + length ?p)) ?i"
      by (rule scan_go [OF t(3) d']) (simp_all only: t(1,2) p [symmetric] crc)
    ultimately show ?thesis using ih k by (simp only: p [symmetric]) simp
  qed
qed

text \<open>
  Recovery is idempotent on every file: scanning the truncated file finds the same clean
  offset and the same index, so a second boot truncates nothing.
\<close>

theorem recovery_is_idempotent:
  "recover_and_truncate_torn_frames E ok' (fst (recover_and_truncate_torn_frames E True (Some content))) =
   recover_and_truncate_torn_frames E True (Some content)"
proof -
  obtain o' i' where s: "scan_frames E content 0 [] = (o', i')" by fastforce
  from scan_frames_prefix [OF this] have "scan_frames E (take o' content) 0 [] = (o', i')" by simp
  with s show ?thesis by (simp add: recover_and_truncate_torn_frames_def)
qed

section \<open>Runs of the worker\<close>

text \<open>The abstract log: what producers handed over, and the batches that were written.\<close>

definition appended_logs :: "wal_label list \<Rightarrow> op_log list" where
  "appended_logs labs = concat (map (\<lambda>x. case x of Appended l \<Rightarrow> [l] | _ \<Rightarrow> []) labs)"

definition written_logs :: "wal_label list \<Rightarrow> op_log list" where
  "written_logs labs = concat (map (\<lambda>x. case x of Wrote b _ \<Rightarrow> b | _ \<Rightarrow> []) labs)"

lemma labels_append:
  "appended_logs (a @ b) = appended_logs a @ appended_logs b"
  "written_logs (a @ b) = written_logs a @ written_logs b"
  by (simp_all add: appended_logs_def written_logs_def)

lemma write_batch_queue [simp]: "wal_queue (write_batch_to_disk E f w b) = wal_queue w"
  by (auto simp: write_batch_to_disk_def file_write_def Let_def split: io_fault.splits)

lemma write_batch_segments [simp]: "wal_segments (write_batch_to_disk E f w b) = wal_segments w"
  by (auto simp: write_batch_to_disk_def file_write_def Let_def split: io_fault.splits)

lemma step_queue:
  assumes "wal_step E fp w lab w'"
  shows "wal_queue w @ appended_logs [lab] = written_logs [lab] @ wal_queue w'"
  using assms by (cases rule: wal_step.cases)
    (auto simp: appended_logs_def written_logs_def wal_append_def drain_and_write_def rotate_segment_def
      Let_def split: if_splits)



text \<open>
  Refinement: as long as the disk does not fail, the file of the current segment is the
  concatenation of the frames written since the last rotation, the cursor and the offset are at
  its end, and the index is that of the frames.
\<close>

definition clean_wal :: "ext \<Rightarrow> op_log list list \<Rightarrow> wal \<Rightarrow> bool" where
  "clean_wal E bs w \<longleftrightarrow> wal_file w = concat (map (wal_frame E) bs) \<and> wal_pos w = length (wal_file w)
     \<and> wal_offset w = length (wal_file w) \<and> wal_index w = frame_index E 0 [] bs"

fun segment_batches :: "op_log list list \<Rightarrow> wal_label \<Rightarrow> op_log list list" where
  "segment_batches bs (Wrote b f) = bs @ [b]"
| "segment_batches bs (Rotated (Some name)) = []"
| "segment_batches bs lab = bs"

fun faultless :: "wal_label \<Rightarrow> bool" where
  "faultless (Wrote b f) = (f = No_Fault)"
| "faultless lab = True"

lemma clean_write:
  assumes "clean_wal E bs w" and "b \<noteq> []"
  shows "clean_wal E (bs @ [b]) (write_batch_to_disk E No_Fault w b)"
  using assms
  by (simp add: clean_wal_def write_batch_to_disk_def file_write_def Let_def frame_index_append
      wal_frame_def zeros_def len_prefix_def crc_bytes_def)

lemma clean_step:
  assumes "wal_step E fp w lab w'" and "clean_wal E bs w" and "faultless lab"
  shows "clean_wal E (segment_batches bs lab) w'"
  using assms(1)
proof (cases rule: wal_step.cases)
  case (Drain fault)
  have "clean_wal E bs (w\<lparr>wal_queue := drop batch_limit (wal_queue w)\<rparr>)"
    using assms(2) by (simp add: clean_wal_def)
  moreover have "take batch_limit (wal_queue w) \<noteq> []" using Drain by (simp add: batch_limit_def)
  ultimately show ?thesis using clean_write Drain assms(3) by (simp add: drain_and_write_def)
next
  case (Rotate ts ok name)
  then show ?thesis using assms(2)
    by (auto simp: rotate_segment_def Let_def clean_wal_def split: if_splits)
qed (use assms(2) in \<open>auto simp: clean_wal_def wal_append_def\<close>)



text \<open>What the disk holds when a write fails in any way: the old frames and a prefix of the new.\<close>

lemma faulty_write_prefix:
  assumes "clean_wal E bs w" and "b \<noteq> []"
  shows "\<exists>k \<le> length (wal_frame E b).
    wal_file (write_batch_to_disk E f w b) = concat (map (wal_frame E) bs) @ take k (wal_frame E b)
    \<and> (f = No_Fault \<or> f = Sync_Fault \<longrightarrow> k = length (wal_frame E b))"
proof -
  have w: "wal_file w = concat (map (wal_frame E) bs)" "wal_pos w = length (wal_file w)"
    using assms(1) by (simp_all add: clean_wal_def)
  have l: "length (len_prefix E b) = 4" "length (crc_bytes E b) = 4"
    by (simp_all add: len_prefix_def crc_bytes_def)
  note d = write_batch_to_disk_def file_write_def Let_def zeros_def wal_frame_def
  show ?thesis
  proof (cases f)
    case (Len_Fault n)
    with w l assms(2) show ?thesis by (intro exI [of _ "min n 4"]) (auto simp: d min_def)
  next
    case (Crc_Fault n)
    with w l assms(2) show ?thesis by (intro exI [of _ "4 + min n 4"]) (auto simp: d min_def)
  next
    case (Payload_Fault n)
    with w l assms(2) show ?thesis
      by (intro exI [of _ "8 + min n (length (wal_payload E b))"]) (auto simp: d min_def)
  qed (use w l assms(2) in \<open>auto intro!: exI [of _ "8 + length (wal_payload E b)"] simp: d\<close>)
qed

lemma crashed_write_recovers:
  assumes "rkyv_ok E" and "clean_wal E bs w" and "\<forall>c \<in> set (bs @ [b]). framed_ok E c"
  shows "\<exists>ds \<in> {bs, bs @ [b]}.
    recover_and_truncate_torn_frames E True (Some (wal_file (write_batch_to_disk E f w b))) =
      (Some (concat (map (wal_frame E) ds)), length (concat (map (wal_frame E) ds)), frame_index E 0 [] ds)
    \<and> (f = No_Fault \<longrightarrow> ds = bs @ [b])"
proof -
  have b: "b \<noteq> []" using assms(3) by (simp add: framed_ok_def)
  obtain k where k: "k \<le> length (wal_frame E b)"
    and fl: "wal_file (write_batch_to_disk E f w b) = concat (map (wal_frame E) bs) @ take k (wal_frame E b)"
    and full: "f = No_Fault \<or> f = Sync_Fault \<longrightarrow> k = length (wal_frame E b)"
    using faulty_write_prefix [OF assms(2) b] by blast
  show ?thesis
  proof (cases "k = length (wal_frame E b)")
    case True
    then have "wal_file (write_batch_to_disk E f w b) = concat (map (wal_frame E) (bs @ [b])) @ []"
      using fl by simp
    then show ?thesis using scan_frames_complete [OF assms(1,3), of "[]" 0 "[]"]
      by (intro bexI [of _ "bs @ [b]"]) (simp_all add: recover_and_truncate_torn_frames_def)
  next
    case False
    with k have "k < length (wal_frame E b)" by simp
    from torn_log_recovery [OF assms(1,3) this] False full show ?thesis
      by (intro bexI [of _ bs]) (auto simp: fl)
  qed
qed



section \<open>Restarting on a recovered log\<close>

text \<open>
  C35. After a restart on a log that is not empty, the next batch is written over the beginning
  of the log: the handle is opened at position 0 while the offset counter starts at the end of
  the recovered frames, so the first frames are overwritten and the index entry of the new
  batch points at bytes that are not its frame.
\<close>

theorem restart_overwrites_the_recovered_log:
  assumes "rkyv_ok E" and "\<forall>c \<in> set bs. framed_ok E c" and "b \<noteq> []"
    and "old = concat (map (wal_frame E) bs)"
    and "w = write_batch_to_disk E No_Fault (wal_start E True (Some old)) b"
  shows "wal_file w = wal_frame E b @ drop (length (wal_frame E b)) old
     \<and> map_of (wal_index w) (ol_txid (hd b)) = Some (length old)"
proof -
  have st: "wal_start E True (Some old) = \<lparr>wal_file = old, wal_pos = 0, wal_offset = length old,
      wal_index = frame_index E 0 [] bs, wal_queue = [], wal_segments = []\<rparr>"
    using scan_frames_complete [OF assms(1,2), of "[]" 0 "[]"]
    by (simp add: wal_start_def recover_and_truncate_torn_frames_def assms(4))
  show ?thesis
    using assms(3) unfolding assms(5) st
    by (simp add: write_batch_to_disk_def file_write_def Let_def wal_frame_def zeros_def
        len_prefix_def crc_bytes_def add.commute)
qed

lemma restart_overwrites_the_recovered_log_witness:
  "wal_file (write_batch_to_disk demo No_Fault
      (wal_start demo True (Some (wal_frame demo [demo_log 1 ''a'' ''x'']))) [demo_log 2 ''b'' ''y'']) =
   wal_frame demo [demo_log 2 ''b'' ''y'']"
  using restart_overwrites_the_recovered_log [OF demo_rkyv_ok, of "[[demo_log 1 ''a'' ''x'']]"
      "[demo_log 2 ''b'' ''y'']" "wal_frame demo [demo_log 1 ''a'' ''x'']", OF _ _ _ refl]
  by (simp add: demo_framed_ok wal_frame_length wal_payload_def length_demo_oplogs)

section \<open>What the readers see\<close>

lemma read_entry_frame:
  assumes "framed_ok E b"
  shows "read_entry (wal_frame E b @ r) 0 =
    Inr (take (length (wal_payload E b)) (crc_bytes E b @ wal_payload E b @ r), 4 + length (wal_payload E b))"
proof -
  have n: "unat (u32_from_le (take 4 (wal_frame E b @ r))) = length (wal_payload E b)"
    using assms unfolding frame_parts by (simp add: framed_ok_def len_prefix_value)
  have "drop 4 (wal_frame E b @ r) = crc_bytes E b @ wal_payload E b @ r"
    by (simp add: wal_frame_def len_prefix_def)
  moreover have "4 + length (wal_payload E b) \<le> length (wal_frame E b @ r)" by (simp add: wal_frame_length)
  ultimately show ?thesis using n by (simp add: read_entry_def slice_def Let_def)
qed

text \<open>
  The readers of the raw file do not agree with the writer: they skip no checksum, so on a
  log whose only content is one written batch the entry they take starts with the checksum, and
  the next length is read from the last four bytes of the batch; when these are not zero, the
  timeline reader panics.
\<close>

theorem timeline_reader_panics_on_a_written_log:
  assumes "framed_ok E b" and "4 \<le> length (wal_payload E b)"
    and "u32_from_le (drop (length (wal_payload E b) - 4) (wal_payload E b)) \<noteq> 0"
  shows "read_entry (wal_frame E b) 0 = Inr (crc_bytes E b @ take (length (wal_payload E b) - 4) (wal_payload E b),
            4 + length (wal_payload E b))
     \<and> fetch_hot_timeline E agent_hex (Some (wal_frame E b)) =
         Inl (Panic ''range end index out of range for slice'')"
proof -
  let ?n = "length (wal_payload E b)"
  let ?f = "wal_frame E b"
  have crc: "length (crc_bytes E b) = 4" by (simp add: crc_bytes_def)
  have first: "read_entry ?f 0 = Inr (crc_bytes E b @ take (?n - 4) (wal_payload E b), 4 + ?n)"
    using read_entry_frame [OF assms(1), of "[]"] assms(2) crc by simp
  have len: "length ?f = 8 + ?n" by (rule wal_frame_length)
  have "drop (4 + ?n) ?f = drop (?n - 4) (wal_payload E b)"
    using assms(2) crc by (simp add: wal_frame_def len_prefix_def)
  then have tail: "take 4 (drop (4 + ?n) ?f) = drop (?n - 4) (wal_payload E b)"
    using assms(2) by simp
  have "0 < unat (u32_from_le (drop (?n - 4) (wal_payload E b)))"
    using assms(3) by (simp add: unat_gt_0)
  then have second: "read_entry ?f (4 + ?n) = Inl (Panic ''range end index out of range for slice'')"
    using len unfolding read_entry_def tail Let_def by (simp add: slice_def)
  have "timeline_loop E t ?f (4 + ?n) nodes = Inl (Panic ''range end index out of range for slice'')" for t nodes
    using len second by (simp add: timeline_loop.simps [of E t ?f])
  then have "fetch_hot_timeline E agent_hex (Some ?f) = Inl (Panic ''range end index out of range for slice'')"
    using len first by (simp add: fetch_hot_timeline_def timeline_loop.simps [of E _ ?f 0] Let_def)
  with first show ?thesis by simp
qed

definition demo_log_resp :: op_log where
  "demo_log_resp = (demo_log 1 ''a'' ''x'')\<lparr>ol_network_responses := [''x'']\<rparr>"

lemma demo_payload_resp:
  "wal_payload demo [demo_log_resp] = put_nat 1 @ put_bytes (zeros 16) @ put_state (ol_state demo_log_resp)
     @ put_bytes [120] @ put_bytes (zeros 32) @ put_bytes (zeros 32) @ [0] @ [1, 0, 1, 0, 120]"
  by (simp add: wal_payload_def demo_def demo_log_resp_def demo_log_def put_list_def put_oplog_def
      put_str_def put_bytes_def as_bytes_def)

lemma timeline_reader_panics_on_a_written_log_witness:
  "fetch_hot_timeline demo ''00'' (Some (wal_frame demo [demo_log_resp])) =
     Inl (Panic ''range end index out of range for slice'')"
proof -
  let ?p = "wal_payload demo [demo_log_resp]"
  have len: "length ?p = 214" unfolding demo_payload_resp
    by (simp add: put_state_def demo_log_resp_def demo_log_def)
  have "drop (length ?p - 4) ?p = [0, 1, 0, 120]"
    using len unfolding demo_payload_resp by (simp add: put_state_def demo_log_resp_def demo_log_def)
  moreover have "u32_from_le [0, 1, 0, 120] \<noteq> 0" by (simp add: u32_from_le_def)
  moreover have "framed_ok demo [demo_log_resp]" using len by (simp add: framed_ok_def)
  ultimately show ?thesis
    using timeline_reader_panics_on_a_written_log [of demo "[demo_log_resp]"] len by simp
qed

text \<open>A result a lexical scan may give.\<close>

definition hit_ok :: "(string \<Rightarrow> bool) \<Rightarrow> string option \<Rightarrow> vault_search_result \<Rightarrow> bool" where
  "hit_ok is_match ns_filter v \<longleftrightarrow> is_match (vs_payload v) \<and> vs_source v = ''HOT_WAL''
     \<and> (case ns_filter of None \<Rightarrow> True | Some f \<Rightarrow> f = [] \<or> vs_namespace v = f)"

lemma lexical_loop_ok:
  "lexical_loop E m f limit mmap c acc = Inr res \<Longrightarrow> length acc \<le> limit \<Longrightarrow> list_all (hit_ok m f) acc \<Longrightarrow>
   length res \<le> limit \<and> list_all (hit_ok m f) res"
proof (induction E m f limit mmap c acc rule: lexical_loop.induct)
  case (1 E m f limit mmap c acc)
  show ?case
  proof (cases "c < length mmap \<and> length acc < limit \<and> \<not> length mmap < c + 4")
    case False
    with "1.prems" show ?thesis by (auto simp: lexical_loop.simps [of E m f limit mmap c acc] split: if_splits)
  next
    case True
    then have g: "c < length mmap \<and> length acc < limit" "\<not> length mmap < c + 4" by simp_all
    show ?thesis
    proof (cases "read_entry mmap c")
      case (Inl e)
      with "1.prems" g show ?thesis by (simp add: lexical_loop.simps [of E m f limit mmap c acc])
    next
      case (Inr pn)
      obtain p n where pn: "pn = (p, n)" by fastforce
      note ih = "1.IH" [OF g Inr pn [symmetric] refl refl]
      show ?thesis
        using "1.prems" g Inr pn ih
        by (subst (asm) lexical_loop.simps)
          (auto simp: Let_def hit_ok_def split: if_splits option.splits)
    qed
  qed
qed

text \<open>
  When \<open>lexical_scan\<close> returns, it returns at most \<open>limit\<close> results, each of them a text the
  automaton matches, in the requested namespace when a filter is given.
\<close>

theorem lexical_scan_is_bounded_and_filtered:
  assumes "lexical_scan E is_match ns_filter limit content = Inr results"
  shows "length results \<le> limit \<and> list_all (hit_ok is_match ns_filter) results"
proof -
  obtain mmap acc where "lexical_loop E is_match ns_filter limit mmap 0 [] = Inr acc" "results = rev acc"
    using assms by (auto simp: lexical_scan_def split: option.splits sum.splits)
  with lexical_loop_ok [of E is_match ns_filter limit mmap 0 "[]" acc] show ?thesis
    by (simp add: list_all_iff)
qed

lemma lexical_scan_is_bounded_and_filtered_witness:
  "length ([] :: vault_search_result list) \<le> 5"
proof -
  have "lexical_scan demo (\<lambda>_. True) None 5 (Some []) = Inr []"
    by (simp add: lexical_scan_def lexical_loop.simps)
  from lexical_scan_is_bounded_and_filtered [OF this] show ?thesis by simp
qed

end
