(* ===== verification/Cascade.thy ===== *)
theory Cascade
  imports Network Wal
begin

text \<open>
  The thought cascade of src/raqim-core/src/lib.rs (\<open>execute_raqim_cascade\<close>): one accepted agent
  state becomes a CRDT entry, a sealed log, a WAL record, a packet for the local cortex, a packet
  for the mesh and an event. The node is the record of the components it touches. A cascade runs
  to its end as one step here; the waits on full channels are not failures. The transaction id
  (a UUIDv7) and the clock are arguments.
\<close>

record 'd node =
  nd_axon :: axon
  nd_shards :: "'d shard_registry"
  nd_wal :: wal
  nd_cortex :: "bytes list"
  nd_net :: network
  nd_bus :: "system_event list"
  nd_aegis :: aegis
  nd_procs :: process_table
  nd_ui :: "ui_event list"

definition enriched_state :: "u64 \<Rightarrow> u128 \<Rightarrow> bytes \<Rightarrow> agent_state \<Rightarrow> agent_state" where
  "enriched_state now tx_id final_agent_id st =
     \<lparr>st_agent_id = Some final_agent_id, st_transaction_id = tx_id, st_timestamp = now,
      st_status = st_status st, st_text = st_text st, st_namespace = st_namespace st\<rparr>"

definition raw_log :: "bytes \<Rightarrow> agent_state \<Rightarrow> bytes \<Rightarrow> u64 list \<Rightarrow> string list \<Rightarrow> op_log" where
  "raw_log final_agent_id enriched delta seeds responses =
     \<lparr>ol_agent_id = final_agent_id, ol_state = enriched, ol_delta = delta, ol_previous_hash = zeros 32,
      ol_current_hash = zeros 32, ol_entropy_seeds = seeds, ol_network_responses = responses\<rparr>"

text \<open>The publishing half of the cascade, for a sealed log and the batch it may have completed.\<close>

definition publish_sealed ::
  "ext \<Rightarrow> 'd node \<Rightarrow> string \<Rightarrow> u128 \<Rightarrow> op_log \<Rightarrow> markle_batch option \<Rightarrow> 'd node" where
  "publish_sealed E nd agent_hex tx_id sealed_log optional_batch =
     nd\<lparr>nd_wal := wal_append (nd_wal nd) sealed_log,
        nd_cortex := nd_cortex nd @ [x_oplog_to E sealed_log],
        nd_net := broadcast_to_world E (nd_net nd) sealed_log,
        nd_bus := nd_bus nd
          @ (case optional_batch of None \<Rightarrow> [] | Some batch \<Rightarrow> [MarkleBatchCrystallized batch])
          @ [ThoughtCommitted agent_hex (fmt_032x tx_id) (ol_namespace sealed_log) (st_text (ol_state sealed_log))]\<rparr>"

definition execute_raqim_cascade ::
  "ext \<Rightarrow> ('d, 'v) crdt \<Rightarrow> u64 \<Rightarrow> u128 \<Rightarrow> 'd node \<Rightarrow> agent_state \<Rightarrow> u64 list \<Rightarrow> string list
   \<Rightarrow> 'd node \<times> u128 res" where
  "execute_raqim_cascade E L now tx_id nd st seeds responses =
     (let anonymous = (nd, Inl (Err ''Agent ID is required to merge thought'')) in
      case st_agent_id st of
        None \<Rightarrow> anonymous
      | Some final_agent_id \<Rightarrow>
          if final_agent_id = zeros 16 then anonymous
          else
            (let agent_hex = x_hex_encode E final_agent_id;
                 enriched = enriched_state now tx_id final_agent_id st;
                 ns = st_namespace enriched;
                 (rg1, brain) = get_or_create_brain L (nd_shards nd) ns;
                 (doc, r) = append_agent_thought L (sh_doc brain) agent_hex enriched;
                 nd1 = nd\<lparr>nd_shards := drop_clone (update_doc rg1 ns doc) ns\<rparr>
             in case r of
                  Inl e \<Rightarrow> (nd1, Inl (Panic ''called Result::unwrap() on an Err value''))
                | Inr delta \<Rightarrow>
                    (let (ax, sealed_log, optional_batch) =
                           seal_thought E (nd_axon nd1) (raw_log final_agent_id enriched delta seeds responses)
                     in (publish_sealed E (nd1\<lparr>nd_axon := ax\<rparr>) agent_hex tx_id sealed_log optional_batch,
                         Inr tx_id))))"

definition named_agent :: "agent_state \<Rightarrow> bytes \<Rightarrow> bool" where
  "named_agent st aid \<longleftrightarrow> st_agent_id st = Some aid \<and> aid \<noteq> zeros 16"

lemma cascade_anonymous:
  "\<not> (\<exists>aid. named_agent st aid) \<Longrightarrow> execute_raqim_cascade E L now tx nd st seeds resp =
     (nd, Inl (Err ''Agent ID is required to merge thought''))"
  by (auto simp: execute_raqim_cascade_def named_agent_def Let_def split: option.splits)

text \<open>
  The cascade of a named agent on a lawful document: the delta exists, and the node is the
  published one for the log the gatekeeper sealed.
\<close>

lemma cascade_named:
  assumes "crdt_ok L" and "named_agent st aid"
  shows "\<exists>rg delta ax log bo.
     execute_raqim_cascade E L now tx nd st seeds resp =
       (publish_sealed E (nd\<lparr>nd_shards := rg, nd_axon := ax\<rparr>) (x_hex_encode E aid) tx log bo, Inr tx)
     \<and> seal_thought E (nd_axon nd) (raw_log aid (enriched_state now tx aid st) delta seeds resp) = (ax, log, bo)"
proof -
  let ?en = "enriched_state now tx aid st"
  obtain rg1 brain where g: "get_or_create_brain L (nd_shards nd) (st_namespace ?en) = (rg1, brain)" by fastforce
  obtain doc delta where a: "append_agent_thought L (sh_doc brain) (x_hex_encode E aid) ?en = (doc, Inr delta)"
    using append_one_timeline [OF assms(1)] by blast
  obtain ax log bo where s: "seal_thought E (nd_axon nd) (raw_log aid ?en delta seeds resp) = (ax, log, bo)"
    by (metis prod.exhaust)
  show ?thesis
    using assms(2) g a s
    by (intro exI conjI) (auto simp: execute_raqim_cascade_def named_agent_def Let_def)
qed

lemma seal_thought_sealed:
  assumes "seal_thought E ax log = (ax', log', bo)"
  shows "ol_state log' = ol_state log \<and> ol_delta log' = ol_delta log \<and> ol_agent_id log' = ol_agent_id log
     \<and> ol_entropy_seeds log' = ol_entropy_seeds log \<and> ol_network_responses log' = ol_network_responses log
     \<and> ol_current_hash log' = leaf_of E log"
  using seal_thought_log [of E ax log] assms by auto

lemma cascade_one_log:
  assumes "crdt_ok L" and "named_agent st aid"
    and "execute_raqim_cascade E L now tx nd st seeds resp = (nd', r)"
  shows "r = Inr tx \<and> (\<exists>log. wal_queue (nd_wal nd') = wal_queue (nd_wal nd) @ [log]
     \<and> nd_cortex nd' = nd_cortex nd @ [x_oplog_to E log]
     \<and> nb_egress (nd_net nd') = nb_egress (nd_net nd) @ [x_oplog_to E log]
     \<and> last (nd_bus nd') = ThoughtCommitted (x_hex_encode E aid) (fmt_032x tx) (st_namespace st) (st_text st)
     \<and> verify_foreign_thoughts E log
     \<and> ol_agent_id log = aid \<and> ol_txid log = tx \<and> ol_namespace log = st_namespace st
     \<and> st_text (ol_state log) = st_text st \<and> st_timestamp (ol_state log) = now
     \<and> ol_entropy_seeds log = seeds \<and> ol_network_responses log = resp)"
proof -
  obtain rg delta ax log bo where c: "execute_raqim_cascade E L now tx nd st seeds resp =
       (publish_sealed E (nd\<lparr>nd_shards := rg, nd_axon := ax\<rparr>) (x_hex_encode E aid) tx log bo, Inr tx)"
    and s: "seal_thought E (nd_axon nd) (raw_log aid (enriched_state now tx aid st) delta seeds resp) = (ax, log, bo)"
    using cascade_named [OF assms(1,2)] by blast
  note l = seal_thought_sealed [OF s]
  show ?thesis
    using assms(3) c l
    by (auto simp: publish_sealed_def wal_append_def broadcast_to_world_def raw_log_def enriched_state_def
        verify_foreign_thoughts_def intro!: exI [of _ log])
qed

text \<open>
  One cascade, one log: on a lawful document the cascade of a named agent returns its
  transaction id, and the WAL, the local cortex and the mesh receive the same sealed log, which
  carries the agent, the namespace, the text and the replay data of the state, the new
  transaction id and time, and a leaf hash that passes the check other nodes apply.
\<close>

theorem cascade_publishes_one_sealed_log:
  assumes "crdt_ok L" and "named_agent st aid"
    and "execute_raqim_cascade E L now tx nd st seeds resp = (nd', r)"
  shows "r = Inr tx \<and> (\<exists>log. wal_queue (nd_wal nd') = wal_queue (nd_wal nd) @ [log]
     \<and> nd_cortex nd' = nd_cortex nd @ [x_oplog_to E log]
     \<and> nb_egress (nd_net nd') = nb_egress (nd_net nd) @ [x_oplog_to E log]
     \<and> last (nd_bus nd') = ThoughtCommitted (x_hex_encode E aid) (fmt_032x tx) (st_namespace st) (st_text st)
     \<and> verify_foreign_thoughts E log
     \<and> ol_agent_id log = aid \<and> ol_txid log = tx \<and> ol_namespace log = st_namespace st
     \<and> st_text (ol_state log) = st_text st \<and> st_timestamp (ol_state log) = now
     \<and> ol_entropy_seeds log = seeds \<and> ol_network_responses log = resp)"
  by (rule cascade_one_log [OF assms])

definition demo_node :: "(string \<times> crdt_entry list) list node" where
  "demo_node = \<lparr>nd_axon = axon_new, nd_shards = shard_registry_new, nd_wal = wal_start demo True None,
     nd_cortex = [], nd_net = network_new ''t'' ''s'' ''n'' True True True, nd_bus = [],
     nd_aegis = demo_aegis [], nd_procs = [], nd_ui = []\<rparr>"

definition demo_state :: "bytes \<Rightarrow> string \<Rightarrow> string \<Rightarrow> agent_state" where
  "demo_state aid ns msg = \<lparr>st_agent_id = Some aid, st_transaction_id = 0, st_timestamp = 100,
     st_status = Reasoning, st_text = msg, st_namespace = ns\<rparr>"

lemma demo_named: "named_agent (demo_state (replicate 16 1) ns msg) (replicate 16 1)"
  by (simp add: named_agent_def demo_state_def zeros_def)

lemma cascade_publishes_one_sealed_log_witness:
  "snd (execute_raqim_cascade demo demo_crdt 100 5 demo_node (demo_state (replicate 16 1) ''a'' ''x'') [] []) = Inr 5"
proof -
  obtain nd' r where r: "execute_raqim_cascade demo demo_crdt 100 5 demo_node
      (demo_state (replicate 16 1) ''a'' ''x'') [] [] = (nd', r)" by fastforce
  from cascade_publishes_one_sealed_log [OF demo_crdt_ok demo_named r] r show ?thesis by simp
qed

section \<open>Runs of cascades\<close>

text \<open>
  The states of a run with the clock and the transaction id each cascade draws. The ledger of
  the node goes through the same states as a run of the gatekeeper.
\<close>

fun cascade_run ::
  "ext \<Rightarrow> ('d, 'v) crdt \<Rightarrow> 'd node \<Rightarrow> (u64 \<times> u128 \<times> agent_state) list \<Rightarrow> 'd node \<times> u128 res list" where
  "cascade_run E L nd [] = (nd, [])"
| "cascade_run E L nd ((now, tx, st) # rest) =
     (let (nd1, r) = execute_raqim_cascade E L now tx nd st [] [];
          (nd2, rs) = cascade_run E L nd1 rest
      in (nd2, r # rs))"

lemma cascade_run_seals:
  assumes "crdt_ok L" and "list_all (\<lambda>(now, tx, st). \<exists>aid. named_agent st aid) inputs"
  shows "\<exists>logs. nd_axon (fst (cascade_run E L nd inputs)) = fst (seal_run E (nd_axon nd) logs)
     \<and> map ol_txid logs = map (\<lambda>(now, tx, st). tx) inputs
     \<and> list_all2 (\<lambda>(now, tx, st) l. named_agent st (ol_agent_id l)) inputs logs
     \<and> snd (cascade_run E L nd inputs) = map (\<lambda>(now, tx, st). Inr tx) inputs
     \<and> wal_queue (nd_wal (fst (cascade_run E L nd inputs))) =
         wal_queue (nd_wal nd) @ fst (snd (seal_run E (nd_axon nd) logs))"
  using assms(2)
proof (induction inputs arbitrary: nd)
  case Nil
  show ?case by (intro exI [of _ "[]"]) simp
next
  case (Cons i inputs)
  obtain now tx st where i: "i = (now, tx, st)" by (metis prod.exhaust)
  from Cons.prems i obtain aid where n: "named_agent st aid" by auto
  obtain rg delta ax log bo where c: "execute_raqim_cascade E L now tx nd st [] [] =
       (publish_sealed E (nd\<lparr>nd_shards := rg, nd_axon := ax\<rparr>) (x_hex_encode E aid) tx log bo, Inr tx)"
    and s: "seal_thought E (nd_axon nd) (raw_log aid (enriched_state now tx aid st) delta [] []) = (ax, log, bo)"
    using cascade_named [OF assms(1) n] by blast
  let ?nd1 = "publish_sealed E (nd\<lparr>nd_shards := rg, nd_axon := ax\<rparr>) (x_hex_encode E aid) tx log bo"
  have nd1: "nd_axon ?nd1 = ax" "wal_queue (nd_wal ?nd1) = wal_queue (nd_wal nd) @ [log]"
    by (simp_all add: publish_sealed_def wal_append_def)
  obtain logs where l: "nd_axon (fst (cascade_run E L ?nd1 inputs)) = fst (seal_run E ax logs)"
    "map ol_txid logs = map (\<lambda>(now, tx, st). tx) inputs"
    "list_all2 (\<lambda>(now, tx, st) l. named_agent st (ol_agent_id l)) inputs logs"
    "snd (cascade_run E L ?nd1 inputs) = map (\<lambda>(now, tx, st). Inr tx) inputs"
    "wal_queue (nd_wal (fst (cascade_run E L ?nd1 inputs))) =
        wal_queue (nd_wal nd) @ [log] @ fst (snd (seal_run E ax logs))"
    using Cons.IH [of ?nd1] Cons.prems i nd1 by auto
  let ?raw = "raw_log aid (enriched_state now tx aid st) delta [] []"
  obtain ax2 ls bs where r: "seal_run E ax logs = (ax2, ls, bs)" by (metis prod.exhaust)
  obtain nd2 rs where cr: "cascade_run E L ?nd1 inputs = (nd2, rs)" by fastforce
  show ?case
    using l i c s r cr n by (intro exI [of _ "?raw # logs"]) (simp add: raw_log_def enriched_state_def)
qed



end
