(* ===== verification/Tcp_Ingress.thy ===== *)
theory Tcp_Ingress
  imports Cascade
begin

text \<open>
  The TCP edge of src/raqim-core/src/main.rs: the framing of a connection, the session cache, the
  per-frame audit and the hand-over to the cascade. A connection is a byte stream; each frame
  that is handled draws one reading of the clock and one transaction id.
\<close>

section \<open>Framing\<close>

datatype frame_read = Closed | Oversized | Got_Frame bytes bytes

definition max_frame :: nat where
  "max_frame = 1024 * 1024"

text \<open>One length-prefixed frame and the unread rest; an incomplete read closes the connection.\<close>

definition read_frame :: "bytes \<Rightarrow> frame_read" where
  "read_frame stream =
     (if length stream < 4 then Closed
      else
        (let payload_len = unat (u32_from_le (take 4 stream)) in
         if max_frame < payload_len then Oversized
         else if length (drop 4 stream) < payload_len then Closed
         else Got_Frame (take payload_len (drop 4 stream)) (drop payload_len (drop 4 stream))))"

lemma read_frame_encoded:
  "length payload \<le> max_frame \<Longrightarrow>
   read_frame (u32_to_le (word_of_nat (length payload)) @ payload @ rest) = Got_Frame payload rest"
  by (simp add: read_frame_def max_frame_def Let_def unat_of_nat)

section \<open>The session and one frame\<close>

record tcp_session =
  ts_established :: bool
  ts_agent_hex :: string
  ts_group_name :: string
  ts_pub_key :: bytes

definition tcp_session_new :: tcp_session where
  "tcp_session_new = \<lparr>ts_established = False, ts_agent_hex = [], ts_group_name = [], ts_pub_key = zeros 32\<rparr>"

text \<open>How the handling of a frame ends: next frame, the socket dropped, or a panic of the task.\<close>

datatype frame_end = Next_Frame | Drop_Socket | Task_Panic string

record frame_clock =
  fc_secs :: u64
  fc_nanos :: u64
  fc_tx_id :: u128

text \<open>The session handshake of the first frame, the key comparison of the later ones.\<close>

definition establish ::
  "ext \<Rightarrow> u64 \<Rightarrow> aegis \<Rightarrow> tcp_session \<Rightarrow> ingress_envelope \<Rightarrow> aegis \<times> tcp_session option" where
  "establish E secs ag ss ing =
     (if \<not> ts_established ss then
        (case verify_session_lineage E secs ag (in_capability_cert ing) (in_public_key ing) of
           (ag1, Inl e) \<Rightarrow> (ag1, None)
         | (ag1, Inr (agent_hex, group_name)) \<Rightarrow>
             (ag1, Some \<lparr>ts_established = True, ts_agent_hex = agent_hex, ts_group_name = group_name,
                         ts_pub_key = in_public_key ing\<rparr>))
      else if in_public_key ing \<noteq> ts_pub_key ss then (ag, None)
      else (ag, Some ss))"

definition alias_prefix :: string where
  "alias_prefix = ''ALIAS=''"

text \<open>
  What happens to an authorised frame: a handshake frame with an alias registers the agent (and
  starts the hydration of its timeline in the background, which is a task of its own); any other
  frame runs the cascade and touches the process table.
\<close>

definition serve_frame ::
  "ext \<Rightarrow> ('d, 'v) crdt \<Rightarrow> frame_clock \<Rightarrow> 'd node \<Rightarrow> string \<Rightarrow> string \<Rightarrow> agent_state \<Rightarrow> 'd node \<times> frame_end" where
  "serve_frame E L ck nd agent_hex path_intent st =
     (if path_intent = ''/system/handshake'' \<and> starts_with (st_text st) alias_prefix then
        (nd\<lparr>nd_procs := touch_agent (fc_secs ck) (nd_procs nd) agent_hex path_intent ''Connected''
              (str_trim (replace alias_prefix [] (st_text st)))\<rparr>, Next_Frame)
      else
        (let alias = (if path_intent = ''/system/handshake'' then ''Unknown''
                      else case map_of (nd_procs nd) agent_hex of None \<Rightarrow> ''Unknown'' | Some p \<Rightarrow> ap_alias p);
             (nd1, res) = execute_raqim_cascade E L (fc_secs ck) (fc_tx_id ck) nd st [] []
         in case res of
              Inl (Panic p) \<Rightarrow> (nd1, Task_Panic p)
            | Inl (Err e) \<Rightarrow>
                (nd1\<lparr>nd_procs := touch_agent (fc_secs ck) (nd_procs nd1) agent_hex path_intent ''Active'' alias\<rparr>,
                 Next_Frame)
            | Inr tx_id \<Rightarrow>
                (nd1\<lparr>nd_procs := touch_agent (fc_secs ck) (nd_procs nd1) agent_hex path_intent ''Active'' alias,
                     nd_ui := nd_ui nd1 @ [UiThoughtCommitted agent_hex path_intent (fmt_032x tx_id) (st_text st)]\<rparr>,
                 Next_Frame)))"

definition tcp_frame ::
  "ext \<Rightarrow> ('d, 'v) crdt \<Rightarrow> frame_clock \<Rightarrow> 'd node \<Rightarrow> tcp_session \<Rightarrow> bytes \<Rightarrow> 'd node \<times> tcp_session \<times> frame_end" where
  "tcp_frame E L ck nd ss payload =
     (case x_ingress_access E payload of
        None \<Rightarrow> (nd, ss, Drop_Socket)
      | Some ing \<Rightarrow>
          (case x_state_access E (in_state_bytes ing) of
             None \<Rightarrow> (nd, ss, Drop_Socket)
           | Some st \<Rightarrow>
               (case establish E (fc_secs ck) (nd_aegis nd) ss ing of
                  (ag1, None) \<Rightarrow> (nd\<lparr>nd_aegis := ag1\<rparr>, ss, Drop_Socket)
                | (ag1, Some ss1) \<Rightarrow>
                    (case authorize_packet_fast E (fc_secs ck) (fc_nanos ck) ag1 (ts_agent_hex ss1)
                            (ts_group_name ss1) (in_public_key ing) (in_state_bytes ing) (in_signature ing)
                            (in_intent_path ing) (st_timestamp st) of
                       (ag2, Inl (Panic p)) \<Rightarrow> (nd\<lparr>nd_aegis := ag2\<rparr>, ss1, Task_Panic p)
                     | (ag2, Inl (Err e)) \<Rightarrow> (nd\<lparr>nd_aegis := ag2\<rparr>, ss1, Drop_Socket)
                     | (ag2, Inr _) \<Rightarrow>
                         (let (nd3, r) = serve_frame E L ck (nd\<lparr>nd_aegis := ag2\<rparr>) (ts_agent_hex ss1)
                                           (in_intent_path ing) st
                          in (nd3, ss1, r))))))"

text \<open>A connection: frames while the stream and the clock readings last.\<close>

fun tcp_connection ::
  "ext \<Rightarrow> ('d, 'v) crdt \<Rightarrow> 'd node \<Rightarrow> tcp_session \<Rightarrow> bytes \<Rightarrow> frame_clock list \<Rightarrow> 'd node \<times> frame_end" where
  "tcp_connection E L nd ss stream [] = (nd, Next_Frame)"
| "tcp_connection E L nd ss stream (ck # cks) =
     (case read_frame stream of
        Closed \<Rightarrow> (nd, Drop_Socket)
      | Oversized \<Rightarrow> (nd, Drop_Socket)
      | Got_Frame payload rest \<Rightarrow>
          (case tcp_frame E L ck nd ss payload of
             (nd1, ss1, Next_Frame) \<Rightarrow> tcp_connection E L nd1 ss1 rest cks
           | (nd1, ss1, r) \<Rightarrow> (nd1, r)))"

section \<open>What reaches the ledger\<close>

lemma serve_frame_aegis: "nd_aegis (fst (serve_frame E L ck nd hex path st)) = nd_aegis nd"
  by (auto simp: serve_frame_def execute_raqim_cascade_def publish_sealed_def Let_def
      split: prod.splits sum.splits option.splits rust_fail.splits)

text \<open>
  C11. No thought without authentication: a frame changes the ledger or the WAL queue only when it
  decodes, its session is bound to the key of the packet (opened now by a certificate of that
  key, or opened before with the same key), and the packet is admissible for the session's group.
\<close>

theorem only_authenticated_frames_reach_the_ledger:
  assumes "tcp_frame E L ck nd ss payload = (nd', ss', r)"
    and "nd_axon nd' \<noteq> nd_axon nd \<or> nd_wal nd' \<noteq> nd_wal nd"
  shows "\<exists>ing st ag. x_ingress_access E payload = Some ing \<and> x_state_access E (in_state_bytes ing) = Some st
     \<and> establish E (fc_secs ck) (nd_aegis nd) ss ing = (ag, Some ss')
     \<and> ts_pub_key ss' = in_public_key ing
     \<and> packet_admissible E (fc_secs ck) (fc_nanos ck) ag (ts_group_name ss') (in_public_key ing)
         (in_state_bytes ing) (in_signature ing) (in_intent_path ing) (st_timestamp st)"
proof -
  obtain ing where i: "x_ingress_access E payload = Some ing"
    using assms by (cases "x_ingress_access E payload") (auto simp: tcp_frame_def)
  obtain st where s: "x_state_access E (in_state_bytes ing) = Some st"
    using assms i by (cases "x_state_access E (in_state_bytes ing)") (auto simp: tcp_frame_def)
  obtain ag o1 where e: "establish E (fc_secs ck) (nd_aegis nd) ss ing = (ag, o1)" by fastforce
  obtain ss1 where o: "o1 = Some ss1"
    using assms i s e by (cases o1) (auto simp: tcp_frame_def)
  obtain ag2 r2 where a: "authorize_packet_fast E (fc_secs ck) (fc_nanos ck) ag (ts_agent_hex ss1)
      (ts_group_name ss1) (in_public_key ing) (in_state_bytes ing) (in_signature ing)
      (in_intent_path ing) (st_timestamp st) = (ag2, r2)" by fastforce
  have r2: "r2 = Inr ()" and ss': "ss' = ss1"
    using assms i s e o a by (cases r2; auto simp: tcp_frame_def split: rust_fail.splits prod.splits)+
  have "ts_pub_key ss1 = in_public_key ing"
    using e o by (auto simp: establish_def split: if_splits prod.splits sum.splits)
  then show ?thesis using i s e o ss' authorize_split [OF a] r2 by auto
qed

text \<open>Key drift on an open session drops the socket and commits nothing.\<close>

theorem key_drift_drops_the_socket:
  assumes "ts_established ss" and "x_ingress_access E payload = Some ing" and "in_public_key ing \<noteq> ts_pub_key ss"
  shows "tcp_frame E L ck nd ss payload = (nd, ss, Drop_Socket)"
  using assms by (auto simp: tcp_frame_def establish_def split: option.splits)

text \<open>
  The first frame of a connection whose certificate opens a session is served like a frame of
  the session it opens.
\<close>

lemma fresh_session_frame:
  assumes "x_ingress_access E payload = Some ing" and "x_state_access E (in_state_bytes ing) = Some st"
    and "verify_session_lineage E (fc_secs ck) (nd_aegis nd) (in_capability_cert ing) (in_public_key ing)
           = (nd_aegis nd, Inr (hex, grp))"
  shows "tcp_frame E L ck nd tcp_session_new payload = tcp_frame E L ck nd
     \<lparr>ts_established = True, ts_agent_hex = hex, ts_group_name = grp, ts_pub_key = in_public_key ing\<rparr> payload"
  using assms by (simp add: tcp_frame_def establish_def tcp_session_new_def)

lemma accepted_frame_commits:
  assumes "crdt_ok L" and "ts_established ss" and "ts_pub_key ss = in_public_key ing"
    and "x_ingress_access E payload = Some ing" and "x_state_access E (in_state_bytes ing) = Some st"
    and "named_agent st victim" and "in_intent_path ing \<noteq> ''/system/handshake''"
    and "packet_admissible E (fc_secs ck) (fc_nanos ck) (nd_aegis nd) (ts_group_name ss) (in_public_key ing)
           (in_state_bytes ing) (in_signature ing) (in_intent_path ing) (st_timestamp st)"
  shows "\<exists>nd' log. tcp_frame E L ck nd ss payload = (nd', ss, Next_Frame)
     \<and> wal_queue (nd_wal nd') = wal_queue (nd_wal nd) @ [log]
     \<and> ol_agent_id log = victim \<and> ol_namespace log = st_namespace st
     \<and> st_text (ol_state log) = st_text st"
proof -
  obtain ag2 r2 where a: "authorize_packet_fast E (fc_secs ck) (fc_nanos ck) (nd_aegis nd) (ts_agent_hex ss)
      (ts_group_name ss) (in_public_key ing) (in_state_bytes ing) (in_signature ing)
      (in_intent_path ing) (st_timestamp st) = (ag2, r2)" by fastforce
  have r2: "r2 = Inr ()" using authorize_split [OF a] assms(8) by simp
  let ?nd = "nd\<lparr>nd_aegis := ag2\<rparr>"
  obtain rg delta ax log bo where c: "execute_raqim_cascade E L (fc_secs ck) (fc_tx_id ck) ?nd st [] [] =
       (publish_sealed E (?nd\<lparr>nd_shards := rg, nd_axon := ax\<rparr>) (x_hex_encode E victim) (fc_tx_id ck) log bo,
        Inr (fc_tx_id ck))"
    and s: "seal_thought E (nd_axon ?nd)
       (raw_log victim (enriched_state (fc_secs ck) (fc_tx_id ck) victim st) delta [] []) = (ax, log, bo)"
    using cascade_named [OF assms(1,6), of E "fc_secs ck" "fc_tx_id ck" ?nd "[]" "[]"] by blast
  have "ol_agent_id log = victim" "ol_namespace log = st_namespace st" "st_text (ol_state log) = st_text st"
    using seal_thought_sealed [OF s] by (simp_all add: raw_log_def enriched_state_def)
  then show ?thesis
    using assms(2-5,7) a r2 c
    by (intro exI [of _ "fst (tcp_frame E L ck nd ss payload)"] exI [of _ log])
      (simp add: tcp_frame_def establish_def serve_frame_def Let_def publish_sealed_def wal_append_def)
qed

text \<open>
  C40. The identity of a committed thought is not the authenticated one: an accepted frame of an open
  session commits its thought under whatever agent id and namespace the state bytes name, since
  neither is compared with the session's agent or the authorised path.
\<close>

theorem accepted_frame_commits_under_any_identity:
  assumes "crdt_ok L" and "ts_established ss" and "ts_pub_key ss = in_public_key ing"
    and "x_ingress_access E payload = Some ing" and "x_state_access E (in_state_bytes ing) = Some st"
    and "named_agent st victim" and "in_intent_path ing \<noteq> ''/system/handshake''"
    and "packet_admissible E (fc_secs ck) (fc_nanos ck) (nd_aegis nd) (ts_group_name ss) (in_public_key ing)
           (in_state_bytes ing) (in_signature ing) (in_intent_path ing) (st_timestamp st)"
  shows "\<exists>nd' log. tcp_frame E L ck nd ss payload = (nd', ss, Next_Frame)
     \<and> wal_queue (nd_wal nd') = wal_queue (nd_wal nd) @ [log]
     \<and> ol_agent_id log = victim \<and> ol_namespace log = st_namespace st"
  using accepted_frame_commits [OF assms] by blast

section \<open>A concrete impersonation\<close>

definition demo_victim :: bytes where
  "demo_victim = replicate 16 9"

definition demo_ingress :: ingress_envelope where
  "demo_ingress =
     (let state_bytes = x_state_to demo (demo_state demo_victim ''/secret'' ''x'') in
      \<lparr>in_intent_path = ''/a/x'', in_public_key = demo_agent_pub,
       in_signature = x_ed_sign demo [2] state_bytes, in_state_bytes = state_bytes,
       in_capability_cert = demo_cert\<rparr>)"

definition demo_session :: tcp_session where
  "demo_session = \<lparr>ts_established = True, ts_agent_hex = demo_agent_hex, ts_group_name = ''g'',
     ts_pub_key = demo_agent_pub\<rparr>"

definition demo_clock :: frame_clock where
  "demo_clock = \<lparr>fc_secs = 100, fc_nanos = 0, fc_tx_id = 5\<rparr>"

lemma demo_frame_facts:
  "x_ingress_access demo (x_ingress_to demo demo_ingress) = Some demo_ingress"
  "x_state_access demo (in_state_bytes demo_ingress) = Some (demo_state demo_victim ''/secret'' ''x'')"
  "named_agent (demo_state demo_victim ''/secret'' ''x'') demo_victim"
  "packet_admissible demo 100 0 (demo_aegis []) ''g'' (in_public_key demo_ingress) (in_state_bytes demo_ingress)
     (in_signature demo_ingress) (in_intent_path demo_ingress) 100"
  using demo_packet
  by (simp_all add: demo_rkyv_ok demo_ingress_def Let_def named_agent_def demo_state_def demo_victim_def zeros_def)

lemma demo_commit:
  "\<exists>nd' log. tcp_frame demo demo_crdt demo_clock demo_node demo_session (x_ingress_to demo demo_ingress)
       = (nd', demo_session, Next_Frame)
     \<and> wal_queue (nd_wal nd') = wal_queue (nd_wal demo_node) @ [log]"
  using accepted_frame_commits [OF demo_crdt_ok _ _ demo_frame_facts(1,2,3), of demo_session demo_clock demo_node]
    demo_frame_facts(4)
  by (auto simp: demo_session_def demo_clock_def demo_node_def demo_state_def demo_ingress_def Let_def)

lemma accepted_frame_commits_under_any_identity_witness:
  "\<exists>nd' log. tcp_frame demo demo_crdt demo_clock demo_node demo_session (x_ingress_to demo demo_ingress)
       = (nd', demo_session, Next_Frame)
     \<and> wal_queue (nd_wal nd') = wal_queue (nd_wal demo_node) @ [log]
     \<and> ol_agent_id log = demo_victim \<and> ol_namespace log = ''/secret''"
proof -
  have "\<exists>nd' log. tcp_frame demo demo_crdt demo_clock demo_node demo_session (x_ingress_to demo demo_ingress)
       = (nd', demo_session, Next_Frame)
     \<and> wal_queue (nd_wal nd') = wal_queue (nd_wal demo_node) @ [log]
     \<and> ol_agent_id log = demo_victim \<and> ol_namespace log = st_namespace (demo_state demo_victim ''/secret'' ''x'')"
    by (rule accepted_frame_commits_under_any_identity [OF demo_crdt_ok _ _ demo_frame_facts(1,2,3)])
      (use demo_frame_facts(4) in \<open>simp_all add: demo_session_def demo_clock_def demo_node_def demo_state_def\<close>,
       simp_all add: demo_ingress_def Let_def)
  then show ?thesis by (simp add: demo_state_def)
qed

lemma only_authenticated_frames_reach_the_ledger_witness:
  "\<exists>ing ag. x_ingress_access demo (x_ingress_to demo demo_ingress) = Some ing
     \<and> establish demo 100 (demo_aegis []) demo_session ing = (ag, Some demo_session)"
proof -
  let ?f = "tcp_frame demo demo_crdt demo_clock demo_node demo_session (x_ingress_to demo demo_ingress)"
  obtain nd' log where f: "?f = (nd', demo_session, Next_Frame)"
    and w: "wal_queue (nd_wal nd') = wal_queue (nd_wal demo_node) @ [log]"
    using demo_commit by blast
  have "nd_wal nd' \<noteq> nd_wal demo_node" using w by auto
  from only_authenticated_frames_reach_the_ledger [OF f disjI2 [OF this]] show ?thesis
    by (auto simp: demo_clock_def demo_node_def)
qed

lemma key_drift_drops_the_socket_witness:
  "tcp_frame demo demo_crdt demo_clock demo_node (demo_session\<lparr>ts_pub_key := zeros 3\<rparr>) (x_ingress_to demo demo_ingress)
     = (demo_node, demo_session\<lparr>ts_pub_key := zeros 3\<rparr>, Drop_Socket)"
proof (rule key_drift_drops_the_socket [OF _ demo_frame_facts(1)])
  have "length demo_agent_pub = 32" by (simp add: demo_agent_pub_def ed_ok_simps [OF demo_ed_ok])
  then have "demo_agent_pub \<noteq> zeros 3" using length_zeros [of 3] by force
  then show "in_public_key demo_ingress \<noteq> ts_pub_key (demo_session\<lparr>ts_pub_key := zeros 3\<rparr>)"
    by (simp add: demo_ingress_def Let_def)
qed (simp add: demo_session_def)

end
