(* ===== verification/Embedding.thy ===== *)
theory Embedding
  imports Prelude
begin

text \<open>
  The embedding providers of src/raqim-core/src/embedding.rs: the trait as a record of its three
  methods, the native model, the mock of the benchmark profile and the remote provider. The
  model's weights, the HTTP exchange and the rounding of a double to a single are parameters.
\<close>

section \<open>The provider interface\<close>

record embedder =
  em_embed :: "string \<Rightarrow> f32 list res"
  em_embed_batch :: "string list \<Rightarrow> f32 list list res"
  em_dimension :: nat

text \<open>\<open>Ok(res[0].clone())\<close>: an empty answer panics.\<close>

definition first_vector :: "f32 list list \<Rightarrow> f32 list res" where
  "first_vector res = (case res of [] \<Rightarrow> Inl (Panic ''index out of bounds'') | v # vs \<Rightarrow> Inr v)"

section \<open>The native and the mock provider\<close>

text \<open>\<open>model\<close> is the fastembed model behind its mutex and the blocking pool.\<close>

definition native_provider :: "(string list \<Rightarrow> f32 list list res) \<Rightarrow> embedder" where
  "native_provider model =
     \<lparr>em_embed = (\<lambda>text. and_then (model [text]) first_vector),
      em_embed_batch = model, em_dimension = 768\<rparr>"

definition mock_provider :: embedder where
  "mock_provider =
     \<lparr>em_embed = (\<lambda>text. Inr (replicate 768 0)),
      em_embed_batch = (\<lambda>texts. Inr (replicate (length texts) (replicate 768 0))),
      em_dimension = 768\<rparr>"

section \<open>The remote provider\<close>

text \<open>A JSON value; a number is the bit pattern of the double that \<open>as_f64\<close> gives.\<close>

datatype json = J_Null | J_Bool bool | J_Number u64 | J_String string | J_Array "json list"
  | J_Object "(string \<times> json) list"

text \<open>\<open>value["key"]\<close> is \<open>Null\<close> for a missing member and for anything that is not an object.\<close>

definition json_get :: "json \<Rightarrow> string \<Rightarrow> json" where
  "json_get v key =
     (case v of J_Object m \<Rightarrow> (case map_of m key of None \<Rightarrow> J_Null | Some x \<Rightarrow> x) | _ \<Rightarrow> J_Null)"

definition json_as_array :: "json \<Rightarrow> json list option" where
  "json_as_array v = (case v of J_Array xs \<Rightarrow> Some xs | _ \<Rightarrow> None)"

definition json_as_str :: "json \<Rightarrow> string option" where
  "json_as_str v = (case v of J_String s \<Rightarrow> Some s | _ \<Rightarrow> None)"

definition json_f32 :: "(u64 \<Rightarrow> f32) \<Rightarrow> json \<Rightarrow> f32 res" where
  "json_f32 cast v =
     (case v of J_Number w \<Rightarrow> Inr (cast w) | _ \<Rightarrow> Inl (Panic ''called Option::unwrap() on a None value''))"

definition embedding_vector :: "(u64 \<Rightarrow> f32) \<Rightarrow> json \<Rightarrow> f32 list res" where
  "embedding_vector cast items =
     (case json_as_array (json_get items ''embedding'') of
        None \<Rightarrow> Inl (Err ''Malformed embedding vector'')
      | Some vs \<Rightarrow> traverse (json_f32 cast) vs)"

text \<open>\<open>post\<close> is the exchange: the texts go out, the JSON body of the answer comes back.\<close>

definition openai_embed_batch :: "(string list \<Rightarrow> json res) \<Rightarrow> (u64 \<Rightarrow> f32) \<Rightarrow> string list \<Rightarrow> f32 list list res" where
  "openai_embed_batch post cast texts =
     and_then (post texts) (\<lambda>res.
       case json_as_array (json_get res ''data'') of
         None \<Rightarrow> Inl (Err ''Invalid OpenAI response payload'')
       | Some data_array \<Rightarrow> traverse (embedding_vector cast) data_array)"

definition openai_provider :: "(string list \<Rightarrow> json res) \<Rightarrow> (u64 \<Rightarrow> f32) \<Rightarrow> embedder" where
  "openai_provider post cast =
     \<lparr>em_embed = (\<lambda>text. and_then (openai_embed_batch post cast [text]) first_vector),
      em_embed_batch = openai_embed_batch post cast, em_dimension = 3072\<rparr>"

lemma mock_batch_length: "em_embed_batch mock_provider texts = Inr vs \<Longrightarrow> length vs = length texts"
  by (auto simp: mock_provider_def)

text \<open>The number of vectors of the remote provider is the length of the answer's array.\<close>

lemma openai_batch_length:
  "openai_embed_batch post cast texts = Inr vs \<Longrightarrow>
   \<exists>res data_array. post texts = Inr res \<and> json_get res ''data'' = J_Array data_array
     \<and> length vs = length data_array"
  by (auto simp: openai_embed_batch_def and_then_Inr traverse_Inr json_as_array_def
      split: option.splits json.splits dest: list_all2_lengthD)

end
