(* ===== verification/Lance_Store.thy ===== *)
theory Lance_Store
  imports Embedding Demo_Externs
begin

text \<open>
  The cold store of src/raqim-core/src/lancedb_store.rs. LanceDB and Arrow are parameters (the
  record \<open>lance\<close>): the database as a state, the construction of record batches, tables, and
  queries whose stream is a list of batches or errors. What the code relies on is stated in
  \<open>lance_ok\<close>. The engine's own work, the row-to-column conversion, the schemas, the column
  downcasts, the query texts and the formatting of the results, is defined here.
\<close>

section \<open>Arrow data and the database interface\<close>

text \<open>
  \<open>Fixed_Size_List nullable n\<close> is the type of a list column with \<open>n\<close> items per row; the flag
  says whether its item field is nullable, which is part of the type that Arrow compares.
\<close>

datatype data_type = Utf8 | Int64 | Binary | Float32 | Fixed_Size_List bool nat

datatype column =
    Str_Col "string list"
  | Int_Col "i64 list"
  | Bin_Col "bytes list"
  | F32_Col "f32 list"
  | Vec_Col bool nat "f32 list list"

fun col_type :: "column \<Rightarrow> data_type" where
  "col_type (Str_Col xs) = Utf8"
| "col_type (Int_Col xs) = Int64"
| "col_type (Bin_Col xs) = Binary"
| "col_type (F32_Col xs) = Float32"
| "col_type (Vec_Col nullable n xs) = Fixed_Size_List nullable n"

datatype cell = Str_Cell string | Int_Cell i64 | Bin_Cell bytes | F32_Cell f32 | Vec_Cell "f32 list"

fun col_len :: "column \<Rightarrow> nat" where
  "col_len (Str_Col xs) = length xs"
| "col_len (Int_Col xs) = length xs"
| "col_len (Bin_Col xs) = length xs"
| "col_len (F32_Col xs) = length xs"
| "col_len (Vec_Col nullable n xs) = length xs"

fun col_cell :: "column \<Rightarrow> nat \<Rightarrow> cell" where
  "col_cell (Str_Col xs) i = Str_Cell (xs ! i)"
| "col_cell (Int_Col xs) i = Int_Cell (xs ! i)"
| "col_cell (Bin_Col xs) i = Bin_Cell (xs ! i)"
| "col_cell (F32_Col xs) i = F32_Cell (xs ! i)"
| "col_cell (Vec_Col nullable n xs) i = Vec_Cell (xs ! i)"

type_synonym schema = "(string \<times> data_type) list"
type_synonym record_batch = "(string \<times> column) list"
type_synonym row = "(string \<times> cell) list"

definition batch_row :: "record_batch \<Rightarrow> nat \<Rightarrow> row" where
  "batch_row b i = map (\<lambda>(n, c). (n, col_cell c i)) b"

lemma map_of_batch_row: "map_of (batch_row b i) n = map_option (\<lambda>c. col_cell c i) (map_of b n)"
  by (induction b) (auto simp: batch_row_def)

record lance_query =
  lq_nearest :: "f32 list option"
  lq_only_if :: "string option"
  lq_limit :: "nat option"

record 'db lance =
  la_fixed_list :: "f32 list list \<Rightarrow> nat \<Rightarrow> column res"
  la_try_new :: "schema \<Rightarrow> column list \<Rightarrow> record_batch option"
  la_names :: "'db \<Rightarrow> string list"
  la_open :: "'db \<Rightarrow> string \<Rightarrow> bool"
  la_create :: "'db \<Rightarrow> string \<Rightarrow> record_batch \<Rightarrow> 'db option"
  la_add :: "'db \<Rightarrow> string \<Rightarrow> record_batch \<Rightarrow> 'db option"
  la_count :: "'db \<Rightarrow> string \<Rightarrow> nat option"
  la_query :: "'db \<Rightarrow> string \<Rightarrow> lance_query \<Rightarrow> record_batch option list option"
  la_schema :: "'db \<Rightarrow> string \<Rightarrow> schema option"
  la_rows :: "'db \<Rightarrow> string \<Rightarrow> row list"

definition batch_schema :: "record_batch \<Rightarrow> schema" where
  "batch_schema b = map (\<lambda>(n, c). (n, col_type c)) b"

text \<open>
  What the code relies on. A record batch has the columns it was made of, with the names and the
  exact types of the schema and one length; a table keeps the schema it was created with and the
  rows added to it; a query returns batches of the table's schema, with \<open>_distance\<close> appended for
  a vector search, whose rows are rows of the table. \<open>la_schema\<close> and \<open>la_rows\<close> only serve to
  state this.
\<close>

definition lance_ok :: "'db lance \<Rightarrow> bool" where
  "lance_ok L \<longleftrightarrow>
     (\<forall>s cols b. la_try_new L s cols = Some b \<longrightarrow>
        b = zip (map fst s) cols \<and> map col_type cols = map snd s \<and> (\<forall>c \<in> set cols. col_len c = col_len (hd cols)))
   \<and> (\<forall>db t. la_open L db t \<longrightarrow> t \<in> set (la_names L db))
   \<and> (\<forall>db t b db'. la_create L db t b = Some db' \<longrightarrow> la_schema L db' t = Some (batch_schema b)
        \<and> la_rows L db' t = map (batch_row b) [0..<col_len (snd (hd b))])
   \<and> (\<forall>db t b db'. la_add L db t b = Some db' \<longrightarrow> la_schema L db' t = la_schema L db t
        \<and> la_rows L db' t = la_rows L db t @ map (batch_row b) [0..<col_len (snd (hd b))])
   \<and> (\<forall>db t q s bs b. la_schema L db t = Some s \<longrightarrow> la_query L db t q = Some bs \<longrightarrow> Some b \<in> set bs \<longrightarrow>
        batch_schema b = s @ (if lq_nearest q = None then [] else [(''_distance'', Float32)])
        \<and> (\<forall>c \<in> set b. col_len (snd c) = col_len (snd (hd b)))
        \<and> (\<forall>i < col_len (snd (hd b)). \<exists>r \<in> set (la_rows L db t). map_of r \<subseteq>\<^sub>m map_of (batch_row b i)))"

lemma lance_okD:
  assumes "lance_ok L"
  shows "la_try_new L s cols = Some b \<Longrightarrow> b = zip (map fst s) cols"
    and "la_try_new L s cols = Some b \<Longrightarrow> map col_type cols = map snd s"
    and "la_try_new L s cols = Some b \<Longrightarrow> c \<in> set cols \<Longrightarrow> col_len c = col_len (hd cols)"
    and "la_open L db t \<Longrightarrow> t \<in> set (la_names L db)"
    and "la_create L db t b = Some db' \<Longrightarrow> la_schema L db' t = Some (batch_schema b)"
    and "la_create L db t b = Some db' \<Longrightarrow> la_rows L db' t = map (batch_row b) [0..<col_len (snd (hd b))]"
    and "la_add L db t b = Some db' \<Longrightarrow> la_schema L db' t = la_schema L db t"
    and "la_add L db t b = Some db' \<Longrightarrow>
           la_rows L db' t = la_rows L db t @ map (batch_row b) [0..<col_len (snd (hd b))]"
  using assms unfolding lance_ok_def by metis+

text \<open>
  \<open>FixedSizeListArray::from_iter_primitive\<close> uses a builder whose item field is nullable unless
  another field is given.
\<close>

definition nullable_items :: "'db lance \<Rightarrow> bool" where
  "nullable_items L \<longleftrightarrow> (\<forall>vs d c. la_fixed_list L vs d = Inr c \<longrightarrow> col_type c = Fixed_Size_List True d)"

section \<open>The engine\<close>

record 'db lance_engine =
  le_db :: 'db
  le_history_table :: string
  le_snapshot_table :: string
  le_storage_path :: string
  le_dims :: nat
  le_embedder :: embedder

definition lance_engine_new :: "'db \<Rightarrow> string \<Rightarrow> string \<Rightarrow> embedder \<Rightarrow> 'db lance_engine" where
  "lance_engine_new db storage_path table_name em =
     \<lparr>le_db = db, le_history_table = table_name, le_snapshot_table = ''agent_snapshot'',
      le_storage_path = storage_path, le_dims = em_dimension em, le_embedder = em\<rparr>"

definition lance_engine_dummy :: "'db \<Rightarrow> embedder \<Rightarrow> 'db lance_engine" where
  "lance_engine_dummy db em =
     \<lparr>le_db = db, le_history_table = ''dummy_history'', le_snapshot_table = ''dummy_snapshot'',
      le_storage_path = ''dummy_storage'', le_dims = 768, le_embedder = em\<rparr>"

definition history_schema :: "nat \<Rightarrow> schema" where
  "history_schema dims =
     [(''tx_id'', Utf8), (''agent_id'', Utf8), (''namespace'', Utf8), (''timestamp'', Int64),
      (''status'', Utf8), (''text'', Utf8), (''entropy_seeds'', Utf8), (''network_responses'', Utf8),
      (''payload'', Binary), (''vector'', Fixed_Size_List False dims)]"

definition snapshot_schema :: schema where
  "snapshot_schema = [(''tx_id'', Int64), (''timestamp'', Int64), (''agent_id'', Utf8), (''memory_blob'', Binary)]"

definition audit_schema :: schema where
  "audit_schema = [(''timestamp'', Int64), (''event_type'', Utf8), (''agent_id'', Utf8), (''metadata'', Utf8)]"

text \<open>Adding a batch to a table that exists, creating it otherwise; every failure is unwrapped.\<close>

definition commit_batch :: "'db lance \<Rightarrow> 'db \<Rightarrow> string \<Rightarrow> record_batch option \<Rightarrow> 'db res" where
  "commit_batch L db table batch =
     (let unwrapped = Inl (Panic ''called Result::unwrap() on an Err value'') in
      case batch of
        None \<Rightarrow> unwrapped
      | Some b \<Rightarrow>
          if table \<in> set (la_names L db) then
            (if \<not> la_open L db table then unwrapped
             else case la_add L db table b of None \<Rightarrow> unwrapped | Some db' \<Rightarrow> Inr db')
          else (case la_create L db table b of None \<Rightarrow> unwrapped | Some db' \<Rightarrow> Inr db'))"

section \<open>Archiving\<close>

text \<open>
  The row-to-column conversion of \<open>archive_batch\<close>. serde_json writes lists of integers and of
  strings without failing.
\<close>

definition history_columns :: "ext \<Rightarrow> op_log list \<Rightarrow> column \<Rightarrow> column list" where
  "history_columns E logs vector_array =
     [Str_Col (map (\<lambda>l. fmt_032x (ol_txid l)) logs),
      Str_Col (map (\<lambda>l. x_hex_encode E (ol_agent_id l)) logs),
      Str_Col (map (\<lambda>l. ol_namespace l) logs),
      Int_Col (map (\<lambda>l. st_timestamp (ol_state l)) logs),
      Str_Col (map (\<lambda>l. debug_status (st_status (ol_state l))) logs),
      Str_Col (map (\<lambda>l. st_text (ol_state l)) logs),
      Str_Col (map (\<lambda>l. x_seeds_to E (ol_entropy_seeds l)) logs),
      Str_Col (map (\<lambda>l. x_strings_to E (ol_network_responses l)) logs),
      Bin_Col (map ol_delta logs),
      vector_array]"

definition archive_batch ::
  "'db lance \<Rightarrow> ext \<Rightarrow> 'db lance_engine \<Rightarrow> op_log list \<Rightarrow> f32 list list \<Rightarrow> 'db lance_engine res" where
  "archive_batch L E le logs vectors =
     (if logs = [] \<or> length logs \<noteq> length vectors then Inr le
      else
        and_then (la_fixed_list L vectors (le_dims le)) (\<lambda>vector_array.
          case la_try_new L (history_schema (le_dims le)) (history_columns E logs vector_array) of
            None \<Rightarrow> Inl (Panic ''Failed to build Arrow RecordBatch'')
          | Some batch \<Rightarrow>
              and_then (commit_batch L (le_db le) (le_history_table le) (Some batch)) (\<lambda>db.
                Inr (le\<lparr>le_db := db\<rparr>))))"

section \<open>Reading columns\<close>

definition missing_column :: rust_fail where
  "missing_column = Panic ''called Option::unwrap() on a None value''"

text \<open>\<open>column_by_name(..).unwrap().as_any().downcast_ref::<StringArray>().unwrap()\<close> and so on.\<close>

definition str_col :: "record_batch \<Rightarrow> string \<Rightarrow> string list res" where
  "str_col b n = (case map_of b n of Some (Str_Col xs) \<Rightarrow> Inr xs | _ \<Rightarrow> Inl missing_column)"

definition int_col :: "record_batch \<Rightarrow> string \<Rightarrow> i64 list res" where
  "int_col b n = (case map_of b n of Some (Int_Col xs) \<Rightarrow> Inr xs | _ \<Rightarrow> Inl missing_column)"

definition bin_col :: "record_batch \<Rightarrow> string \<Rightarrow> bytes list res" where
  "bin_col b n = (case map_of b n of Some (Bin_Col xs) \<Rightarrow> Inr xs | _ \<Rightarrow> Inl missing_column)"

definition f32_col :: "record_batch \<Rightarrow> string \<Rightarrow> f32 list res" where
  "f32_col b n = (case map_of b n of Some (F32_Col xs) \<Rightarrow> Inr xs | _ \<Rightarrow> Inl missing_column)"

text \<open>\<open>value(i)\<close> for \<open>i\<close> below the length of one column; it panics past the end of another.\<close>

definition rows_upto :: "nat \<Rightarrow> nat list \<Rightarrow> (nat \<Rightarrow> 'r) \<Rightarrow> 'r list res" where
  "rows_upto n lens row =
     (if list_all (\<lambda>l. n \<le> l) lens then Inr (map row [0..<n])
      else Inl (Panic ''Trying to access an element past the end of the array''))"

text \<open>\<open>while let Some(batch_result) = stream.next().await\<close> with \<open>batch_result?\<close>.\<close>

fun collect_batches :: "(record_batch \<Rightarrow> 'r list res) \<Rightarrow> record_batch option list \<Rightarrow> 'r list res" where
  "collect_batches rows [] = Inr []"
| "collect_batches rows (None # bs) = Inl (Err ''lance error'')"
| "collect_batches rows (Some b # bs) =
     and_then (rows b) (\<lambda>r. and_then (collect_batches rows bs) (\<lambda>rs. Inr (r @ rs)))"

definition open_table :: "'db lance \<Rightarrow> 'db \<Rightarrow> string \<Rightarrow> unit res" where
  "open_table L db t = (if la_open L db t then Inr () else Inl (Err ''Table not found''))"

definition execute_query :: "'db lance \<Rightarrow> 'db \<Rightarrow> string \<Rightarrow> lance_query \<Rightarrow> record_batch option list res" where
  "execute_query L db t q =
     (case la_query L db t q of None \<Rightarrow> Inl (Err ''lance error'') | Some stream \<Rightarrow> Inr stream)"

text \<open>A filter is added for a namespace that is not empty; its text is spliced in unescaped.\<close>

definition quoted :: "string \<Rightarrow> string" where
  "quoted s = [CHR 0x27] @ s @ [CHR 0x27]"

definition namespace_clause :: "string option \<Rightarrow> string option" where
  "namespace_clause f =
     (case f of None \<Rightarrow> None | Some ns \<Rightarrow> if ns \<noteq> [] then Some (''namespace = '' @ quoted ns) else None)"

definition hex_or_zero :: "string \<Rightarrow> u128" where
  "hex_or_zero s = (case from_str_radix16 s of None \<Rightarrow> 0 | Some x \<Rightarrow> x)"

section \<open>Searches\<close>

record cold_search_result =
  cs_tx_id :: u128
  cs_agent_hex :: string
  cs_status :: string
  cs_text :: string
  cs_namespace :: string
  cs_timestamp :: i64
  cs_distance :: f32

definition cold_rows :: "record_batch \<Rightarrow> cold_search_result list res" where
  "cold_rows b =
     and_then (str_col b ''tx_id'') (\<lambda>tx.
     and_then (str_col b ''agent_id'') (\<lambda>ag.
     and_then (str_col b ''namespace'') (\<lambda>ns.
     and_then (str_col b ''status'') (\<lambda>st.
     and_then (str_col b ''text'') (\<lambda>tt.
     and_then (int_col b ''timestamp'') (\<lambda>ts.
       rows_upto (length tx) [length ag, length ns, length st, length tt, length ts] (\<lambda>i.
         \<lparr>cs_tx_id = hex_or_zero (tx ! i), cs_agent_hex = ag ! i, cs_status = st ! i, cs_text = tt ! i,
          cs_namespace = ns ! i, cs_timestamp = ts ! i, cs_distance = 0\<rparr>)))))))"

definition search_cold_vector ::
  "'db lance \<Rightarrow> 'db lance_engine \<Rightarrow> f32 list \<Rightarrow> string option \<Rightarrow> nat \<Rightarrow> cold_search_result list res" where
  "search_cold_vector L le query_vector namespace_filter limit =
     and_then (open_table L (le_db le) (le_history_table le)) (\<lambda>_.
     and_then (execute_query L (le_db le) (le_history_table le)
        \<lparr>lq_nearest = Some query_vector, lq_only_if = namespace_clause namespace_filter,
         lq_limit = Some limit\<rparr>) (\<lambda>stream.
       collect_batches cold_rows stream))"

text \<open>\<open>similarity\<close> is \<open>1.0 - distance\<close> in single precision.\<close>

definition vault_rows :: "(f32 \<Rightarrow> f32) \<Rightarrow> record_batch \<Rightarrow> vault_search_result list res" where
  "vault_rows similarity b =
     and_then (str_col b ''text'') (\<lambda>tt.
     and_then (str_col b ''agent_id'') (\<lambda>ag.
     and_then (str_col b ''namespace'') (\<lambda>ns.
     and_then (int_col b ''timestamp'') (\<lambda>ts.
     and_then (str_col b ''transaction_id'') (\<lambda>tx.
     and_then (f32_col b ''_distance'') (\<lambda>ds.
       rows_upto (length tt) [length ag, length ns, length ts, length tx, length ds] (\<lambda>i.
         \<lparr>vs_tx_id = hex_or_zero (tx ! i), vs_agent_hex = ag ! i, vs_namespace = ns ! i,
          vs_payload = tt ! i, vs_timestamp = fmt_i64 (ts ! i), vs_source = ''LANCEDB'',
          vs_similarity_score = similarity (ds ! i)\<rparr>)))))))"

definition semantic_search ::
  "'db lance \<Rightarrow> (f32 \<Rightarrow> f32) \<Rightarrow> 'db lance_engine \<Rightarrow> string \<Rightarrow> string option \<Rightarrow> nat \<Rightarrow> vault_search_result list res" where
  "semantic_search L similarity le query namespace_filter limit =
     and_then (em_embed (le_embedder le) query) (\<lambda>query_vector.
     and_then (open_table L (le_db le) (le_history_table le)) (\<lambda>_.
     and_then (execute_query L (le_db le) (le_history_table le)
        \<lparr>lq_nearest = Some query_vector, lq_only_if = namespace_clause namespace_filter,
         lq_limit = Some limit\<rparr>) (\<lambda>stream.
       collect_batches (vault_rows similarity) stream)))"

definition memory_rows :: "record_batch \<Rightarrow> string list res" where
  "memory_rows b =
     and_then (str_col b ''text'') (\<lambda>tt.
     and_then (str_col b ''agent_id'') (\<lambda>ag.
     and_then (int_col b ''timestamp'') (\<lambda>ts.
     and_then (str_col b ''status'') (\<lambda>st.
       rows_upto (length tt) [length ag, length ts, length st] (\<lambda>i.
         ''[Time: '' @ fmt_i64 (ts ! i) @ ''] Agent: '' @ quoted (ag ! i) @ '' ('' @ st ! i
           @ '') noted: '' @ tt ! i)))))"

definition search_memory :: "'db lance \<Rightarrow> 'db lance_engine \<Rightarrow> string \<Rightarrow> string \<Rightarrow> nat \<Rightarrow> string list res" where
  "search_memory L le query namespace limit =
     and_then (em_embed (le_embedder le) query) (\<lambda>query_vector.
     and_then (open_table L (le_db le) (le_history_table le)) (\<lambda>_.
     and_then (execute_query L (le_db le) (le_history_table le)
        \<lparr>lq_nearest = Some query_vector, lq_only_if = Some (''namespace LIKE '' @ quoted namespace),
         lq_limit = Some limit\<rparr>) (\<lambda>stream.
       collect_batches memory_rows stream)))"

definition timeline_rows :: "record_batch \<Rightarrow> timeline_node list res" where
  "timeline_rows b =
     and_then (str_col b ''text'') (\<lambda>tt.
     and_then (str_col b ''transaction_id'') (\<lambda>tx.
     and_then (str_col b ''status'') (\<lambda>st.
     and_then (int_col b ''timestamp'') (\<lambda>ts.
       rows_upto (length tx) [length tt, length st, length ts] (\<lambda>i.
         \<lparr>tn_tx_id = hex_or_zero (tx ! i), tn_timestamp = fmt_i64 (ts ! i),
          tn_agent_status = st ! i, tn_payload_preview = tt ! i\<rparr>)))))"

definition fetch_historical_timeline ::
  "'db lance \<Rightarrow> 'db lance_engine \<Rightarrow> string \<Rightarrow> timeline_node list res" where
  "fetch_historical_timeline L le agent_hex =
     and_then (open_table L (le_db le) (le_history_table le)) (\<lambda>_.
     and_then (execute_query L (le_db le) (le_history_table le)
        \<lparr>lq_nearest = None, lq_only_if = Some (''agent_id = '' @ quoted agent_hex), lq_limit = None\<rparr>) (\<lambda>stream.
       collect_batches timeline_rows stream))"

section \<open>Metrics\<close>

text \<open>
  The maximum is taken over the first batch of the stream only. \<open>count_rows\<close> is cast to \<open>u64\<close>.
\<close>

definition max_tx_of :: "string list \<Rightarrow> u128" where
  "max_tx_of tx_col = foldl (\<lambda>max_tx s. let tx = hex_or_zero s in if max_tx < tx then tx else max_tx) 0 tx_col"

definition plain_scan :: lance_query where
  "plain_scan = \<lparr>lq_nearest = None, lq_only_if = None, lq_limit = None\<rparr>"

definition get_vault_metrics :: "'db lance \<Rightarrow> 'db lance_engine \<Rightarrow> (u128 \<times> nat) res" where
  "get_vault_metrics L le =
     (if \<not> la_open L (le_db le) (le_history_table le) then Inr (0, 0)
      else case la_count L (le_db le) (le_history_table le) of
        None \<Rightarrow> Inl (Err ''lance error'')
      | Some total_rows \<Rightarrow>
          if total_rows = 0 then Inr (0, 0)
          else
            and_then (execute_query L (le_db le) (le_history_table le) plain_scan) (\<lambda>stream.
              case stream of
                [] \<Rightarrow> Inr (0, total_rows)
              | None # rest \<Rightarrow> Inl (Err ''lance error'')
              | Some b # rest \<Rightarrow>
                  and_then (str_col b ''tx_id'') (\<lambda>tx_col. Inr (max_tx_of tx_col, total_rows))))"

definition get_total_vector_count :: "'db lance \<Rightarrow> 'db lance_engine \<Rightarrow> nat res" where
  "get_total_vector_count L le =
     and_then (open_table L (le_db le) (le_history_table le)) (\<lambda>_.
       case la_count L (le_db le) (le_history_table le) of
         None \<Rightarrow> Inl (Err ''lance error'') | Some n \<Rightarrow> Inr n)"

text \<open>\<open>*freq_map.entry(ns).or_insert(0) += 1\<close> for every row of every batch.\<close>

definition count_namespace :: "(string \<times> u64) list \<Rightarrow> string \<Rightarrow> (string \<times> u64) list" where
  "count_namespace freq ns =
     AList.update ns ((case map_of freq ns of None \<Rightarrow> 0 | Some c \<Rightarrow> c) + 1) freq"

definition top_namespace :: "(string \<times> u64) list \<Rightarrow> string \<times> u64" where
  "top_namespace freq =
     foldl (\<lambda>(top_ns, top_count) (ns, count). if top_count < count then (ns, count) else (top_ns, top_count))
       (''UNKNOWN'', 0) freq"

text \<open>\<open>percent\<close> formats the ratio with one decimal (\<open>{:.1}\<close> of a double).\<close>

definition get_densest_namespace ::
  "'db lance \<Rightarrow> (u64 \<Rightarrow> nat \<Rightarrow> string) \<Rightarrow> 'db lance_engine \<Rightarrow> string res" where
  "get_densest_namespace L percent le =
     (if \<not> la_open L (le_db le) (le_history_table le) then Inr ''Empty (0%)''
      else case la_count L (le_db le) (le_history_table le) of
        None \<Rightarrow> Inl (Err ''lance error'')
      | Some total_rows \<Rightarrow>
          if total_rows = 0 then Inr ''Empty (0%)''
          else
            and_then (execute_query L (le_db le) (le_history_table le) plain_scan) (\<lambda>stream.
            and_then (collect_batches (\<lambda>b. str_col b ''namespace'') stream) (\<lambda>nss.
              (let (top_ns, top_count) = top_namespace (foldl count_namespace [] nss)
               in Inr (top_ns @ '' ('' @ percent top_count total_rows @ '')%'')))))"

section \<open>Snapshots\<close>

definition save_snapshot ::
  "'db lance \<Rightarrow> 'db lance_engine \<Rightarrow> i64 \<Rightarrow> i64 \<Rightarrow> string \<Rightarrow> bytes \<Rightarrow> 'db lance_engine res" where
  "save_snapshot L le tx_id timestamp agent_hex memory_blob =
     and_then (commit_batch L (le_db le) (le_snapshot_table le)
       (la_try_new L snapshot_schema [Int_Col [tx_id], Int_Col [timestamp], Str_Col [agent_hex], Bin_Col [memory_blob]]))
       (\<lambda>db. Inr (le\<lparr>le_db := db\<rparr>))"

definition snapshot_query :: "string \<Rightarrow> u128 \<Rightarrow> lance_query" where
  "snapshot_query agent_hex target_tx_id =
     \<lparr>lq_nearest = None,
      lq_only_if = Some (''agent_id = '' @ quoted agent_hex @ '' AND tx_id <= '' @ fmt_nat (unat target_tx_id) @ '' ''),
      lq_limit = Some 1\<rparr>"

text \<open>\<open>value(0)\<close> of an array, a panic when it is empty.\<close>

definition value0 :: "'a list \<Rightarrow> 'a res" where
  "value0 xs = (case xs of [] \<Rightarrow> Inl (Panic ''Trying to access an element past the end of the array'') | x # _ \<Rightarrow> Inr x)"

definition fetch_closest_snapshot ::
  "'db lance \<Rightarrow> 'db lance_engine \<Rightarrow> string \<Rightarrow> u128 \<Rightarrow> (u128 \<times> u64 \<times> bytes) res" where
  "fetch_closest_snapshot L le agent_hex target_tx_id =
     and_then (open_table L (le_db le) (le_snapshot_table le)) (\<lambda>_.
     and_then (execute_query L (le_db le) (le_snapshot_table le) (snapshot_query agent_hex target_tx_id)) (\<lambda>stream.
       case stream of
         [] \<Rightarrow> Inl (Err (''No snapshot found for agent: '' @ agent_hex))
       | None # rest \<Rightarrow> Inl (Err ''lance error'')
       | Some b # rest \<Rightarrow>
           and_then (str_col b ''tx_id'') (\<lambda>tx.
           and_then (int_col b ''timestamp'') (\<lambda>tm.
           and_then (bin_col b ''memory_blob'') (\<lambda>bl.
           and_then (value0 tx) (\<lambda>t.
           and_then (value0 tm) (\<lambda>ts.
           and_then (value0 bl) (\<lambda>blob. Inr (hex_or_zero t, ts, blob)))))))))"

section \<open>The audit vault\<close>

definition dquoted :: "string \<Rightarrow> string" where
  "dquoted s = [CHR 0x22] @ s @ [CHR 0x22]"

text \<open>The event type, the agent and the metadata text of a system event.\<close>

fun audit_entry :: "ext \<Rightarrow> system_event \<Rightarrow> string \<times> string \<times> string" where
  "audit_entry E (ThoughtCommitted agent_id tx_id namespace msg) =
     (''ThoughtCommited'', agent_id,
      ''{'' @ dquoted ''tx_id'' @ '': '' @ tx_id @ '', '' @ dquoted ''namespace'' @ '': '' @ dquoted namespace
        @ '', '' @ dquoted ''text_preview'' @ '': ''
        @ dquoted (take_chars 100 (replace [CHR 0x22] [CHR 0x5C, CHR 0x22] msg) @ ''...'') @ ''}'')"
| "audit_entry E (AegisInterdiction agent_id attempted_path rule_broken payload) =
     (''AegisInterdiction'', agent_id,
      ''{'' @ dquoted ''path'' @ '': '' @ dquoted attempted_path @ '', '' @ dquoted ''rule'' @ '': ''
        @ dquoted rule_broken @ '', '' @ dquoted ''payload'' @ '': '' @ dquoted payload @ ''}'')"
| "audit_entry E (CompactionTriggered archived_count max_tx) =
     (''CompactionTriggered'', ''SYSTEM'', '' { '' @ dquoted ''archived'' @ '': '' @ fmt_nat archived_count @ '' } '')"
| "audit_entry E (SystemBoot message) =
     (''SystemBoot'', ''SYSTEM'', '' { '' @ dquoted ''message'' @ '': '' @ dquoted message @ '' } '')"
| "audit_entry E (PluginLoaded plugin_name) =
     (''PluginLoaded'', ''SYSTEM'', '' { '' @ dquoted ''plugin_name'' @ '': '' @ dquoted plugin_name @ '' } '')"
| "audit_entry E (SecurityBreach agent_id reason culprit_text) =
     (''SecurityBreach'', agent_id,
      ''{ '' @ dquoted ''culprit'' @ '': '' @ dquoted culprit_text @ '', '' @ dquoted ''reason'' @ '': ''
        @ dquoted reason @ ''}'')"
| "audit_entry E (LicenseUpdated new_jwt) =
     (''LicenseUpdated'', ''SYSTEM'',
      '' { '' @ dquoted ''message'' @ '': '' @ dquoted ''License Key was updated'' @ '' } '')"
| "audit_entry E (MarkleBatchCrystallized batch) =
     (''MarkleBatchCrystallized'', ''SYSTEM'',
      ''{'' @ dquoted ''batch_id'' @ '': '' @ fmt_nat (unat (mb_batch_id batch)) @ '', '' @ dquoted ''namespace'' @ '': ''
        @ dquoted (mb_namespace batch) @ '', '' @ dquoted ''merkle_root'' @ '': ''
        @ dquoted (x_hex_encode E (mb_markle_root batch)) @ '', '' @ dquoted ''leaves_count'' @ '': ''
        @ fmt_nat (length (mb_leaves batch)) @ ''}'')"
| "audit_entry E (RealityForked agent_id original_ns phantom_ns step_ordinal tx_id timestamp) =
     (''default'', ''default'', ''default'')"
| "audit_entry E (GlobalQuarantineSync rec) = (''default'', ''default'', ''default'')"

definition audit_table :: string where
  "audit_table = ''system_audit_vault''"

definition log_system_events ::
  "'db lance \<Rightarrow> ext \<Rightarrow> i64 \<Rightarrow> 'db lance_engine \<Rightarrow> system_event \<Rightarrow> 'db lance_engine res" where
  "log_system_events L E timestamp le event =
     (let (e_type, agent_id, meta) = audit_entry E event in
      and_then (commit_batch L (le_db le) audit_table
        (la_try_new L audit_schema [Int_Col [timestamp], Str_Col [e_type], Str_Col [agent_id], Str_Col [meta]]))
        (\<lambda>db. Inr (le\<lparr>le_db := db\<rparr>)))"

definition report_rows :: "record_batch \<Rightarrow> string list res" where
  "report_rows b =
     and_then (int_col b ''timestamp'') (\<lambda>tm.
     and_then (str_col b ''event_type'') (\<lambda>ev.
     and_then (str_col b ''agent_id'') (\<lambda>ag.
     and_then (str_col b ''metadata'') (\<lambda>me.
       rows_upto (length tm) [length ev, length ag, length me] (\<lambda>i.
         ''['' @ fmt_i64 (tm ! i) @ ''] '' @ ev ! i @ '': Agent: '' @ ag ! i @ '' - Details: '' @ me ! i)))))"

definition generate_compliance_report :: "'db lance \<Rightarrow> 'db lance_engine \<Rightarrow> string \<Rightarrow> string list res" where
  "generate_compliance_report L le agent_hex =
     and_then (open_table L (le_db le) audit_table) (\<lambda>_.
     and_then (execute_query L (le_db le) audit_table
        \<lparr>lq_nearest = None, lq_only_if = Some (''agent_id = '' @ quoted agent_hex), lq_limit = None\<rparr>) (\<lambda>stream.
       collect_batches report_rows stream))"

section \<open>A concrete database\<close>

text \<open>
  Tables as lists of batches, with the laws of \<open>lance_ok\<close>; the flag is the nullability of the items
  of a list column. It is what the witnesses evaluate on.
\<close>

definition proper_batch :: "schema \<Rightarrow> record_batch \<Rightarrow> bool" where
  "proper_batch s b \<longleftrightarrow> b \<noteq> [] \<and> batch_schema b = s \<and> (\<forall>c \<in> set b. col_len (snd c) = col_len (snd (hd b)))"

definition with_distance :: "lance_query \<Rightarrow> record_batch \<Rightarrow> record_batch" where
  "with_distance q b =
     b @ (if lq_nearest q = None then [] else [(''_distance'', F32_Col (replicate (col_len (snd (hd b))) 0))])"

definition demo_lance :: "bool \<Rightarrow> (string \<times> record_batch list) list lance" where
  "demo_lance nullable = \<lparr>
     la_fixed_list = (\<lambda>vs d. Inr (Vec_Col nullable d vs)),
     la_try_new = (\<lambda>s cols. if map col_type cols = map snd s \<and> (\<forall>c \<in> set cols. col_len c = col_len (hd cols))
                            then Some (zip (map fst s) cols) else None),
     la_names = map fst,
     la_open = (\<lambda>db t. t \<in> set (map fst db)),
     la_create = (\<lambda>db t b. Some (AList.update t [b] db)),
     la_add = (\<lambda>db t b. case map_of db t of Some (b0 # bs) \<Rightarrow> Some (AList.update t (b0 # bs @ [b]) db) | _ \<Rightarrow> None),
     la_count = (\<lambda>db t. map_option (\<lambda>bs. sum_list (map (\<lambda>b. col_len (snd (hd b))) bs)) (map_of db t)),
     la_query = (\<lambda>db t q. map_option (\<lambda>bs. map (\<lambda>b. Some (with_distance q b))
                   (filter (proper_batch (batch_schema (hd bs))) bs)) (map_of db t)),
     la_schema = (\<lambda>db t. case map_of db t of Some (b # bs) \<Rightarrow> Some (batch_schema b) | _ \<Rightarrow> None),
     la_rows = (\<lambda>db t. case map_of db t of None \<Rightarrow> []
                  | Some bs \<Rightarrow> concat (map (\<lambda>b. map (batch_row b) [0..<col_len (snd (hd b))]) bs))\<rparr>"

lemma demo_lance_schema:
  "la_schema (demo_lance nl) db t = Some s \<longleftrightarrow> (\<exists>b bs. map_of db t = Some (b # bs) \<and> s = batch_schema b)"
  by (auto simp: demo_lance_def split: option.splits list.splits)

lemma with_distance_simps:
  assumes "b \<noteq> []"
  shows "hd (with_distance q b) = hd b" "map_of (batch_row b i) \<subseteq>\<^sub>m map_of (batch_row (with_distance q b) i)"
  using assms by (auto simp: with_distance_def batch_row_def map_le_def map_add_def)

lemma with_distance_schema:
  "batch_schema (with_distance q b) =
     batch_schema b @ (if lq_nearest q = None then [] else [(''_distance'', Float32)])"
  by (simp add: with_distance_def batch_schema_def)

lemma with_distance_len:
  "(\<forall>c \<in> set b. col_len (snd c) = n) \<Longrightarrow> n = col_len (snd (hd b)) \<Longrightarrow>
   c \<in> set (with_distance q b) \<Longrightarrow> col_len (snd c) = n"
  by (auto simp: with_distance_def split: if_splits)

lemma demo_query_batches:
  assumes "la_schema (demo_lance nl) db t = Some s" and "la_query (demo_lance nl) db t q = Some bs"
    and "Some b \<in> set bs"
  shows "\<exists>b0 bs0. map_of db t = Some bs0 \<and> b0 \<in> set bs0 \<and> proper_batch s b0 \<and> b = with_distance q b0"
proof -
  from assms(1) obtain b1 bs1 where t: "map_of db t = Some (b1 # bs1)" "s = batch_schema b1"
    by (auto simp: demo_lance_schema)
  with assms(2) have "bs = map (\<lambda>b. Some (with_distance q b)) (filter (proper_batch s) (b1 # bs1))"
    by (simp add: demo_lance_def)
  with assms(3) obtain b0 where "b0 \<in> set (filter (proper_batch s) (b1 # bs1))" "b = with_distance q b0"
    by (auto simp del: filter.simps)
  with t show ?thesis by (auto simp del: filter.simps)
qed

lemma demo_lance_ok: "lance_ok (demo_lance nl)"
  unfolding lance_ok_def
proof (intro conjI allI impI, goal_cases)
  case (1 s cols b) then show ?case by (auto simp: demo_lance_def split: if_splits)
next
  case (2 s cols b) then show ?case by (auto simp: demo_lance_def split: if_splits)
next
  case (3 s cols b) then show ?case by (auto simp: demo_lance_def split: if_splits)
next
  case (4 db t) then show ?case by (simp add: demo_lance_def)
next
  case (5 db t b db') then show ?case by (auto simp: demo_lance_def)
next
  case (6 db t b db') then show ?case by (auto simp: demo_lance_def)
next
  case (7 db t b db') then show ?case by (auto simp: demo_lance_def split: option.splits list.splits)
next
  case (8 db t b db') then show ?case by (auto simp: demo_lance_def split: option.splits list.splits)
next
  case (9 db t q s bs b)
  from demo_query_batches [OF this] show ?case
    by (auto simp: proper_batch_def with_distance_schema)
next
  case (10 db t q s bs b)
  from demo_query_batches [OF this] obtain b0 where b: "proper_batch s b0" "b = with_distance q b0" by blast
  then have h: "hd b = hd b0" by (simp add: proper_batch_def with_distance_simps)
  have "\<forall>c \<in> set b0. col_len (snd c) = col_len (snd (hd b0))" using b(1) unfolding proper_batch_def by blast
  from with_distance_len [OF this refl] show ?case unfolding h unfolding b(2) by blast
next
  case (11 db t q s bs b i)
  from demo_query_batches [OF this(1-3)] obtain bs0 b0
    where b: "map_of db t = Some bs0" "b0 \<in> set bs0" "proper_batch s b0" "b = with_distance q b0" by blast
  then have h: "hd b = hd b0" "map_of (batch_row b0 i) \<subseteq>\<^sub>m map_of (batch_row b i)"
    by (simp_all add: proper_batch_def with_distance_simps)
  have "batch_row b0 i \<in> set (la_rows (demo_lance nl) db t)"
    using b(1,2) 11(4) unfolding h(1) by (auto simp: demo_lance_def intro!: bexI [of _ b0])
  then show ?case using h(2) by blast
qed

section \<open>What a query can return\<close>

lemma map_of_batch_schema: "map_of (batch_schema b) n = map_option col_type (map_of b n)"
  by (induction b) (auto simp: batch_schema_def)

lemma collect_batches_Inr:
  "collect_batches rows bs = Inr rs \<Longrightarrow>
   list_all2 (\<lambda>ob r. \<exists>b. ob = Some b \<and> rows b = Inr r) bs (map (\<lambda>ob. projr (rows (the ob))) bs)
   \<and> rs = concat (map (\<lambda>ob. projr (rows (the ob))) bs)"
  by (induction rows bs arbitrary: rs rule: collect_batches.induct) (auto simp: and_then_Inr)

lemma collect_batches_hit:
  assumes "collect_batches rows bs = Inr rs" and "x \<in> set rs"
  shows "\<exists>b r. Some b \<in> set bs \<and> rows b = Inr r \<and> x \<in> set r"
  using assms
  by (induction rows bs arbitrary: rs rule: collect_batches.induct) (auto simp: and_then_Inr, blast+)

lemma query_batch_schema:
  assumes "lance_ok L" and "la_schema L db t = Some s" and "execute_query L db t q = Inr bs" and "Some b \<in> set bs"
  shows "batch_schema b = s @ (if lq_nearest q = None then [] else [(''_distance'', Float32)])"
  using assms unfolding lance_ok_def execute_query_def by (auto split: option.splits)

lemma str_col_Inr: "str_col b n = Inr xs \<longleftrightarrow> map_of b n = Some (Str_Col xs)"
  by (auto simp: str_col_def missing_column_def split: option.splits column.splits)

lemma int_col_Inr: "int_col b n = Inr xs \<longleftrightarrow> map_of b n = Some (Int_Col xs)"
  by (auto simp: int_col_def missing_column_def split: option.splits column.splits)

lemma str_col_other_type:
  "map_of (batch_schema b) n \<noteq> Some Utf8 \<Longrightarrow> str_col b n = Inl missing_column"
  by (auto simp: map_of_batch_schema str_col_def split: option.splits column.splits)

section \<open>Unreadable history and snapshots\<close>

text \<open>
  The schemas have no \<open>transaction_id\<close> column, and a snapshot's \<open>tx_id\<close> is an integer column.
\<close>

lemma no_transaction_id: "map_of (history_schema d @ [(''_distance'', Float32)]) ''transaction_id'' = None"
  "map_of (history_schema d) ''transaction_id'' = None"
  by (simp_all add: history_schema_def)

lemma collect_batches_panic:
  assumes "\<And>b. Some b \<in> set bs \<Longrightarrow> \<not> is_ok (rows b)" and "collect_batches rows bs = Inr rs"
  shows "bs = [] \<and> rs = []"
  using assms(2,1)
  by (induction rows bs arbitrary: rs rule: collect_batches.induct) (auto simp: and_then_Inr)

lemma cold_search_empty:
  assumes "lance_ok L" and "la_schema L (le_db le) (le_history_table le) = Some (history_schema d)"
  shows "(semantic_search L sim le query f k = Inr rs \<longrightarrow> rs = [])
     \<and> (fetch_historical_timeline L le hex = Inr ns \<longrightarrow> ns = [])"
proof -
  have v: "\<not> is_ok (vault_rows sim b) \<and> \<not> is_ok (timeline_rows b)"
    if "execute_query L (le_db le) (le_history_table le) q = Inr bs" and "Some b \<in> set bs" for b bs q
  proof -
    have "map_of (batch_schema b) ''transaction_id'' = None"
      unfolding query_batch_schema [OF assms that] using no_transaction_id by simp
    then have "str_col b ''transaction_id'' = Inl missing_column" by (intro str_col_other_type) simp
    then show ?thesis by (auto simp: is_ok_iff vault_rows_def timeline_rows_def and_then_Inr)
  qed
  have "rs = []" if s: "semantic_search L sim le query f k = Inr rs"
  proof -
    from s obtain q bs where "execute_query L (le_db le) (le_history_table le) q = Inr bs"
      and c: "collect_batches (vault_rows sim) bs = Inr rs"
      unfolding semantic_search_def and_then_Inr by blast
    with collect_batches_panic [OF _ c] v show ?thesis by blast
  qed
  moreover have "ns = []" if s: "fetch_historical_timeline L le hex = Inr ns"
  proof -
    from s obtain q bs where "execute_query L (le_db le) (le_history_table le) q = Inr bs"
      and c: "collect_batches timeline_rows bs = Inr ns"
      unfolding fetch_historical_timeline_def and_then_Inr by blast
    with collect_batches_panic [OF _ c] v show ?thesis by blast
  qed
  ultimately show ?thesis by blast
qed

text \<open>
  The cold history cannot be read back by the timeline and the semantic search: both look for a
  column named \<open>transaction_id\<close>, which the table the engine creates does not have. A call that
  does not fail or panic returns nothing.
\<close>

theorem cold_history_is_unreadable:
  assumes "lance_ok L" and "la_schema L (le_db le) (le_history_table le) = Some (history_schema d)"
  shows "(semantic_search L sim le query f k = Inr rs \<longrightarrow> rs = [])
     \<and> (fetch_historical_timeline L le hex = Inr ns \<longrightarrow> ns = [])"
  by (rule cold_search_empty [OF assms])

lemma snapshot_fetch_fails:
  assumes "lance_ok L" and "la_schema L (le_db le) (le_snapshot_table le) = Some snapshot_schema"
  shows "\<not> is_ok (fetch_closest_snapshot L le hex target)"
proof -
  have "str_col b ''tx_id'' = Inl missing_column"
    if "execute_query L (le_db le) (le_snapshot_table le) (snapshot_query hex target) = Inr bs"
      and "Some b \<in> set bs" for b bs
    using query_batch_schema [OF assms that]
    by (intro str_col_other_type) (simp add: snapshot_query_def snapshot_schema_def)
  then have "\<And>b bs. execute_query L (le_db le) (le_snapshot_table le) (snapshot_query hex target) = Inr (Some b # bs)
      \<Longrightarrow> str_col b ''tx_id'' = Inl missing_column" by simp
  then show ?thesis
    by (auto simp: fetch_closest_snapshot_def is_ok_iff and_then_Inr split: list.splits option.splits)
qed

text \<open>
  No snapshot ever comes back: the engine writes \<open>tx_id\<close> as an integer column and reads it as a
  string column, so a stored snapshot makes the fetch panic, and the rest are errors.
\<close>

theorem snapshots_are_never_returned:
  assumes "lance_ok L" and "la_schema L (le_db le) (le_snapshot_table le) = Some snapshot_schema"
  shows "\<not> is_ok (fetch_closest_snapshot L le hex target)"
  by (rule snapshot_fetch_fails [OF assms])

definition demo_history :: "op_log list \<Rightarrow> record_batch" where
  "demo_history logs = zip (map fst (history_schema 2)) (history_columns demo logs (Vec_Col False 2 (replicate (length logs) [0, 0])))"

definition demo_snapshot :: record_batch where
  "demo_snapshot = zip (map fst snapshot_schema) [Int_Col [5], Int_Col [100], Str_Col [''0a''], Bin_Col [[1]]]"

text \<open>An engine whose two tables hold one thought and one snapshot.\<close>

definition demo_engine :: "(string \<times> record_batch list) list lance_engine" where
  "demo_engine = (lance_engine_new
      [(''h'', [demo_history [demo_log 1 ''a'' ''x'']]), (''agent_snapshot'', [demo_snapshot])] ''p'' ''h'' mock_provider)
      \<lparr>le_dims := 2\<rparr>"

lemma demo_engine_schemas:
  "la_schema (demo_lance nl) (le_db demo_engine) (le_history_table demo_engine) = Some (history_schema 2)"
  "la_schema (demo_lance nl) (le_db demo_engine) (le_snapshot_table demo_engine) = Some snapshot_schema"
  by (simp_all add: demo_lance_def demo_engine_def lance_engine_new_def demo_history_def demo_snapshot_def
      history_schema_def snapshot_schema_def history_columns_def batch_schema_def)

lemma cold_history_is_unreadable_witness:
  "\<forall>n. fetch_historical_timeline (demo_lance False) demo_engine ''0a'' \<noteq> Inr [n]"
proof
  show "fetch_historical_timeline (demo_lance False) demo_engine ''0a'' \<noteq> Inr [n]" for n
    using cold_history_is_unreadable [OF demo_lance_ok demo_engine_schemas(1), where ns = "[n]" and hex = "''0a''"]
    by auto
qed

lemma snapshots_are_never_returned_witness:
  "\<not> is_ok (fetch_closest_snapshot (demo_lance False) demo_engine ''0a'' 7)"
  by (rule snapshots_are_never_returned [OF demo_lance_ok demo_engine_schemas(2)])

section \<open>The archive\<close>

text \<open>
  The history table's item field is not nullable, the array's is: with Arrow's documented builder
  the record batch is refused and \<open>archive_batch\<close> panics for every batch it does not skip.
\<close>

theorem archive_panics_on_every_batch:
  assumes "lance_ok L" and "nullable_items L" and "logs \<noteq> []" and "length logs = length vectors"
  shows "\<not> is_ok (archive_batch L E le logs vectors)"
proof (cases "la_fixed_list L vectors (le_dims le)")
  case (Inr c)
  have "col_type c = Fixed_Size_List True (le_dims le)"
    using assms(2) Inr unfolding nullable_items_def by blast
  then have "map col_type (history_columns E logs c) \<noteq> map snd (history_schema (le_dims le))"
    by (simp add: history_columns_def history_schema_def)
  then have "la_try_new L (history_schema (le_dims le)) (history_columns E logs c) = None"
    using lance_okD(2) [OF assms(1)] by (metis not_None_eq)
  with Inr assms(3,4) show ?thesis by (simp add: archive_batch_def)
qed (use assms(3,4) in \<open>simp add: archive_batch_def\<close>)

lemma demo_nullable: "nullable_items (demo_lance True)"
  by (auto simp: nullable_items_def demo_lance_def)

lemma archive_panics_on_every_batch_witness:
  "\<not> is_ok (archive_batch (demo_lance True) demo demo_engine [demo_log 1 ''a'' ''x''] [[0, 0]])"
  by (rule archive_panics_on_every_batch [OF demo_lance_ok demo_nullable]) simp_all

text \<open>The cells of an archived thought, its vector aside.\<close>

definition log_row :: "ext \<Rightarrow> op_log \<Rightarrow> row \<Rightarrow> bool" where
  "log_row E l r \<longleftrightarrow>
     map_of r ''tx_id'' = Some (Str_Cell (fmt_032x (ol_txid l)))
   \<and> map_of r ''agent_id'' = Some (Str_Cell (x_hex_encode E (ol_agent_id l)))
   \<and> map_of r ''namespace'' = Some (Str_Cell (ol_namespace l))
   \<and> map_of r ''timestamp'' = Some (Int_Cell (st_timestamp (ol_state l)))
   \<and> map_of r ''status'' = Some (Str_Cell (debug_status (st_status (ol_state l))))
   \<and> map_of r ''text'' = Some (Str_Cell (st_text (ol_state l)))
   \<and> map_of r ''entropy_seeds'' = Some (Str_Cell (x_seeds_to E (ol_entropy_seeds l)))
   \<and> map_of r ''network_responses'' = Some (Str_Cell (x_strings_to E (ol_network_responses l)))
   \<and> map_of r ''payload'' = Some (Bin_Cell (ol_delta l))"

definition holds_logs :: "'db lance \<Rightarrow> ext \<Rightarrow> 'db lance_engine \<Rightarrow> op_log list \<Rightarrow> bool" where
  "holds_logs L E le logs \<longleftrightarrow>
     (le_history_table le \<in> set (la_names L (le_db le)) \<longrightarrow>
        (\<exists>d. la_schema L (le_db le) (le_history_table le) = Some (history_schema d))
      \<and> (\<forall>r \<in> set (la_rows L (le_db le) (le_history_table le)). \<exists>l \<in> set logs. log_row E l r))"

definition cold_of_log :: "ext \<Rightarrow> op_log \<Rightarrow> cold_search_result" where
  "cold_of_log E l =
     \<lparr>cs_tx_id = ol_txid l, cs_agent_hex = x_hex_encode E (ol_agent_id l),
      cs_status = debug_status (st_status (ol_state l)), cs_text = st_text (ol_state l),
      cs_namespace = ol_namespace l, cs_timestamp = st_timestamp (ol_state l), cs_distance = 0\<rparr>"

lemma hex_or_zero_fmt [simp]: "hex_or_zero (fmt_032x x) = x"
  by (simp add: hex_or_zero_def from_str_radix16_fmt_032x)

lemma history_batch_rows:
  assumes "b = zip (map fst (history_schema d)) (history_columns E logs c)"
    and "\<forall>c' \<in> set (history_columns E logs c). col_len c' = length logs"
  shows "\<forall>r \<in> set (map (batch_row b) [0..<col_len (snd (hd b))]). \<exists>l \<in> set logs. log_row E l r"
proof -
  have "col_len (snd (hd b)) = length logs"
    by (simp add: assms(1) history_schema_def history_columns_def)
  moreover have "log_row E (logs ! i) (batch_row b i)" if "i < length logs" for i
    using that by (simp add: log_row_def map_of_batch_row assms(1) history_schema_def history_columns_def)
  ultimately show ?thesis by (auto intro!: bexI [OF _ nth_mem])
qed

lemma commit_batch_Inr:
  assumes "commit_batch L db t (Some b) = Inr db'"
  shows "(t \<in> set (la_names L db) \<and> la_add L db t b = Some db') \<or> (t \<notin> set (la_names L db) \<and> la_create L db t b = Some db')"
  using assms by (auto simp: commit_batch_def Let_def split: if_splits option.splits)

lemma archive_batch_batch:
  assumes "lance_ok L" and "archive_batch L E le logs vectors = Inr le'" and "logs \<noteq> []" and "length logs = length vectors"
  shows "\<exists>c db'. le' = le\<lparr>le_db := db'\<rparr>
     \<and> commit_batch L (le_db le) (le_history_table le)
         (Some (zip (map fst (history_schema (le_dims le))) (history_columns E logs c))) = Inr db'
     \<and> map col_type (history_columns E logs c) = map snd (history_schema (le_dims le))
     \<and> (\<forall>c' \<in> set (history_columns E logs c). col_len c' = length logs)"
proof -
  obtain c b db' where c: "la_try_new L (history_schema (le_dims le)) (history_columns E logs c) = Some b"
    and d: "commit_batch L (le_db le) (le_history_table le) (Some b) = Inr db'" "le' = le\<lparr>le_db := db'\<rparr>"
    using assms(2-4) by (auto simp: archive_batch_def and_then_Inr split: option.splits)
  note ok = lance_okD(1-3) [OF assms(1) c]
  have "col_len (hd (history_columns E logs c)) = length logs" by (simp add: history_columns_def)
  with ok(3) have "\<forall>c' \<in> set (history_columns E logs c). col_len c' = length logs" by metis
  with ok(1,2) d show ?thesis by metis
qed

lemma history_batch_schema:
  assumes "map col_type (history_columns E logs c) = map snd (history_schema d)"
  shows "batch_schema (zip (map fst (history_schema d)) (history_columns E logs c)) = history_schema d"
  using assms by (simp add: batch_schema_def history_schema_def history_columns_def)

text \<open>Archiving keeps the table a table of thoughts: its old ones and the batch.\<close>

lemma archive_batch_holds:
  assumes "lance_ok L" and "holds_logs L E le old" and "archive_batch L E le logs vectors = Inr le'"
  shows "holds_logs L E le' (old @ logs)"
proof (cases "logs = [] \<or> length logs \<noteq> length vectors")
  case True
  then have "le' = le" using assms(3) by (simp add: archive_batch_def)
  with assms(2) show ?thesis unfolding holds_logs_def by (metis Un_iff set_append)
next
  case False
  let ?b = "\<lambda>c. zip (map fst (history_schema (le_dims le))) (history_columns E logs c)"
  let ?t = "le_history_table le"
  obtain c db' where le': "le' = le\<lparr>le_db := db'\<rparr>"
    and cm: "commit_batch L (le_db le) ?t (Some (?b c)) = Inr db'"
    and ty: "map col_type (history_columns E logs c) = map snd (history_schema (le_dims le))"
    and ln: "\<forall>c' \<in> set (history_columns E logs c). col_len c' = length logs"
    using archive_batch_batch [OF assms(1,3)] False by blast
  note rows = history_batch_rows [OF refl ln, of "le_dims le"]
  show ?thesis
  proof (cases "?t \<in> set (la_names L (le_db le))")
    case True
    with commit_batch_Inr [OF cm] have a: "la_add L (le_db le) ?t (?b c) = Some db'" by blast
    note ok = lance_okD(7,8) [OF assms(1) a]
    obtain d where "la_schema L db' ?t = Some (history_schema d)"
      using assms(2) True ok(1) unfolding holds_logs_def by metis
    moreover have "\<forall>r \<in> set (la_rows L db' ?t). \<exists>l \<in> set (old @ logs). log_row E l r"
      using assms(2) True rows unfolding holds_logs_def ok(2) set_append by blast
    ultimately show ?thesis by (auto simp: holds_logs_def le')
  next
    case False
    with commit_batch_Inr [OF cm] have a: "la_create L (le_db le) ?t (?b c) = Some db'" by blast
    note ok = lance_okD(5,6) [OF assms(1) a]
    have "\<forall>r \<in> set (la_rows L db' ?t). \<exists>l \<in> set (old @ logs). log_row E l r"
      using rows unfolding ok(2) set_append by blast
    then show ?thesis using ok(1) history_batch_schema [OF ty] by (auto simp: holds_logs_def le')
  qed
qed

lemma cold_rows_hit:
  assumes "cold_rows b = Inr rs" and "h \<in> set rs"
  shows "\<exists>i tx ag ns st tt ts. map_of b ''tx_id'' = Some (Str_Col tx) \<and> i < length tx
    \<and> map_of b ''agent_id'' = Some (Str_Col ag) \<and> map_of b ''namespace'' = Some (Str_Col ns)
    \<and> map_of b ''status'' = Some (Str_Col st) \<and> map_of b ''text'' = Some (Str_Col tt)
    \<and> map_of b ''timestamp'' = Some (Int_Col ts)
    \<and> h = \<lparr>cs_tx_id = hex_or_zero (tx ! i), cs_agent_hex = ag ! i, cs_status = st ! i, cs_text = tt ! i,
          cs_namespace = ns ! i, cs_timestamp = ts ! i, cs_distance = 0\<rparr>"
  using assms
  by (auto simp: cold_rows_def and_then_Inr str_col_Inr int_col_Inr rows_upto_def split: if_splits, blast)

lemma search_cold_vector_Inr:
  assumes "search_cold_vector L le q f k = Inr hits"
  shows "\<exists>lq stream. lq_nearest lq \<noteq> None \<and> la_open L (le_db le) (le_history_table le)
     \<and> la_query L (le_db le) (le_history_table le) lq = Some stream \<and> collect_batches cold_rows stream = Inr hits"
  using assms unfolding search_cold_vector_def and_then_Inr open_table_def execute_query_def
  by (auto split: if_splits option.splits intro!: exI)


lemma demo_engine_holds: "holds_logs (demo_lance False) demo demo_engine [demo_log 1 ''a'' ''x'']"
  unfolding holds_logs_def
  by (simp add: demo_lance_def demo_engine_def lance_engine_new_def demo_history_def demo_snapshot_def
      history_schema_def history_columns_def batch_schema_def batch_row_def log_row_def)

definition demo_archived :: "(string \<times> record_batch list) list lance_engine" where
  "demo_archived = demo_engine\<lparr>le_db :=
     [(''h'', [demo_history [demo_log 1 ''a'' ''x''], demo_history [demo_log 2 ''a'' ''y'']]),
      (''agent_snapshot'', [demo_snapshot])]\<rparr>"

lemma demo_archive: "archive_batch (demo_lance False) demo demo_engine [demo_log 2 ''a'' ''y''] [[0, 0]] = Inr demo_archived"
  by (simp add: archive_batch_def commit_batch_def Let_def demo_lance_def demo_archived_def demo_engine_def
      lance_engine_new_def demo_history_def history_schema_def history_columns_def)

lemma demo_search:
  "search_cold_vector (demo_lance False) demo_archived [0, 0] None 2 =
     Inr [cold_of_log demo (demo_log 1 ''a'' ''x''), cold_of_log demo (demo_log 2 ''a'' ''y'')]"
  by (simp add: search_cold_vector_def open_table_def execute_query_def demo_archived_def demo_engine_def
      lance_engine_new_def demo_lance_def demo_history_def history_schema_def history_columns_def proper_batch_def
      batch_schema_def with_distance_def cold_rows_def str_col_def int_col_def rows_upto_def cold_of_log_def
      del: replicate.simps)


end
