(* ===== verification/Sandbox.thy ===== *)
theory Sandbox
  imports Lance_Store Cascade
begin

text \<open>
  The WASM cell of src/raqim-core/src/sandbox.rs and the guest library of
  src/raqim-agent-sdk/src/lib.rs: the host functions on the state of a cell and its linear
  memory, the replay and live queues, checkpoints, and the two-pass calls of the guest. The
  wasmtime engine, the HTTP client and the random source are parameters. A trap or an error that
  is returned to wasmtime is \<open>Err\<close>, a panic of the host is \<open>Panic\<close>.
\<close>

section \<open>The cell\<close>

record 'd sandbox =
  sb_node :: "'d node"
  sb_agent_hex :: string
  sb_private_key :: bytes
  sb_cert :: bytes
  sb_live_seeds :: "u64 list"
  sb_live_responses :: "string list"
  sb_live_timestamps :: "i64 list"
  sb_replay_seeds :: "u64 list"
  sb_replay_responses :: "string list"
  sb_replay_timestamps :: "i64 list"
  sb_incoming_cache :: bytes
  sb_response_cache :: bytes
  sb_http_cache :: bytes
  sb_receiver :: bool
  sb_reply_channel :: "nat option"
  sb_replies :: "(nat \<times> bytes) list"
  sb_jobs :: "(bytes \<times> u64 list \<times> string list) list"
  sb_mem :: bytes

section \<open>Guest memory\<close>

text \<open>\<open>x as usize\<close> of an \<open>i32\<close> extends the sign; \<open>ptr + len\<close> wraps at 32 bits.\<close>

definition as_usize :: "i32 \<Rightarrow> nat" where
  "as_usize w = unat (scast w :: u64)"

definition guest_get :: "bytes \<Rightarrow> i32 \<Rightarrow> i32 \<Rightarrow> bytes option" where
  "guest_get mem ptr len =
     (let a = as_usize ptr; b = as_usize (ptr + len) in
      if a \<le> b \<and> b \<le> length mem then Some (take (b - a) (drop a mem)) else None)"

definition guest_write :: "bytes \<Rightarrow> i32 \<Rightarrow> bytes \<Rightarrow> bytes option" where
  "guest_write mem ptr bs =
     (let a = as_usize ptr in
      if a + length bs \<le> length mem then Some (take a mem @ bs @ drop (a + length bs) mem) else None)"

definition cont_byte :: "u8 \<Rightarrow> bool" where
  "cont_byte b \<longleftrightarrow> 0x80 \<le> b \<and> b \<le> 0xBF"

text \<open>\<open>std::str::from_utf8\<close>: the well-formed byte sequences of UTF-8.\<close>

fun utf8_valid :: "bytes \<Rightarrow> bool" where
  "utf8_valid [] = True"
| "utf8_valid (b # bs) =
     (if b < 0x80 then utf8_valid bs
      else if 0xC2 \<le> b \<and> b \<le> 0xDF then
        (case bs of c1 # r \<Rightarrow> cont_byte c1 \<and> utf8_valid r | _ \<Rightarrow> False)
      else if 0xE0 \<le> b \<and> b \<le> 0xEF then
        (case bs of c1 # c2 # r \<Rightarrow>
           cont_byte c1 \<and> cont_byte c2 \<and> (b = 0xE0 \<longrightarrow> 0xA0 \<le> c1) \<and> (b = 0xED \<longrightarrow> c1 \<le> 0x9F) \<and> utf8_valid r
         | _ \<Rightarrow> False)
      else if 0xF0 \<le> b \<and> b \<le> 0xF4 then
        (case bs of c1 # c2 # c3 # r \<Rightarrow>
           cont_byte c1 \<and> cont_byte c2 \<and> cont_byte c3 \<and> (b = 0xF0 \<longrightarrow> 0x90 \<le> c1) \<and> (b = 0xF4 \<longrightarrow> c1 \<le> 0x8F)
           \<and> utf8_valid r
         | _ \<Rightarrow> False)
      else False)"

definition from_utf8 :: "bytes \<Rightarrow> string option" where
  "from_utf8 b = (if utf8_valid b then Some (map (\<lambda>c. char_of (unat c)) b) else None)"

section \<open>Thoughts\<close>

text \<open>
  \<open>host_emit_thought\<close>: the bytes are copied out of the guest and handed to a task of their own,
  with the seeds and the network data that go into the log; the live queues are cleared.
\<close>

definition host_emit_thought :: "'d sandbox \<Rightarrow> i32 \<Rightarrow> i32 \<Rightarrow> 'd sandbox \<times> unit res" where
  "host_emit_thought sb ptr len =
     (case guest_get (sb_mem sb) ptr len of
        None \<Rightarrow> (sb, Inl (Err ''Memory access out of bounds''))
      | Some temp_buffer \<Rightarrow>
          (let seeds_to_save = sb_live_seeds sb;
               network_to_save = sb_replay_responses sb
           in (sb\<lparr>sb_live_responses := [], sb_live_seeds := [],
                  sb_jobs := sb_jobs sb @ [(temp_buffer, seeds_to_save, network_to_save)]\<rparr>, Inr ())))"

text \<open>The spawned task: the cascade on the unchecked view of the bytes.\<close>

definition run_job ::
  "ext \<Rightarrow> ('d, 'v) crdt \<Rightarrow> u64 \<Rightarrow> u128 \<Rightarrow> 'd node \<Rightarrow> bytes \<times> u64 list \<times> string list \<Rightarrow> 'd node \<times> u128 res" where
  "run_job E L now tx_id nd job =
     (let (temp_buffer, seeds, responses) = job
      in execute_raqim_cascade E L now tx_id nd (x_state_unchecked E temp_buffer) seeds responses)"

section \<open>Entropy, time and the network\<close>

definition host_request_entropy :: "u64 \<Rightarrow> 'd sandbox \<Rightarrow> 'd sandbox \<times> u64" where
  "host_request_entropy new_seed sb =
     (case sb_replay_seeds sb of
        seed # rest \<Rightarrow> (sb\<lparr>sb_replay_seeds := rest\<rparr>, seed)
      | [] \<Rightarrow> (sb\<lparr>sb_live_seeds := sb_live_seeds sb @ [new_seed]\<rparr>, new_seed))"

definition host_get_time :: "i64 \<Rightarrow> 'd sandbox \<Rightarrow> 'd sandbox \<times> i64" where
  "host_get_time now sb =
     (case sb_replay_timestamps sb of
        t # rest \<Rightarrow> (sb\<lparr>sb_replay_timestamps := rest\<rparr>, t)
      | [] \<Rightarrow> (sb\<lparr>sb_live_timestamps := sb_live_timestamps sb @ [now]\<rparr>, now))"

definition response_cap :: nat where
  "response_cap = 2 * 1024 * 1024"

text \<open>\<open>http\<close> is the blocking request: the text of the answer, empty on any failure.\<close>

definition host_fetch_url :: "(string \<Rightarrow> string) \<Rightarrow> 'd sandbox \<Rightarrow> i32 \<Rightarrow> i32 \<Rightarrow> 'd sandbox \<times> i32" where
  "host_fetch_url http sb url_ptr url_len =
     (case guest_get (sb_mem sb) url_ptr url_len of
        None \<Rightarrow> (sb, - 1)
      | Some url_bytes \<Rightarrow>
          (case from_utf8 url_bytes of
             None \<Rightarrow> (sb, - 1)
           | Some url \<Rightarrow>
               (let (sb1, response) =
                      (case sb_replay_responses sb of
                         r # rest \<Rightarrow> (sb\<lparr>sb_replay_responses := rest\<rparr>, r)
                       | [] \<Rightarrow> (sb\<lparr>sb_live_responses := sb_live_responses sb @ [http url]\<rparr>, http url));
                    response_bytes = as_bytes response
                in if response_cap < length response_bytes then (sb1, - 1)
                   else (sb1\<lparr>sb_http_cache := response_bytes\<rparr>, word_of_nat (length response_bytes)))))"

definition host_pull_http_response :: "'d sandbox \<Rightarrow> i32 \<Rightarrow> 'd sandbox" where
  "host_pull_http_response sb out_ptr =
     (case guest_write (sb_mem sb) out_ptr (sb_http_cache sb) of
        None \<Rightarrow> sb\<lparr>sb_http_cache := []\<rparr>
      | Some mem \<Rightarrow> sb\<lparr>sb_mem := mem, sb_http_cache := []\<rparr>)"

section \<open>Agent to agent\<close>

definition question_envelope :: "ext \<Rightarrow> i64 \<Rightarrow> 'd sandbox \<Rightarrow> string \<Rightarrow> bytes \<Rightarrow> a2a_envelope" where
  "question_envelope E now_ts sb capability payload_bytes =
     \<lparr>a2a_sender_id = (case x_hex_decode E (sb_agent_hex sb) of
                          None \<Rightarrow> zeros 16
                        | Some id_bytes \<Rightarrow> if length id_bytes = 16 then id_bytes else zeros 16),
      a2a_sender_public_key = x_ed_public E (sb_private_key sb), a2a_target_capability = capability,
      a2a_payload = payload_bytes, a2a_signature = x_ed_sign E (sb_private_key sb) payload_bytes,
      a2a_sender_capability_cert = sb_cert sb, a2a_timestamp = now_ts\<rparr>"

text \<open>An error of the call becomes its answer.\<close>

definition host_ask_agent ::
  "ext \<Rightarrow> (bytes \<Rightarrow> (string option \<times> string option) option) \<Rightarrow> u64 \<Rightarrow> u64
   \<Rightarrow> (string \<Rightarrow> query_target \<Rightarrow> bytes \<Rightarrow> a2a_reply) \<Rightarrow> 'd sandbox \<Rightarrow> i32 \<Rightarrow> i32 \<Rightarrow> i32 \<Rightarrow> i32
   \<Rightarrow> 'd sandbox \<times> i32 res" where
  "host_ask_agent E parse secs nanos mesh sb cap_ptr cap_len payload_ptr payload_len =
     (case Option.bind (guest_get (sb_mem sb) cap_ptr cap_len) from_utf8 of
        None \<Rightarrow> (sb, Inl (Panic ''called unwrap() on the capability''))
      | Some capability \<Rightarrow>
          (case guest_get (sb_mem sb) payload_ptr payload_len of
             None \<Rightarrow> (sb, Inl (Panic ''called Option::unwrap() on a None value''))
           | Some payload_bytes \<Rightarrow>
               (let nd = sb_node sb;
                    (ag, r) = execute_a2a_rpc E parse secs nanos (nd_net nd) (nd_aegis nd)
                                (question_envelope E secs sb capability payload_bytes) mesh;
                    sb1 = sb\<lparr>sb_node := nd\<lparr>nd_aegis := ag\<rparr>\<rparr>
                in case r of
                     Inl (Panic p) \<Rightarrow> (sb1, Inl (Panic p))
                   | _ \<Rightarrow>
                     (let response_bytes = (case r of Inr (b, _) \<Rightarrow> b | Inl (Err e) \<Rightarrow> as_bytes e | Inl (Panic p) \<Rightarrow> [])
                      in if response_cap < length response_bytes then (sb1, Inr (- 1))
                         else (sb1\<lparr>sb_response_cache := response_bytes\<rparr>,
                               Inr (word_of_nat (length response_bytes)))))))"

definition host_pull_a2a_response :: "'d sandbox \<Rightarrow> i32 \<Rightarrow> 'd sandbox \<times> unit res" where
  "host_pull_a2a_response sb out_ptr =
     (case guest_write (sb_mem sb) out_ptr (sb_response_cache sb) of
        None \<Rightarrow> (sb, Inl (Panic ''Failed to write to Guest RAM''))
      | Some mem \<Rightarrow> (sb\<lparr>sb_mem := mem, sb_response_cache := []\<rparr>, Inr ()))"

text \<open>Registering reads the capability with a checked slice and opens the question channel.\<close>

definition host_register_capability :: "'d sandbox \<Rightarrow> i32 \<Rightarrow> i32 \<Rightarrow> 'd sandbox \<times> string res" where
  "host_register_capability sb ptr len =
     (case slice (sb_mem sb) (as_usize ptr) (as_usize (ptr + len)) of
        Inl e \<Rightarrow> (sb, Inl e)
      | Inr cap_bytes \<Rightarrow>
          (case from_utf8 cap_bytes of
             None \<Rightarrow> (sb, Inl (Panic ''called Result::unwrap() on an Err value''))
           | Some capability \<Rightarrow> (sb\<lparr>sb_receiver := True\<rparr>, Inr capability)))"

text \<open>
  The handler that registering gives to the mesh: the question goes to the cell's channel, and
  the cell has fifteen seconds to answer.
\<close>

datatype guest_answer = Answered bytes | Timed_Out | Disconnected

definition mesh_handler :: "bool \<Rightarrow> guest_answer \<Rightarrow> bytes" where
  "mesh_handler sent answer =
     (if sent then
        (case answer of
           Answered data \<Rightarrow> data
         | Timed_Out \<Rightarrow> as_bytes ''A2A_TIMEOUT''
         | Disconnected \<Rightarrow> as_bytes ''A2A_GUEST_CRASH'')
      else as_bytes ''A2A_QUEUE_FULL'')"

text \<open>
  Waiting for a question: what the channel gives next is its bytes and the channel of the answer,
  or \<open>None\<close> when it is closed. The receiver is only put back when a question came.
\<close>

definition host_await_a2a_question :: "'d sandbox \<Rightarrow> (bytes \<times> nat) option \<Rightarrow> 'd sandbox \<times> i32 res" where
  "host_await_a2a_question sb incoming =
     (if \<not> sb_receiver sb then (sb, Inl (Panic ''Must register capability first.''))
      else case incoming of
             None \<Rightarrow> (sb\<lparr>sb_receiver := False\<rparr>, Inr (- 1))
           | Some (question, reply) \<Rightarrow>
               (sb\<lparr>sb_reply_channel := Some reply, sb_incoming_cache := question\<rparr>,
                Inr (word_of_nat (length question))))"

definition host_pull_a2a_question :: "'d sandbox \<Rightarrow> i32 \<Rightarrow> 'd sandbox" where
  "host_pull_a2a_question sb ptr =
     (case guest_write (sb_mem sb) ptr (sb_incoming_cache sb) of
        None \<Rightarrow> sb\<lparr>sb_incoming_cache := []\<rparr>
      | Some mem \<Rightarrow> sb\<lparr>sb_mem := mem, sb_incoming_cache := []\<rparr>)"

definition host_reply_a2a :: "'d sandbox \<Rightarrow> i32 \<Rightarrow> i32 \<Rightarrow> 'd sandbox \<times> unit res" where
  "host_reply_a2a sb ptr len =
     (case slice (sb_mem sb) (as_usize ptr) (as_usize (ptr + len)) of
        Inl e \<Rightarrow> (sb, Inl e)
      | Inr answer \<Rightarrow>
          (case sb_reply_channel sb of
             None \<Rightarrow> (sb, Inr ())
           | Some reply \<Rightarrow> (sb\<lparr>sb_reply_channel := None, sb_replies := sb_replies sb @ [(reply, answer)]\<rparr>, Inr ())))"

section \<open>Running an agent\<close>

text \<open>
  What the guest does: a host call with what the environment answers it, or a write of its own.
  A call that traps or panics ends the run.
\<close>

datatype host_call =
    Emit_Thought i32 i32
  | Request_Entropy u64
  | Get_Time i64
  | Fetch_Url "string \<Rightarrow> string" i32 i32
  | Pull_Http i32
  | Pull_A2a i32
  | Register_Capability i32 i32
  | Await_Question "(bytes \<times> nat) option"
  | Pull_Question i32
  | Reply i32 i32
  | Guest_Store i32 bytes

fun host_step :: "'d sandbox \<Rightarrow> host_call \<Rightarrow> 'd sandbox \<times> unit res" where
  "host_step sb (Emit_Thought ptr len) = host_emit_thought sb ptr len"
| "host_step sb (Request_Entropy new_seed) = (fst (host_request_entropy new_seed sb), Inr ())"
| "host_step sb (Get_Time now) = (fst (host_get_time now sb), Inr ())"
| "host_step sb (Fetch_Url http ptr len) = (fst (host_fetch_url http sb ptr len), Inr ())"
| "host_step sb (Pull_Http out) = (host_pull_http_response sb out, Inr ())"
| "host_step sb (Pull_A2a out) = host_pull_a2a_response sb out"
| "host_step sb (Register_Capability ptr len) =
     (case host_register_capability sb ptr len of (sb1, r) \<Rightarrow> (sb1, and_then r (\<lambda>_. Inr ())))"
| "host_step sb (Await_Question incoming) =
     (case host_await_a2a_question sb incoming of (sb1, r) \<Rightarrow> (sb1, and_then r (\<lambda>_. Inr ())))"
| "host_step sb (Pull_Question ptr) = (host_pull_a2a_question sb ptr, Inr ())"
| "host_step sb (Reply ptr len) = host_reply_a2a sb ptr len"
| "host_step sb (Guest_Store ptr bs) =
     (case guest_write (sb_mem sb) ptr bs of
        None \<Rightarrow> (sb, Inl (Err ''wasm trap: out of bounds memory access''))
      | Some mem \<Rightarrow> (sb\<lparr>sb_mem := mem\<rparr>, Inr ()))"

fun run_calls :: "'d sandbox \<Rightarrow> host_call list \<Rightarrow> 'd sandbox \<times> unit res" where
  "run_calls sb [] = (sb, Inr ())"
| "run_calls sb (c # cs) =
     (case host_step sb c of
        (sb1, Inl e) \<Rightarrow> (sb1, Inl e)
      | (sb1, Inr _) \<Rightarrow> run_calls sb1 cs)"

text \<open>
  The engine: whether the bytes compile, what instantiation gives (the flag is the engine's async
  support), and whether the module exports \<open>agent_main\<close>.
\<close>

record wasm =
  wa_module :: "bytes \<Rightarrow> bool"
  wa_instantiate :: "bool \<Rightarrow> bytes \<Rightarrow> bytes res"
  wa_main :: "bytes \<Rightarrow> bool"

text \<open>The environment of a cell: the default, then the overrides of a fork, in order.\<close>

record fork_config =
  fk_override_seed :: "u64 option"
  fk_inject_network :: "string option"
  fk_env_overrides :: "(string \<times> string) list"
  fk_config_overrides :: "(string \<times> string) list"

definition build_wasi_context :: "fork_config option \<Rightarrow> (string \<times> string) list" where
  "build_wasi_context fork =
     (''raqim_VERSION'', ''1.0.0'') #
       (case fork of None \<Rightarrow> []
        | Some f \<Rightarrow> fk_env_overrides f @ map (\<lambda>(k, v). (''raqim_CFG_'' @ k, v)) (fk_config_overrides f))"

text \<open>\<open>WasmEngine::new\<close> turns async support on.\<close>

definition engine_async :: bool where
  "engine_async = True"

record checkpoint_tracker =
  ct_last_tx :: u128
  ct_last_time :: u64

definition tx_threshold_met :: "checkpoint_tracker \<Rightarrow> u128 \<Rightarrow> bool" where
  "tx_threshold_met tr current_tx_id \<longleftrightarrow> 10000 \<le> current_tx_id - ct_last_tx tr"

definition time_threshold_met :: "checkpoint_tracker \<Rightarrow> u64 \<Rightarrow> bool" where
  "time_threshold_met tr current_time \<longleftrightarrow> 86400 \<le> current_time - ct_last_time tr"

definition create_checkpoint :: "'d sandbox \<Rightarrow> bytes" where
  "create_checkpoint sb = sb_mem sb"

definition inject_historical_state :: "'d sandbox \<Rightarrow> bytes \<Rightarrow> 'd sandbox res" where
  "inject_historical_state sb snapshot =
     (case guest_write (sb_mem sb) 0 snapshot of
        None \<Rightarrow> Inl (Err ''Failed to inject historical timeline'')
      | Some mem \<Rightarrow> Inr (sb\<lparr>sb_mem := mem\<rparr>))"

text \<open>A snapshot handed to the store: its id (cut to 64 bits), time, agent and bytes.\<close>

type_synonym snapshot_job = "i64 \<times> i64 \<times> string \<times> bytes"

definition checkpoint ::
  "'d sandbox \<Rightarrow> checkpoint_tracker \<Rightarrow> u128 \<Rightarrow> u64 \<Rightarrow> checkpoint_tracker \<times> snapshot_job option" where
  "checkpoint sb tr current_tx_id current_time =
     (if tx_threshold_met tr current_tx_id \<or> time_threshold_met tr current_time then
        (\<lparr>ct_last_tx = current_tx_id, ct_last_time = current_time\<rparr>,
         Some (ucast current_tx_id, current_time, sb_agent_hex sb, create_checkpoint sb))
      else (tr, None))"

definition execute_agent ::
  "wasm \<Rightarrow> bytes \<Rightarrow> 'd sandbox \<Rightarrow> checkpoint_tracker \<Rightarrow> u128 \<Rightarrow> u64 \<Rightarrow> bytes option \<Rightarrow> host_call list
   \<Rightarrow> 'd sandbox \<times> checkpoint_tracker \<times> snapshot_job option \<times> unit res" where
  "execute_agent W binary sb tr current_tx_id current_time historical_snapshot calls =
     (if \<not> wa_module W binary then (sb, tr, None, Inl (Err ''wasm compilation error''))
      else case wa_instantiate W engine_async binary of
        Inl e \<Rightarrow> (sb, tr, None, Inl e)
      | Inr mem \<Rightarrow>
          (let sb1 = sb\<lparr>sb_mem := mem\<rparr> in
           case (case historical_snapshot of None \<Rightarrow> Inr sb1 | Some s \<Rightarrow> inject_historical_state sb1 s) of
             Inl e \<Rightarrow> (sb1, tr, None, Inl e)
           | Inr sb2 \<Rightarrow>
               (let (tr1, job) = checkpoint sb2 tr current_tx_id current_time in
                if \<not> wa_main W binary then (sb2, tr1, job, Inl (Err ''failed to find function export''))
                else (case run_calls sb2 calls of
                        (sb3, Inl (Panic p)) \<Rightarrow> (sb3, tr1, job, Inl (Panic p))
                      | (sb3, _) \<Rightarrow> (sb3, tr1, job, Inr ())))))"

section \<open>The guest library\<close>

text \<open>
  The two-pass calls of the SDK on the cell: \<open>url_ptr\<close> and \<open>url_len\<close> are where the argument lies,
  \<open>buf\<close> is where the guest's allocator puts the answer's buffer, which is zeroed.
\<close>

definition raqim_fetch_url ::
  "(string \<Rightarrow> string) \<Rightarrow> 'd sandbox \<Rightarrow> i32 \<Rightarrow> i32 \<Rightarrow> i32 \<Rightarrow> 'd sandbox \<times> string res" where
  "raqim_fetch_url http sb url_ptr url_len buf =
     (case host_fetch_url http sb url_ptr url_len of
        (sb1, required_size) \<Rightarrow>
          if required_size <s 0 then (sb1, Inl (Err ''Network request failed or payload exceeds 2MB limit ''))
          else if required_size = 0 then (sb1, Inr [])
          else
            (let sb2 = sb1\<lparr>sb_mem := (case guest_write (sb_mem sb1) buf (zeros (unat required_size)) of
                                        None \<Rightarrow> sb_mem sb1 | Some m \<Rightarrow> m)\<rparr>;
                 sb3 = host_pull_http_response sb2 buf
             in (sb3, case Option.bind (guest_get (sb_mem sb3) buf required_size) from_utf8 of
                        None \<Rightarrow> Inl (Err ''invalid utf-8 sequence'')
                      | Some text \<Rightarrow> Inr text)))"

definition raqim_ask_swarm ::
  "ext \<Rightarrow> (bytes \<Rightarrow> (string option \<times> string option) option) \<Rightarrow> u64 \<Rightarrow> u64
   \<Rightarrow> (string \<Rightarrow> query_target \<Rightarrow> bytes \<Rightarrow> a2a_reply) \<Rightarrow> 'd sandbox \<Rightarrow> i32 \<Rightarrow> i32 \<Rightarrow> i32 \<Rightarrow> i32 \<Rightarrow> i32
   \<Rightarrow> 'd sandbox \<times> bytes res" where
  "raqim_ask_swarm E parse secs nanos mesh sb cap_ptr cap_len q_ptr q_len buf =
     (case host_ask_agent E parse secs nanos mesh sb cap_ptr cap_len q_ptr q_len of
        (sb1, Inl e) \<Rightarrow> (sb1, Inl e)
      | (sb1, Inr required_size) \<Rightarrow>
          if required_size <s 0 then (sb1, Inl (Err ''A2A Request Failed or Payload exceeds 2MB limit ''))
          else if required_size = 0 then (sb1, Inr [])
          else
            (let sb2 = sb1\<lparr>sb_mem := (case guest_write (sb_mem sb1) buf (zeros (unat required_size)) of
                                        None \<Rightarrow> sb_mem sb1 | Some m \<Rightarrow> m)\<rparr>
             in case host_pull_a2a_response sb2 buf of
                  (sb3, Inl e) \<Rightarrow> (sb3, Inl e)
                | (sb3, Inr _) \<Rightarrow>
                    (sb3, Inr (case guest_get (sb_mem sb3) buf required_size of None \<Rightarrow> [] | Some b \<Rightarrow> b))))"

text \<open>
  One turn of \<open>server_capability\<close>: \<open>q_buf\<close> and \<open>a_buf\<close> are the buffers of the question and of
  the handler's answer. \<open>None\<close> ends the loop.
\<close>

definition serve_turn ::
  "(bytes \<Rightarrow> bytes) \<Rightarrow> 'd sandbox \<Rightarrow> (bytes \<times> nat) option \<Rightarrow> i32 \<Rightarrow> i32 \<Rightarrow> 'd sandbox \<times> bool res" where
  "serve_turn handler sb incoming q_buf a_buf =
     (case host_await_a2a_question sb incoming of
        (sb1, Inl e) \<Rightarrow> (sb1, Inl e)
      | (sb1, Inr exact_len) \<Rightarrow>
          if 0 <s exact_len then
            (let sb2 = host_pull_a2a_question sb1 q_buf;
                 answer = handler (case guest_get (sb_mem sb2) q_buf exact_len of None \<Rightarrow> [] | Some q \<Rightarrow> q)
             in case guest_write (sb_mem sb2) a_buf answer of
                  None \<Rightarrow> (sb2, Inl (Err ''wasm trap: out of bounds memory access''))
                | Some mem \<Rightarrow>
                    (case host_reply_a2a (sb2\<lparr>sb_mem := mem\<rparr>) a_buf (word_of_nat (length answer)) of
                       (sb3, r) \<Rightarrow> (sb3, and_then r (\<lambda>_. Inr True))))
          else (sb1, Inr (\<not> exact_len <s 0)))"

section \<open>Guest memory stays inside its bounds\<close>

lemma guest_write_length: "guest_write mem ptr bs = Some mem' \<Longrightarrow> length mem' = length mem"
  by (auto simp: guest_write_def Let_def split: if_splits)

lemma guest_get_length: "guest_get mem ptr len = Some bs \<Longrightarrow> length bs \<le> length mem"
  by (auto simp: guest_get_def Let_def split: if_splits)

lemma host_step_memory: "length (sb_mem (fst (host_step sb c))) = length (sb_mem sb)"
  by (cases c)
    (auto simp: host_emit_thought_def host_request_entropy_def host_get_time_def host_fetch_url_def
      host_pull_http_response_def host_pull_a2a_response_def host_register_capability_def
      host_await_a2a_question_def host_pull_a2a_question_def host_reply_a2a_def Let_def
      split: option.splits list.splits sum.splits prod.splits dest: guest_write_length)

lemma run_calls_memory: "length (sb_mem (fst (run_calls sb cs))) = length (sb_mem sb)"
proof (induction cs arbitrary: sb)
  case (Cons c cs)
  have "length (sb_mem (fst (host_step sb c))) = length (sb_mem sb)" by (rule host_step_memory)
  then show ?case using Cons.IH [of "fst (host_step sb c)"] by (auto split: prod.splits sum.splits)
qed simp

section \<open>Replay\<close>

text \<open>
  The calls through which an agent perceives the world, with what the world answers when it is
  asked live, and what the guest sees.
\<close>

datatype sense = Sense_Entropy | Sense_Time | Sense_Url i32 i32 | Sense_Pull i32

record world =
  w_seed :: u64
  w_now :: i64
  w_http :: "string \<Rightarrow> string"

datatype percept = Saw_Seed u64 | Saw_Time i64 | Saw_Len i32 | Saw_Nothing

fun sense_step :: "world \<Rightarrow> 'd sandbox \<Rightarrow> sense \<Rightarrow> 'd sandbox \<times> percept" where
  "sense_step w sb Sense_Entropy = map_prod id Saw_Seed (host_request_entropy (w_seed w) sb)"
| "sense_step w sb Sense_Time = map_prod id Saw_Time (host_get_time (w_now w) sb)"
| "sense_step w sb (Sense_Url ptr len) = map_prod id Saw_Len (host_fetch_url (w_http w) sb ptr len)"
| "sense_step w sb (Sense_Pull out) = (host_pull_http_response sb out, Saw_Nothing)"

fun sense_run :: "'d sandbox \<Rightarrow> (world \<times> sense) list \<Rightarrow> 'd sandbox \<times> percept list" where
  "sense_run sb [] = (sb, [])"
| "sense_run sb ((w, c) # cs) =
     (let (sb1, p) = sense_step w sb c; (sb2, ps) = sense_run sb1 cs in (sb2, p # ps))"

definition live :: "'d sandbox \<Rightarrow> bool" where
  "live sb \<longleftrightarrow> sb_replay_seeds sb = [] \<and> sb_replay_responses sb = [] \<and> sb_replay_timestamps sb = []"

definition same_guest :: "'d sandbox \<Rightarrow> 'd sandbox \<Rightarrow> bool" where
  "same_guest a b \<longleftrightarrow> sb_mem a = sb_mem b \<and> sb_http_cache a = sb_http_cache b"

text \<open>The replay queues of \<open>rp\<close> hold what is given, before what is left.\<close>

definition queued ::
  "'d sandbox \<Rightarrow> u64 list \<Rightarrow> string list \<Rightarrow> i64 list \<Rightarrow> u64 list \<Rightarrow> string list \<Rightarrow> i64 list \<Rightarrow> bool" where
  "queued rp ds dr dt qs qr qt \<longleftrightarrow> sb_replay_seeds rp = ds @ qs \<and> sb_replay_responses rp = dr @ qr
     \<and> sb_replay_timestamps rp = dt @ qt"

lemma sense_step_replays:
  assumes "live sb" and "sense_step w sb c = (sb', p)"
  shows "live sb' \<and> (\<exists>ds dr dt.
      sb_live_seeds sb' = sb_live_seeds sb @ ds \<and> sb_live_responses sb' = sb_live_responses sb @ dr
    \<and> sb_live_timestamps sb' = sb_live_timestamps sb @ dt
    \<and> (\<forall>w2 rp qs qr qt. same_guest sb rp \<longrightarrow> queued rp ds dr dt qs qr qt \<longrightarrow>
         (\<exists>rp'. sense_step w2 rp c = (rp', p) \<and> same_guest sb' rp' \<and> queued rp' [] [] [] qs qr qt)))"
proof (cases c)
  case Sense_Entropy
  then show ?thesis using assms
    by (intro conjI exI [of _ "[w_seed w]"] exI [of _ "[]"])
      (auto simp: live_def host_request_entropy_def same_guest_def queued_def split: list.splits)
next
  case Sense_Time
  then show ?thesis using assms
    by (intro conjI exI [of _ "[w_now w]"] exI [of _ "[]"])
      (auto simp: live_def host_get_time_def same_guest_def queued_def split: list.splits)
next
  case (Sense_Url ptr len)
  show ?thesis
  proof (cases "Option.bind (guest_get (sb_mem sb) ptr len) from_utf8")
    case None
    then have "sb' = sb \<and> p = Saw_Len (- 1)"
      using assms(2) Sense_Url by (auto simp: host_fetch_url_def split: option.splits)
    then show ?thesis using assms Sense_Url None
      by (intro conjI exI [of _ "[]"])
        (auto simp: host_fetch_url_def same_guest_def queued_def bind_eq_None_conv split: option.splits)
  next
    case (Some url)
    then show ?thesis using assms Sense_Url
      by (intro conjI exI [of _ "[]"] exI [of _ "[w_http w url]"])
        (auto simp: live_def host_fetch_url_def same_guest_def queued_def bind_eq_Some_conv Let_def split: if_splits)
  qed
next
  case (Sense_Pull out)
  then show ?thesis using assms
    by (intro conjI exI [of _ "[]"])
      (auto simp: live_def host_pull_http_response_def same_guest_def queued_def split: option.splits)
qed

text \<open>
  C26. Deterministic replay. What a live run of perceptions recorded, loaded into the replay queues of
  a cell with the same guest memory, gives the same perceptions again, call by call, whatever the
  world answers now, and is used up exactly: nothing of it is left and nothing new is recorded.
\<close>

theorem recorded_run_replays:
  assumes "live sb" and "sense_run sb cs = (sb', ps)" and "same_guest sb rp"
    and "sb_live_seeds sb' = sb_live_seeds sb @ sb_replay_seeds rp"
    and "sb_live_responses sb' = sb_live_responses sb @ sb_replay_responses rp"
    and "sb_live_timestamps sb' = sb_live_timestamps sb @ sb_replay_timestamps rp"
    and "length ws = length cs"
  shows "\<exists>rp'. sense_run rp (zip ws (map snd cs)) = (rp', ps) \<and> same_guest sb' rp' \<and> live rp'"
proof -
  have gen: "live sb' \<and> (\<exists>ds dr dt.
      sb_live_seeds sb' = sb_live_seeds sb @ ds \<and> sb_live_responses sb' = sb_live_responses sb @ dr
    \<and> sb_live_timestamps sb' = sb_live_timestamps sb @ dt
    \<and> (\<forall>ws rp qs qr qt. length ws = length cs \<longrightarrow> same_guest sb rp \<longrightarrow> queued rp ds dr dt qs qr qt \<longrightarrow>
         (\<exists>rp'. sense_run rp (zip ws (map snd cs)) = (rp', ps) \<and> same_guest sb' rp' \<and> queued rp' [] [] [] qs qr qt)))"
    if "live sb" and "sense_run sb cs = (sb', ps)" for sb :: "'a sandbox" and sb' cs ps
    using that
  proof (induction cs arbitrary: sb ps)
    case Nil
    then show ?case by (auto intro!: exI [of _ "[]"])
  next
    case (Cons wc cs)
    obtain w c where wc: "wc = (w, c)" by fastforce
    obtain sb1 p where s1: "sense_step w sb c = (sb1, p)" by fastforce
    obtain ps1 where r1: "sense_run sb1 cs = (sb', ps1)" and ps: "ps = p # ps1"
      using Cons.prems(2) wc s1 by (auto split: prod.splits)
    from sense_step_replays [OF Cons.prems(1) s1] obtain ds dr dt where l1: "live sb1"
      and d: "sb_live_seeds sb1 = sb_live_seeds sb @ ds" "sb_live_responses sb1 = sb_live_responses sb @ dr"
        "sb_live_timestamps sb1 = sb_live_timestamps sb @ dt"
      and st: "\<And>w2 rp qs qr qt. same_guest sb rp \<Longrightarrow> queued rp ds dr dt qs qr qt \<Longrightarrow>
         \<exists>rp'. sense_step w2 rp c = (rp', p) \<and> same_guest sb1 rp' \<and> queued rp' [] [] [] qs qr qt" by blast
    from Cons.IH [OF l1 r1] obtain es er et where l': "live sb'"
      and e: "sb_live_seeds sb' = sb_live_seeds sb1 @ es" "sb_live_responses sb' = sb_live_responses sb1 @ er"
        "sb_live_timestamps sb' = sb_live_timestamps sb1 @ et"
      and rn: "\<And>ws rp qs qr qt. length ws = length cs \<Longrightarrow> same_guest sb1 rp \<Longrightarrow> queued rp es er et qs qr qt \<Longrightarrow>
         \<exists>rp'. sense_run rp (zip ws (map snd cs)) = (rp', ps1) \<and> same_guest sb' rp' \<and> queued rp' [] [] [] qs qr qt"
      by blast
    have "\<exists>rp'. sense_run rp (zip ws (map snd (wc # cs))) = (rp', ps) \<and> same_guest sb' rp' \<and> queued rp' [] [] [] qs qr qt"
      if len: "length ws = length (wc # cs)" and g: "same_guest sb rp"
        and q: "queued rp (ds @ es) (dr @ er) (dt @ et) qs qr qt" for ws rp qs qr qt
    proof -
      obtain w2 ws2 where ws: "ws = w2 # ws2" "length ws2 = length cs" using len by (cases ws) auto
      have "queued rp ds dr dt (es @ qs) (er @ qr) (et @ qt)" using q by (simp add: queued_def)
      from st [OF g this] obtain rp1 where rp1: "sense_step w2 rp c = (rp1, p)" "same_guest sb1 rp1"
        "queued rp1 [] [] [] (es @ qs) (er @ qr) (et @ qt)" by blast
      then have "queued rp1 es er et qs qr qt" by (simp add: queued_def)
      from rn [OF ws(2) rp1(2) this] rp1(1) ws(1) wc ps show ?thesis by auto
    qed
    then show ?case using l' d e
      by (intro conjI exI [of _ "ds @ es"] exI [of _ "dr @ er"] exI [of _ "dt @ et"]) auto
  qed
  from gen [OF assms(1,2)] assms(3-7) show ?thesis
    by (auto simp: queued_def live_def)
qed

definition demo_sandbox :: "bytes \<Rightarrow> (string \<times> crdt_entry list) list sandbox" where
  "demo_sandbox mem = \<lparr>sb_node = demo_node, sb_agent_hex = ''0a'', sb_private_key = [2], sb_cert = demo_cert,
     sb_live_seeds = [], sb_live_responses = [], sb_live_timestamps = [], sb_replay_seeds = [],
     sb_replay_responses = [], sb_replay_timestamps = [], sb_incoming_cache = [], sb_response_cache = [],
     sb_http_cache = [], sb_receiver = True, sb_reply_channel = None, sb_replies = [], sb_jobs = [], sb_mem = mem\<rparr>"

lemma recorded_run_replays_witness:
  "\<exists>rp'. sense_run ((demo_sandbox [])\<lparr>sb_replay_seeds := [7], sb_replay_timestamps := [9]\<rparr>)
      [(\<lparr>w_seed = 1, w_now = 2, w_http = id\<rparr>, Sense_Entropy), (\<lparr>w_seed = 1, w_now = 2, w_http = id\<rparr>, Sense_Time)]
    = (rp', [Saw_Seed 7, Saw_Time 9])"
proof -
  let ?w = "\<lparr>w_seed = 7, w_now = 9, w_http = id\<rparr>" and ?v = "\<lparr>w_seed = 1, w_now = 2, w_http = id\<rparr>"
  obtain sb' ps where r: "sense_run (demo_sandbox []) [(?w, Sense_Entropy), (?w, Sense_Time)] = (sb', ps)" by fastforce
  then have s: "ps = [Saw_Seed 7, Saw_Time 9]" "sb_live_seeds sb' = [7]" "sb_live_responses sb' = []"
    "sb_live_timestamps sb' = [9]"
    by (auto simp: demo_sandbox_def host_request_entropy_def host_get_time_def)
  have l: "live (demo_sandbox [])" by (simp add: live_def demo_sandbox_def)
  from recorded_run_replays [OF l r, of "(demo_sandbox [])\<lparr>sb_replay_seeds := [7], sb_replay_timestamps := [9]\<rparr>" "[?v, ?v]"]
  show ?thesis using s by (auto simp: same_guest_def demo_sandbox_def)
qed

section \<open>What an emitted thought records\<close>

text \<open>
  The network data of a live run is lost. A thought emitted live goes into the ledger with the
  recorded seeds, but with the responses of the replay queue, which is empty, in the place of the
  recorded ones; and the recorded ones are cleared.
\<close>

theorem live_responses_are_not_recorded:
  assumes "crdt_ok L" and "live sb" and "host_emit_thought sb ptr len = (sb', Inr ())"
    and "guest_get (sb_mem sb) ptr len = Some buf" and "named_agent (x_state_unchecked E buf) aid"
    and "run_job E L now tx nd (last (sb_jobs sb')) = (nd', r)"
  shows "sb_live_responses sb' = [] \<and> (\<exists>log. wal_queue (nd_wal nd') = wal_queue (nd_wal nd) @ [log]
     \<and> ol_agent_id log = aid \<and> ol_entropy_seeds log = sb_live_seeds sb \<and> ol_network_responses log = [])"
proof -
  have j: "last (sb_jobs sb') = (buf, sb_live_seeds sb, [])" "sb_live_responses sb' = []"
    using assms(2-4) by (auto simp: host_emit_thought_def live_def)
  then have "execute_raqim_cascade E L now tx nd (x_state_unchecked E buf) (sb_live_seeds sb) [] = (nd', r)"
    using assms(6) by (simp add: run_job_def)
  from cascade_one_log [OF assms(1,5) this] j(2) show ?thesis by blast
qed

definition demo_cell :: ext where
  "demo_cell = demo\<lparr>x_state_unchecked := \<lambda>_. demo_state (replicate 16 1) ''a'' ''x''\<rparr>"

lemma live_responses_are_not_recorded_witness:
  "\<exists>sb' nd' log. host_emit_thought ((demo_sandbox [3])\<lparr>sb_live_responses := [''page'']\<rparr>) 0 1 = (sb', Inr ())
     \<and> fst (run_job demo_cell demo_crdt 100 5 demo_node (last (sb_jobs sb'))) = nd'
     \<and> wal_queue (nd_wal nd') = wal_queue (nd_wal demo_node) @ [log] \<and> ol_network_responses log = []"
proof -
  let ?sb = "(demo_sandbox [3])\<lparr>sb_live_responses := [''page'']\<rparr>"
  have g: "guest_get (sb_mem ?sb) 0 1 = Some [3]" by (simp add: guest_get_def as_usize_def demo_sandbox_def)
  then obtain sb' where e: "host_emit_thought ?sb 0 1 = (sb', Inr ())" by (simp add: host_emit_thought_def)
  obtain nd' r where j: "run_job demo_cell demo_crdt 100 5 demo_node (last (sb_jobs sb')) = (nd', r)" by fastforce
  have l: "live ?sb" by (simp add: live_def demo_sandbox_def)
  have n: "named_agent (x_state_unchecked demo_cell [3]) (replicate 16 1)" by (simp add: demo_cell_def demo_named)
  from live_responses_are_not_recorded [OF demo_crdt_ok l e g n j] e j show ?thesis by auto
qed

section \<open>The two-pass calls\<close>

lemma as_usize_sint: "as_usize w = nat (sint w mod 2 ^ 64)"
proof -
  have "uint (scast w :: u64) = sint w mod 2 ^ 64" unfolding scast_eq uint_word_of_int by simp
  then show ?thesis unfolding as_usize_def by (simp only: unat_eq_nat_uint)
qed

lemma sint_small: "unat (w :: i32) < 2 ^ 31 \<Longrightarrow> sint w = uint w"
proof -
  assume "unat w < 2 ^ 31"
  then have "int (unat w) < int (2 ^ 31)" by (simp only: of_nat_less_iff)
  then have "uint w < 2 ^ 31" unfolding uint_nat [symmetric] by simp
  moreover have "- (2 ^ 31) \<le> uint w" by (rule order_trans [of _ 0]) simp_all
  ultimately have "signed_take_bit 31 (uint w) = uint w" by (intro signed_take_bit_int_eq_self)
  then show ?thesis by (simp add: sint_uint)
qed

lemma as_usize_unat: "unat w < 2 ^ 31 \<Longrightarrow> as_usize w = unat w"
proof -
  assume a: "unat w < 2 ^ 31"
  have "uint w < 2 ^ 32" using uint_lt2p [of w] by simp
  then have "uint w < 2 ^ 64" by (rule order.strict_trans) simp
  then have "uint w mod 2 ^ 64 = uint w" by (intro mod_pos_pos_trivial) simp_all
  then show ?thesis unfolding as_usize_sint sint_small [OF a] by (simp only: unat_eq_nat_uint)
qed

text \<open>A pointer whose position is below 2 GiB is not negative.\<close>

lemma as_usize_small:
  assumes "as_usize w < 2 ^ 31"
  shows "as_usize w = unat w" "unat w < 2 ^ 31"
proof -
  have "unat w < 2 ^ 31"
  proof (rule ccontr)
    assume "\<not> unat w < 2 ^ 31"
    then have "int (2 ^ 31) \<le> int (unat w)" by (simp only: of_nat_le_iff not_less)
    then have u: "2147483648 \<le> uint w" unfolding uint_nat [symmetric] by simp
    moreover have "uint w < 4294967296" using uint_lt2p [of w] by simp
    ultimately have "uint w div 2147483648 = 1" by (simp add: div_pos_geq)
    then have s: "sint w = uint w - 2 ^ 32" using uint_lt2p [of w]
      by (simp add: sint_uint signed_take_bit_eq_take_bit_minus take_bit_eq_mod bit_iff_odd)
    have "sint w mod 2 ^ 64 = (sint w + 2 ^ 64) mod 2 ^ 64" by simp
    also have "\<dots> = sint w + 2 ^ 64" using u s uint_lt2p [of w] by (intro mod_pos_pos_trivial) simp_all
    finally show False using assms u s unfolding as_usize_sint by simp
  qed
  then show "as_usize w = unat w" "unat w < 2 ^ 31" by (simp_all add: as_usize_unat)
qed

lemma as_usize_add:
  assumes "as_usize p + n < 2 ^ 31"
  shows "as_usize (p + word_of_nat n) = as_usize p + n"
proof -
  have p: "as_usize p = unat p" using as_usize_small [of p] assms by simp
  have "unat (word_of_nat n :: i32) = n" using assms by (simp add: unat_of_nat)
  then have "unat (p + word_of_nat n) = unat p + n"
    using assms p by (subst unat_plus_bounded) simp_all
  then show ?thesis using as_usize_unat [of "p + word_of_nat n"] p assms by simp
qed

text \<open>Buffers that lie inside a memory of less than 2 GiB are read and written as they are.\<close>

definition fits :: "bytes \<Rightarrow> i32 \<Rightarrow> nat \<Rightarrow> bool" where
  "fits mem p n \<longleftrightarrow> as_usize p + n \<le> length mem \<and> length mem < 2 ^ 31"

lemma fits_get: "fits mem p n \<Longrightarrow> guest_get mem p (word_of_nat n) = Some (take n (drop (as_usize p) mem))"
  using as_usize_add [of p n] by (simp add: guest_get_def fits_def Let_def)

lemma fits_write:
  "fits mem p (length bs) \<Longrightarrow> \<exists>mem'. guest_write mem p bs = Some mem' \<and> length mem' = length mem
     \<and> take (length bs) (drop (as_usize p) mem') = bs"
  by (auto simp: guest_write_def fits_def Let_def)

lemma len_i32:
  assumes "n < 2 ^ 31"
  shows "unat (word_of_nat n :: i32) = n" "\<not> (word_of_nat n :: i32) <s 0" "((word_of_nat n :: i32) = 0) = (n = 0)"
    "(0 <s (word_of_nat n :: i32)) = (0 < n)"
proof -
  show u: "unat (word_of_nat n :: i32) = n" using assms by (simp add: unat_of_nat)
  then have "unat (word_of_nat n :: i32) < 2 ^ 31" using assms by simp
  then have "sint (word_of_nat n :: i32) = uint (word_of_nat n :: i32)" by (rule sint_small)
  also have "\<dots> = int n" unfolding uint_nat u ..
  finally have s: "sint (word_of_nat n :: i32) = int n" .
  show "\<not> (word_of_nat n :: i32) <s 0" unfolding word_sless_alt s by simp
  show "(0 <s (word_of_nat n :: i32)) = (0 < n)" unfolding word_sless_alt s by simp
  show "((word_of_nat n :: i32) = 0) = (n = 0)"
  proof
    assume "(word_of_nat n :: i32) = 0"
    then have "unat (word_of_nat n :: i32) = 0" by simp
    then show "n = 0" unfolding u .
  qed simp
qed

lemma from_utf8_as_bytes: "utf8_valid (as_bytes s) \<Longrightarrow> from_utf8 (as_bytes s) = Some s"
proof -
  have "as_text (as_bytes s) = s" unfolding as_text_def as_bytes_def map_map comp_def by simp
  then have "map (\<lambda>c. char_of (unat (c :: u8))) (as_bytes s) = s" unfolding as_text_def .
  then show "utf8_valid (as_bytes s) \<Longrightarrow> ?thesis" by (simp add: from_utf8_def)
qed

lemma fits_slice: "fits mem p n \<Longrightarrow>
    slice mem (as_usize p) (as_usize (p + word_of_nat n)) = Inr (take n (drop (as_usize p) mem))"
  using as_usize_add [of p n] by (simp add: fits_def slice_def)

lemma fits_after: "guest_write mem p bs = Some mem' \<Longrightarrow> fits mem' q n = fits mem q n"
  by (simp add: fits_def guest_write_length)

lemma fits_len: "fits mem p n \<Longrightarrow> n < 2 ^ 31"
  by (simp add: fits_def)

text \<open>
  C27. The first pass of a fetch measures the page and the second one moves it: a live fetch of a page
  of at most 2 MiB gives the guest exactly that page, records it once and leaves the transfer
  cache empty.
\<close>

theorem fetch_gives_the_page:
  assumes "sb_replay_responses sb = []" and "Option.bind (guest_get (sb_mem sb) ptr len) from_utf8 = Some url"
    and "length (as_bytes (http url)) \<le> response_cap" and "utf8_valid (as_bytes (http url))"
    and "fits (sb_mem sb) buf (length (as_bytes (http url)))"
  shows "\<exists>sb'. raqim_fetch_url http sb ptr len buf = (sb', Inr (http url))
     \<and> sb_live_responses sb' = sb_live_responses sb @ [http url] \<and> sb_http_cache sb' = []"
proof -
  let ?page = "as_bytes (http url)"
  let ?n = "length ?page"
  define sb1 where "sb1 = sb\<lparr>sb_live_responses := sb_live_responses sb @ [http url], sb_http_cache := ?page\<rparr>"
  have h: "host_fetch_url http sb ptr len = (sb1, word_of_nat ?n)"
    using assms(1-3) by (auto simp: host_fetch_url_def bind_eq_Some_conv sb1_def)
  note i = len_i32 [OF fits_len [OF assms(5)]]
  show ?thesis
  proof (cases "?n = 0")
    case True
    then have "http url = []" by (simp add: as_bytes_def)
    then show ?thesis using h i True by (simp add: raqim_fetch_url_def sb1_def as_bytes_def)
  next
    case False
    have z: "fits (sb_mem sb1) buf (length (zeros ?n))" using assms(5) by (simp add: sb1_def zeros_def)
    from fits_write [OF this] obtain m where m: "guest_write (sb_mem sb1) buf (zeros ?n) = Some m" by blast
    have "fits m buf ?n" using fits_after [OF m] assms(5) by (simp add: sb1_def)
    from fits_write [OF this] obtain m2 where m2: "guest_write m buf ?page = Some m2"
      "take ?n (drop (as_usize buf) m2) = ?page" by blast
    have "fits m2 buf ?n" using fits_after [OF m2(1)] \<open>fits m buf ?n\<close> by simp
    then have "guest_get m2 buf (word_of_nat ?n) = Some ?page" using m2(2) by (simp add: fits_get)
    then show ?thesis
      using h i False m m2(1) from_utf8_as_bytes [OF assms(4)]
      by (simp add: raqim_fetch_url_def host_pull_http_response_def sb1_def)
  qed
qed

lemma demo_fits: "fits [97, 0, 0] 1 (Suc (Suc 0))"
  by (simp add: fits_def as_usize_def)

lemma fetch_gives_the_page_witness:
  "\<exists>sb'. raqim_fetch_url (\<lambda>u. u @ ''b'') (demo_sandbox [97, 0, 0]) 0 1 1 = (sb', Inr ''ab'')
     \<and> sb_live_responses sb' = [''ab'']"
proof -
  have g: "Option.bind (guest_get (sb_mem (demo_sandbox [97, 0, 0])) 0 1) from_utf8 = Some ''a''"
    using from_utf8_as_bytes [of "''a''"] by (simp add: demo_sandbox_def guest_get_def as_usize_def as_bytes_def)
  have m: "sb_mem (demo_sandbox [97, 0, 0]) = [97, 0, 0]" "sb_replay_responses (demo_sandbox [97, 0, 0]) = []"
    "sb_live_responses (demo_sandbox [97, 0, 0]) = []" by (simp_all add: demo_sandbox_def)
  have b: "as_bytes ((\<lambda>u. u @ ''b'') ''a'') = [97, 98]" by (simp add: as_bytes_def)
  have f: "fits (sb_mem (demo_sandbox [97, 0, 0])) 1 (length (as_bytes ((\<lambda>u. u @ ''b'') ''a'')))"
    unfolding b m using demo_fits by simp
  have "length (as_bytes ((\<lambda>u. u @ ''b'') ''a'')) \<le> response_cap" unfolding b by (simp add: response_cap_def)
  moreover have "utf8_valid (as_bytes ((\<lambda>u. u @ ''b'') ''a''))" unfolding b by simp
  ultimately show ?thesis
    using fetch_gives_the_page [OF m(2) g, of "\<lambda>u. u @ ''b''" 1] f unfolding m by auto
qed

section \<open>Serving questions\<close>

lemma turn_answers:
  assumes "sb_receiver sb" and "question \<noteq> []"
    and "fits (sb_mem sb) q_buf (length question)" and "fits (sb_mem sb) a_buf (length (handler question))"
  shows "\<exists>sb'. serve_turn handler sb (Some (question, ch)) q_buf a_buf = (sb', Inr True)
     \<and> sb_replies sb' = sb_replies sb @ [(ch, handler question)] \<and> sb_reply_channel sb' = None
     \<and> sb_incoming_cache sb' = [] \<and> sb_receiver sb'"
proof -
  let ?n = "length question" and ?a = "handler question"
  define sb1 where "sb1 = sb\<lparr>sb_reply_channel := Some ch, sb_incoming_cache := question\<rparr>"
  have h: "host_await_a2a_question sb (Some (question, ch)) = (sb1, Inr (word_of_nat ?n))"
    using assms(1) by (simp add: host_await_a2a_question_def sb1_def)
  note i = len_i32 [OF fits_len [OF assms(3)]]
  from fits_write [OF assms(3)] obtain m where m: "guest_write (sb_mem sb) q_buf question = Some m"
    "take ?n (drop (as_usize q_buf) m) = question" by blast
  have "fits m q_buf ?n" using fits_after [OF m(1)] assms(3) by simp
  then have g: "guest_get m q_buf (word_of_nat ?n) = Some question" using m(2) by (simp add: fits_get)
  have "fits m a_buf (length ?a)" using fits_after [OF m(1)] assms(4) by simp
  from fits_write [OF this] obtain m2 where m2: "guest_write m a_buf ?a = Some m2"
    "take (length ?a) (drop (as_usize a_buf) m2) = ?a" by blast
  have "fits m2 a_buf (length ?a)" using fits_after [OF m2(1)] \<open>fits m a_buf (length ?a)\<close> by simp
  from fits_slice [OF this]
  have "slice m2 (as_usize a_buf) (as_usize (a_buf + word_of_nat (length ?a))) = Inr ?a" using m2(2) by simp
  then show ?thesis using h i assms(1,2) m(1) g m2(1)
    by (simp add: serve_turn_def host_pull_a2a_question_def host_reply_a2a_def sb1_def)
qed

text \<open>
  C28. A question that reaches a serving agent is answered by its handler, on the channel the question
  came with, once; nothing is pending after the turn.
\<close>

theorem questions_are_answered:
  assumes "sb_receiver sb" and "question \<noteq> []"
    and "fits (sb_mem sb) q_buf (length question)" and "fits (sb_mem sb) a_buf (length (handler question))"
  shows "\<exists>sb'. serve_turn handler sb (Some (question, ch)) q_buf a_buf = (sb', Inr True)
     \<and> sb_replies sb' = sb_replies sb @ [(ch, handler question)] \<and> sb_reply_channel sb' = None
     \<and> sb_incoming_cache sb' = [] \<and> sb_receiver sb'"
  using assms by (rule turn_answers)

lemma questions_are_answered_witness:
  "\<exists>sb'. serve_turn (\<lambda>q. q @ q) (demo_sandbox [97, 0, 0]) (Some ([5], 4)) 1 1 = (sb', Inr True)
     \<and> sb_replies sb' = [(4, [5, 5])]"
proof -
  have m: "sb_mem (demo_sandbox [97, 0, 0]) = [97, 0, 0]" "sb_receiver (demo_sandbox [97, 0, 0])"
    "sb_replies (demo_sandbox [97, 0, 0]) = []" by (simp_all add: demo_sandbox_def)
  have f: "fits (sb_mem (demo_sandbox [97, 0, 0])) 1 (length ((\<lambda>q. q @ q) [5 :: u8]))"
    unfolding m using demo_fits by simp
  have "fits (sb_mem (demo_sandbox [97, 0, 0])) 1 (length [5 :: u8])" using f by (simp add: fits_def)
  with questions_are_answered [where question = "[5]" and ch = 4 and handler = "\<lambda>q. q @ q", OF m(2) _ _ f] m(3)
  show ?thesis by auto
qed

text \<open>
  An empty question is not answered: its length is the loop's sign that nothing came, so the
  handler is not called and the channel stays with the cell, until the next question replaces it
  and takes its answer.
\<close>

theorem empty_question_is_never_answered:
  assumes "sb_receiver sb" and "serve_turn handler sb (Some ([], ch)) q_buf a_buf = (sb1, r)"
    and "fits (sb_mem sb) q2 (length question)" and "fits (sb_mem sb) a2 (length (handler question))"
    and "question \<noteq> []"
  shows "r = Inr True \<and> sb_replies sb1 = sb_replies sb \<and> sb_reply_channel sb1 = Some ch
     \<and> sb_replies (fst (serve_turn handler sb1 (Some (question, ch2)) q2 a2)) = sb_replies sb @ [(ch2, handler question)]"
proof -
  have s: "sb1 = sb\<lparr>sb_reply_channel := Some ch, sb_incoming_cache := []\<rparr>" "r = Inr True"
    using assms(1,2) by (auto simp: serve_turn_def host_await_a2a_question_def)
  have "\<exists>sb'. serve_turn handler sb1 (Some (question, ch2)) q2 a2 = (sb', Inr True)
     \<and> sb_replies sb' = sb_replies sb1 @ [(ch2, handler question)]"
    using turn_answers [of sb1 question q2 a2 handler ch2] assms(1,3-5) s(1) by auto
  then show ?thesis using s by auto
qed

lemma empty_question_is_never_answered_witness:
  "\<exists>sb1. serve_turn (\<lambda>q. q @ q) (demo_sandbox [97, 0, 0]) (Some ([], 3)) 1 1 = (sb1, Inr True)
     \<and> sb_replies (fst (serve_turn (\<lambda>q. q @ q) sb1 (Some ([5], 4)) 1 1)) = [(4, [5, 5])]"
proof -
  have m: "sb_mem (demo_sandbox [97, 0, 0]) = [97, 0, 0]" "sb_receiver (demo_sandbox [97, 0, 0])"
    "sb_replies (demo_sandbox [97, 0, 0]) = []" by (simp_all add: demo_sandbox_def)
  obtain sb1 r where t: "serve_turn (\<lambda>q. q @ q) (demo_sandbox [97, 0, 0]) (Some ([], 3)) 1 1 = (sb1, r)" by fastforce
  have f: "fits (sb_mem (demo_sandbox [97, 0, 0])) 1 (length ((\<lambda>q. q @ q) [5 :: u8]))"
    unfolding m using demo_fits by simp
  have g: "fits (sb_mem (demo_sandbox [97, 0, 0])) 1 (length [5 :: u8])" using f by (simp add: fits_def)
  from empty_question_is_never_answered [where question = "[5]" and ?ch2.0 = 4, OF m(2) t g f] t m(3)
  show ?thesis by auto
qed

section \<open>Checkpoints\<close>

text \<open>
  A checkpoint is taken between the instantiation and the run: what it saves is the memory the
  module starts with, or the injected snapshot written over it, whatever the agent does next; and
  it is taken exactly when one of the two thresholds is met, which also resets both.
\<close>

theorem checkpoint_precedes_the_run:
  assumes "wa_module W binary" and "wa_instantiate W engine_async binary = Inr mem"
    and "execute_agent W binary sb tr tx now None calls = (sb', tr', job, r)"
  shows "(job \<noteq> None \<longleftrightarrow> tx_threshold_met tr tx \<or> time_threshold_met tr now)
     \<and> (\<forall>i t a snap. job = Some (i, t, a, snap) \<longrightarrow>
          i = ucast tx \<and> snap = mem \<and> t = now \<and> a = sb_agent_hex sb \<and> tr' = \<lparr>ct_last_tx = tx, ct_last_time = now\<rparr>)
     \<and> (job = None \<longrightarrow> tr' = tr) \<and> length (sb_mem sb') = length mem"
proof -
  let ?sb1 = "sb\<lparr>sb_mem := mem\<rparr>"
  obtain tr1 j1 where c: "checkpoint ?sb1 tr tx now = (tr1, j1)" by fastforce
  have e: "tr' = tr1" "job = j1" "sb' = ?sb1 \<or> sb' = fst (run_calls ?sb1 calls)"
    using assms c by (auto simp: execute_agent_def Let_def split: if_splits prod.splits sum.splits rust_fail.splits)
  have "length (sb_mem sb') = length mem" using e(3) run_calls_memory [of ?sb1 calls] by auto
  then show ?thesis using c e(1,2) by (auto simp: checkpoint_def create_checkpoint_def split: if_splits)
qed

definition demo_wasm :: wasm where
  "demo_wasm = \<lparr>wa_module = \<lambda>_. True, wa_instantiate = \<lambda>_ b. Inr b, wa_main = \<lambda>_. True\<rparr>"

lemma checkpoint_precedes_the_run_witness:
  "\<exists>sb' tr' r. execute_agent demo_wasm [97, 0, 0] (demo_sandbox []) \<lparr>ct_last_tx = 5, ct_last_time = 9\<rparr> 10005 10 None
       [Guest_Store 0 [1, 2, 3]] = (sb', tr', Some (10005, 10, ''0a'', [97, 0, 0]), r)"
proof -
  let ?run = "execute_agent demo_wasm [97, 0, 0] (demo_sandbox []) \<lparr>ct_last_tx = 5, ct_last_time = 9\<rparr> 10005 10 None
       [Guest_Store 0 [1, 2, 3]]"
  obtain sb' tr' job r where x: "?run = (sb', tr', job, r)" by (metis prod_cases4)
  have w: "wa_module demo_wasm [97, 0, 0]" "wa_instantiate demo_wasm engine_async [97, 0, 0] = Inr [97, 0, 0]"
    by (simp_all add: demo_wasm_def)
  have "tx_threshold_met \<lparr>ct_last_tx = 5, ct_last_time = 9\<rparr> 10005" by (simp add: tx_threshold_met_def)
  with checkpoint_precedes_the_run [OF w x] have "job = Some (10005, 10, ''0a'', [97, 0, 0])"
    by (cases job) (auto simp: demo_sandbox_def)
  then show ?thesis using x by blast
qed

end
