(* ===== verification/Py_Client.thy ===== *)
theory Py_Client
  imports Tcp_Ingress Sandbox
begin

text \<open>
  The signing core of the Python client, src/raqim-py/src/lib.rs: the key and the certificate of
  an agent, the signature of a payload, the framed envelope of a thought and the call signature.
  Files are a map from paths to contents; a Python exception is an \<open>Err\<close>. The lemmas follow a
  frame of the client over the TCP edge into the ledger.
\<close>

section \<open>The class\<close>

record py_crypto_core =
  pc_signing_key :: bytes
  pc_pub_key_bytes :: bytes
  pc_capability_cert_bytes :: bytes

definition py_new ::
  "ext \<Rightarrow> (string \<Rightarrow> bytes option) \<Rightarrow> string \<Rightarrow> string option \<Rightarrow> py_crypto_core res" where
  "py_new E files pem_path cert_path =
     (case files pem_path of
        None \<Rightarrow> Inl (Err ''IOError'')
      | Some key_bytes \<Rightarrow>
          if length key_bytes \<noteq> 32 then Inl (Err ''Private Key must be 32 bytes'')
          else Inr \<lparr>pc_signing_key = key_bytes, pc_pub_key_bytes = x_ed_public E key_bytes,
                    pc_capability_cert_bytes =
                      (case cert_path of None \<Rightarrow> []
                       | Some path \<Rightarrow> (case files path of None \<Rightarrow> [] | Some b \<Rightarrow> b))\<rparr>)"

definition sign_payload :: "ext \<Rightarrow> py_crypto_core \<Rightarrow> bytes \<Rightarrow> bytes" where
  "sign_payload E pc payload = x_ed_sign E (pc_signing_key pc) payload"

text \<open>The envelope of a state, signed over its serialised bytes, and the length-prefixed frame.\<close>

definition signed_envelope :: "ext \<Rightarrow> py_crypto_core \<Rightarrow> string \<Rightarrow> agent_state \<Rightarrow> ingress_envelope" where
  "signed_envelope E pc intent_path st =
     (let state_bytes = x_state_to E st in
      \<lparr>in_intent_path = intent_path, in_public_key = pc_pub_key_bytes pc,
       in_signature = x_ed_sign E (pc_signing_key pc) state_bytes, in_state_bytes = state_bytes,
       in_capability_cert = pc_capability_cert_bytes pc\<rparr>)"

definition length_prefixed :: "bytes \<Rightarrow> bytes" where
  "length_prefixed b = u32_to_le (word_of_nat (length b)) @ b"

definition generate_tcp_payload ::
  "ext \<Rightarrow> u128 \<Rightarrow> u64 \<Rightarrow> py_crypto_core \<Rightarrow> string \<Rightarrow> string \<Rightarrow> string \<Rightarrow> bytes res" where
  "generate_tcp_payload E tx_id now pc agent_hex intent_path msg =
     (case x_hex_decode E agent_hex of
        None \<Rightarrow> Inl (Err ''invalid hexadecimal text'')
      | Some agent_id \<Rightarrow>
          if length agent_id \<noteq> 16 then Inl (Err ''Agent hex must be exactly 16-bytes'')
          else Inr (length_prefixed (x_ingress_to E (signed_envelope E pc intent_path
                 \<lparr>st_agent_id = Some agent_id, st_transaction_id = tx_id, st_timestamp = now,
                  st_status = Idle, st_text = msg, st_namespace = intent_path\<rparr>))))"

definition hash_call_signatures :: "ext \<Rightarrow> string \<Rightarrow> bytes" where
  "hash_call_signatures E call_inputs = x_blake3 E ''raqim.effect.v1.signature'' (as_bytes call_inputs)"

section \<open>From the client to the ledger\<close>

lemma read_length_prefixed:
  "length b \<le> max_frame \<Longrightarrow> read_frame (length_prefixed b @ rest) = Got_Frame b rest"
  by (simp add: length_prefixed_def read_frame_encoded)

lemma signed_envelope_fields [simp]:
  "in_intent_path (signed_envelope E pc path st) = path"
  "in_public_key (signed_envelope E pc path st) = pc_pub_key_bytes pc"
  "in_state_bytes (signed_envelope E pc path st) = x_state_to E st"
  "in_signature (signed_envelope E pc path st) = x_ed_sign E (pc_signing_key pc) (x_state_to E st)"
  "in_capability_cert (signed_envelope E pc path st) = pc_capability_cert_bytes pc"
  by (simp_all add: signed_envelope_def Let_def)

lemma py_new_public: "py_new E files pem cert = Inr pc \<Longrightarrow> pc_pub_key_bytes pc = x_ed_public E (pc_signing_key pc)"
  by (auto simp: py_new_def split: option.splits if_splits)

lemma py_new_cert: "py_new E files pem (Some path) = Inr pc \<Longrightarrow> files path = Some cert \<Longrightarrow> pc_capability_cert_bytes pc = cert"
  by (auto simp: py_new_def split: option.splits if_splits)

text \<open>What the policy of a group says of a path at one instant.\<close>

definition group_admits :: "u64 \<Rightarrow> aegis \<Rightarrow> string \<Rightarrow> string \<Rightarrow> bool" where
  "group_admits nanos ag grp path \<longleftrightarrow>
     (\<exists>policy. map_of (ag_policies ag) grp = Some policy \<and> snd (check_and_consume nanos (gp_bucket policy))
        \<and> list_all (\<lambda>b. \<not> ends_with b ''*'' \<and> b \<noteq> path) (gp_blocked policy)
        \<and> list_ex (pattern_allows path) (gp_allowed policy))"

text \<open>
  An envelope signed with a key whose certificate opens a session commits its thought as the
  first frame of a connection.
\<close>

lemma signed_envelope_commits:
  assumes "crdt_ok L" and "rkyv_ok E" and "ed_ok E"
    and "pc_pub_key_bytes pc = x_ed_public E (pc_signing_key pc)"
    and "verify_session_lineage E (fc_secs ck) (nd_aegis nd) (pc_capability_cert_bytes pc) (pc_pub_key_bytes pc)
           = (nd_aegis nd, Inr (hex, grp))"
    and "group_admits (fc_nanos ck) (nd_aegis nd) grp path" and "\<not> stale (fc_secs ck) (st_timestamp st)"
    and "path \<noteq> ''/system/handshake''" and "named_agent st aid"
    and "length (x_ingress_to E (signed_envelope E pc path st)) \<le> max_frame"
  shows "\<exists>nd' log. tcp_connection E L nd tcp_session_new
        (length_prefixed (x_ingress_to E (signed_envelope E pc path st)) @ rest) [ck] = (nd', Next_Frame)
     \<and> wal_queue (nd_wal nd') = wal_queue (nd_wal nd) @ [log]
     \<and> ol_agent_id log = aid \<and> ol_namespace log = st_namespace st \<and> st_text (ol_state log) = st_text st"
proof -
  let ?env = "signed_envelope E pc path st"
  let ?ss = "\<lparr>ts_established = True, ts_agent_hex = hex, ts_group_name = grp, ts_pub_key = pc_pub_key_bytes pc\<rparr>"
  have i: "x_ingress_access E (x_ingress_to E ?env) = Some ?env" "x_state_access E (in_state_bytes ?env) = Some st"
    using assms(2) by simp_all
  have f: "tcp_frame E L ck nd tcp_session_new (x_ingress_to E ?env) = tcp_frame E L ck nd ?ss (x_ingress_to E ?env)"
    using fresh_session_frame [OF i, of ck nd hex grp L] assms(5) by simp
  have p: "packet_admissible E (fc_secs ck) (fc_nanos ck) (nd_aegis nd) grp (pc_pub_key_bytes pc)
      (x_state_to E st) (x_ed_sign E (pc_signing_key pc) (x_state_to E st)) path (st_timestamp st)"
    using assms(4,6,7) ed_ok_simps(1,2) [OF assms(3)] by (simp add: packet_admissible_def group_admits_def)
  have "\<exists>nd' log. tcp_frame E L ck nd ?ss (x_ingress_to E ?env) = (nd', ?ss, Next_Frame)
     \<and> wal_queue (nd_wal nd') = wal_queue (nd_wal nd) @ [log]
     \<and> ol_agent_id log = aid \<and> ol_namespace log = st_namespace st \<and> st_text (ol_state log) = st_text st"
    by (rule accepted_frame_commits [OF assms(1) _ _ i assms(9)]) (use p assms(8) in simp_all)
  then obtain nd' log where c: "tcp_frame E L ck nd ?ss (x_ingress_to E ?env) = (nd', ?ss, Next_Frame)"
    and l: "wal_queue (nd_wal nd') = wal_queue (nd_wal nd) @ [log]" "ol_agent_id log = aid"
      "ol_namespace log = st_namespace st" "st_text (ol_state log) = st_text st"
    by blast
  have "tcp_connection E L nd tcp_session_new (length_prefixed (x_ingress_to E ?env) @ rest) [ck] = (nd', Next_Frame)"
    using read_length_prefixed [OF assms(10), of rest] f c by simp
  then show ?thesis using l by blast
qed


section \<open>A concrete client\<close>

definition demo_files :: "string \<Rightarrow> bytes option" where
  "demo_files path = (if path = ''k.pem'' then Some (zeros 32) else if path = ''k.cert'' then
     x_hex_decode demo (handle_ca_mint demo [1] 5
       (x_hex_encode demo (derive_agent_id demo (x_ed_public demo (zeros 32)))) ''g'') else None)"

lemma demo_group_admits: "group_admits 0 (demo_aegis []) ''g'' ''/a/x''"
  using demo_packet [of "[]"] by (simp add: packet_admissible_def group_admits_def)


end
