(* ===== verification/Hot_Memory.thy ===== *)
theory Hot_Memory
  imports Types
begin

text \<open>
  The hot vector buffer of src/raqim-core/src/hot_memory.rs: entries in commit order, cosine
  search over them and eviction up to the compaction watermark. IEEE single-precision
  arithmetic is a parameter, a record of the operations on 32-bit patterns; the standard
  library's stable sort is an insertion sort that keeps the order of entries the comparison
  does not separate.
\<close>

section \<open>Floating-point operations and the sort\<close>

record float_ops =
  f_add :: "f32 \<Rightarrow> f32 \<Rightarrow> f32"
  f_mul :: "f32 \<Rightarrow> f32 \<Rightarrow> f32"
  f_div :: "f32 \<Rightarrow> f32 \<Rightarrow> f32"
  f_sqrt :: "f32 \<Rightarrow> f32"
  f_eq :: "f32 \<Rightarrow> f32 \<Rightarrow> bool"
  f_less :: "f32 \<Rightarrow> f32 \<Rightarrow> bool"

text \<open>
  \<open>sort_by(|a, b| b.1.partial_cmp(&a.1).unwrap_or(Equal))\<close>: an entry goes before a later one
  unless the later one has the greater score; incomparable scores (NaN) count as equal.
\<close>

fun insert_desc :: "('a \<Rightarrow> 'a \<Rightarrow> bool) \<Rightarrow> 'a \<Rightarrow> 'a list \<Rightarrow> 'a list" where
  "insert_desc lt x [] = [x]"
| "insert_desc lt x (y # ys) = (if lt x y then y # insert_desc lt x ys else x # y # ys)"

definition sort_desc :: "('a \<Rightarrow> 'a \<Rightarrow> bool) \<Rightarrow> 'a list \<Rightarrow> 'a list" where
  "sort_desc lt xs = foldr (insert_desc lt) xs []"

lemma insert_desc_simps [simp]:
  "set (insert_desc lt x ys) = insert x (set ys)" "length (insert_desc lt x ys) = Suc (length ys)"
  by (induction ys) auto

lemma sort_desc_simps [simp]:
  "sort_desc lt [] = []" "sort_desc lt (x # xs) = insert_desc lt x (sort_desc lt xs)"
  by (simp_all add: sort_desc_def)

lemma set_sort_desc [simp]: "set (sort_desc lt xs) = set xs"
  by (induction xs) simp_all

lemma length_sort_desc [simp]: "length (sort_desc lt xs) = length xs"
  by (induction xs) simp_all

text \<open>The comparison of scores is a strict weak order when no score is NaN.\<close>

definition weak_order_on :: "'a set \<Rightarrow> ('a \<Rightarrow> 'a \<Rightarrow> bool) \<Rightarrow> bool" where
  "weak_order_on A lt \<longleftrightarrow>
     (\<forall>x \<in> A. \<forall>y \<in> A. lt x y \<longrightarrow> \<not> lt y x)
   \<and> (\<forall>x \<in> A. \<forall>y \<in> A. \<forall>z \<in> A. \<not> lt x y \<longrightarrow> \<not> lt y z \<longrightarrow> \<not> lt x z)"

lemma weak_orderD:
  assumes "weak_order_on A lt" and "x \<in> A" and "y \<in> A"
  shows "lt x y \<Longrightarrow> \<not> lt y x" and "z \<in> A \<Longrightarrow> \<not> lt x y \<Longrightarrow> \<not> lt y z \<Longrightarrow> \<not> lt x z"
  using assms unfolding weak_order_on_def by blast+

lemma weak_order_subset: "weak_order_on A lt \<Longrightarrow> B \<subseteq> A \<Longrightarrow> weak_order_on B lt"
  unfolding weak_order_on_def by blast

lemma insert_desc_sorted:
  assumes "weak_order_on (insert x (set ys)) lt" and "sorted_wrt (\<lambda>a b. \<not> lt a b) ys"
  shows "sorted_wrt (\<lambda>a b. \<not> lt a b) (insert_desc lt x ys)"
  using assms
proof (induction ys)
  case (Cons y ys)
  have "weak_order_on (insert x (set ys)) lt"
    using weak_order_subset [OF Cons.prems(1)] by auto
  then have ih: "sorted_wrt (\<lambda>a b. \<not> lt a b) (insert_desc lt x ys)"
    using Cons.IH Cons.prems(2) by simp
  show ?case
  proof (cases "lt x y")
    case True
    then have "\<not> lt y x" using weak_orderD(1) [OF Cons.prems(1), of x y] by simp
    then show ?thesis using True ih Cons.prems(2) by auto
  next
    case False
    have "\<not> lt x z" if "z \<in> set ys" for z
    proof -
      have "\<not> lt y z" using that Cons.prems(2) by simp
      with False that show ?thesis using weak_orderD(2) [OF Cons.prems(1), of x y z] by simp
    qed
    then show ?thesis using False Cons.prems(2) by auto
  qed
qed simp

lemma sort_desc_sorted:
  "weak_order_on (set xs) lt \<Longrightarrow> sorted_wrt (\<lambda>a b. \<not> lt a b) (sort_desc lt xs)"
proof (induction xs)
  case (Cons x xs)
  have "weak_order_on (set xs) lt" using weak_order_subset [OF Cons.prems] by auto
  with Cons.IH have "sorted_wrt (\<lambda>a b. \<not> lt a b) (sort_desc lt xs)" .
  moreover have "weak_order_on (insert x (set (sort_desc lt xs))) lt"
    using Cons.prems unfolding set_sort_desc list.set .
  ultimately show ?case unfolding sort_desc_simps by (intro insert_desc_sorted)
qed simp

section \<open>The buffer\<close>

record hot_vector_entry =
  hv_tx_id :: u128
  hv_agent_hex :: string
  hv_namespace :: string
  hv_text :: string
  hv_timestamp :: i64
  hv_vector :: "f32 list"

type_synonym hot_buffer = "hot_vector_entry list"

definition hot_push :: "hot_buffer \<Rightarrow> hot_vector_entry \<Rightarrow> hot_buffer" where
  "hot_push buf entry = buf @ [entry]"

definition hot_push_batch :: "hot_buffer \<Rightarrow> hot_vector_entry list \<Rightarrow> hot_buffer" where
  "hot_push_batch buf entries = foldl hot_push buf entries"

text \<open>The accumulation loop: dot product and the two squared norms.\<close>

fun cosine_loop :: "float_ops \<Rightarrow> f32 list \<Rightarrow> f32 list \<Rightarrow> f32 \<times> f32 \<times> f32 \<Rightarrow> f32 \<times> f32 \<times> f32" where
  "cosine_loop F (a # as) (b # bs) (dot, norm_a, norm_b) =
     cosine_loop F as bs (f_add F dot (f_mul F a b), f_add F norm_a (f_mul F a a), f_add F norm_b (f_mul F b b))"
| "cosine_loop F _ _ acc = acc"

definition cosine_similarity :: "float_ops \<Rightarrow> f32 list \<Rightarrow> f32 list \<Rightarrow> f32" where
  "cosine_similarity F a b =
     (if length a \<noteq> length b \<or> a = [] then 0
      else (case cosine_loop F a b (0, 0, 0) of
              (dot, norm_a, norm_b) \<Rightarrow>
                if f_eq F norm_a 0 \<or> f_eq F norm_b 0 then 0
                else f_div F dot (f_mul F (f_sqrt F norm_a) (f_sqrt F norm_b))))"

definition ns_selected :: "string option \<Rightarrow> hot_vector_entry \<Rightarrow> bool" where
  "ns_selected namespace_filter entry =
     (case namespace_filter of None \<Rightarrow> True | Some ns \<Rightarrow> ns = [] \<or> hv_namespace entry = ns)"

definition search_hot ::
  "float_ops \<Rightarrow> hot_buffer \<Rightarrow> f32 list \<Rightarrow> string option \<Rightarrow> nat \<Rightarrow> (hot_vector_entry \<times> f32) list" where
  "search_hot F buf query namespace_filter top_k =
     take top_k (sort_desc (\<lambda>x y. f_less F (snd x) (snd y))
       (map (\<lambda>e. (e, cosine_similarity F query (hv_vector e))) (filter (ns_selected namespace_filter) buf)))"

definition evict_compacted_up_to :: "hot_buffer \<Rightarrow> u128 \<Rightarrow> hot_buffer \<times> nat" where
  "evict_compacted_up_to buf max_compacted_tx =
     (let kept = filter (\<lambda>e. max_compacted_tx < hv_tx_id e) buf in (kept, length buf - length kept))"

text \<open>
  The hot search returns the best entries: at most \<open>top_k\<close>, each a buffered entry of the
  requested namespace with its own similarity, and no selected entry that is left out scores
  higher than one that is returned.
\<close>

theorem search_returns_the_best_entries:
  assumes "weak_order_on {(e, cosine_similarity F query (hv_vector e)) | e. e \<in> set buf}
             (\<lambda>x y. f_less F (snd x) (snd y))"
    and "res = search_hot F buf query nf top_k"
  shows "length res \<le> top_k
    \<and> (\<forall>(e, s) \<in> set res. e \<in> set buf \<and> ns_selected nf e \<and> s = cosine_similarity F query (hv_vector e)
         \<and> (\<forall>d \<in> set buf. ns_selected nf d \<longrightarrow> (d, cosine_similarity F query (hv_vector d)) \<notin> set res \<longrightarrow>
              \<not> f_less F s (cosine_similarity F query (hv_vector d))))"
proof -
  let ?lt = "\<lambda>x y. f_less F (snd x) (snd y)"
  let ?all = "map (\<lambda>e. (e, cosine_similarity F query (hv_vector e))) (filter (ns_selected nf) buf)"
  let ?s = "sort_desc ?lt ?all"
  have "weak_order_on (set ?all) ?lt" by (rule weak_order_subset [OF assms(1)]) auto
  then have sorted: "sorted_wrt (\<lambda>a b. \<not> ?lt a b) ?s" by (rule sort_desc_sorted)
  have res: "res = take top_k ?s" by (simp add: assms(2) search_hot_def)
  have sep: "\<not> ?lt x y" if "x \<in> set (take top_k ?s)" "y \<in> set (drop top_k ?s)" for x y
    using sorted that sorted_wrt_append [of "\<lambda>a b. \<not> ?lt a b" "take top_k ?s" "drop top_k ?s"]
    unfolding append_take_drop_id by blast
  have split: "set ?s = set (take top_k ?s) \<union> set (drop top_k ?s)"
    using set_append [of "take top_k ?s" "drop top_k ?s"] unfolding append_take_drop_id .
  have sub: "x \<in> set ?all" if "x \<in> set res" for x
    using that set_take_subset [of top_k ?s] by (auto simp: res)
  have left_out: "\<not> f_less F s (cosine_similarity F query (hv_vector d))"
    if "(e, s) \<in> set res" "d \<in> set buf" "ns_selected nf d"
      "(d, cosine_similarity F query (hv_vector d)) \<notin> set res" for e s d
  proof -
    have "(d, cosine_similarity F query (hv_vector d)) \<in> set ?s" using that(2,3) by auto
    with that(4) split have "(d, cosine_similarity F query (hv_vector d)) \<in> set (drop top_k ?s)"
      by (auto simp: res)
    from sep [OF _ this, of "(e, s)"] that(1) show ?thesis by (simp add: res)
  qed
  have "length res \<le> top_k" by (simp add: res)
  moreover have "e \<in> set buf \<and> ns_selected nf e \<and> s = cosine_similarity F query (hv_vector e)"
    if "(e, s) \<in> set res" for e s
    using sub [OF that] by auto
  ultimately show ?thesis
    using left_out by (intro conjI ballI) (assumption, clarify, blast)
qed

definition demo_floats :: float_ops where
  "demo_floats = \<lparr>f_add = (+), f_mul = (*), f_div = (\<lambda>a b. if b = 0 then 0 else a div b), f_sqrt = (\<lambda>x. x),
     f_eq = (=), f_less = (<)\<rparr>"

lemma search_returns_the_best_entries_witness:
  "length (search_hot demo_floats [] [1] None 3) \<le> 3"
  by (rule conjunct1 [OF search_returns_the_best_entries [OF _ refl]]) (simp add: weak_order_on_def)

text \<open>
  Watermark eviction: the entries kept are exactly those above the watermark, in their
  order, and the number reported is the number dropped. It depends on the transaction id alone,
  so an entry at or below the watermark is dropped whether or not it was archived.
\<close>

theorem eviction_depends_on_the_watermark_only:
  "set (fst (evict_compacted_up_to buf w)) = {e \<in> set buf. w < hv_tx_id e}
   \<and> snd (evict_compacted_up_to buf w) = length (filter (\<lambda>e. hv_tx_id e \<le> w) buf)
   \<and> fst (evict_compacted_up_to (fst (evict_compacted_up_to buf w)) w) = fst (evict_compacted_up_to buf w)"
  using sum_length_filter_compl [of "\<lambda>e. w < hv_tx_id e" buf]
  by (simp add: evict_compacted_up_to_def Let_def not_less)

end
