(* ===== verification/Compactor.thy ===== *)
theory Compactor
  imports Lance_Store Wal Hot_Memory
begin

text \<open>
  The WAL compactor of src/raqim-core/src/compactor.rs: the two-phase manifest, the segment scan,
  the embedding and archiving of its thoughts, the removal of the segment, and the daemon that
  triggers a rotation. The disk is the list of segment files and the content of the manifest;
  the faults the file system may show are arguments. A panic ends the daemon's task.
\<close>

section \<open>The manifest\<close>

datatype compaction_state = Pending | Committed

record compaction_manifest =
  cm_target_file :: string
  cm_state :: compaction_state

text \<open>serde writes a unit variant as its name.\<close>

fun state_name :: "compaction_state \<Rightarrow> string" where
  "state_name Pending = ''Pending''"
| "state_name Committed = ''Committed''"

definition manifest_json :: "compaction_manifest \<Rightarrow> json" where
  "manifest_json m =
     J_Object [(''target_file'', J_String (cm_target_file m)), (''state'', J_String (state_name (cm_state m)))]"

text \<open>The typed reading: both members are there and the state is one of the two names.\<close>

definition manifest_of_json :: "json \<Rightarrow> compaction_manifest option" where
  "manifest_of_json v =
     (case (json_get v ''target_file'', json_get v ''state'') of
        (J_String f, J_String s) \<Rightarrow>
          (if s = state_name Pending then Some \<lparr>cm_target_file = f, cm_state = Pending\<rparr>
           else if s = state_name Committed then Some \<lparr>cm_target_file = f, cm_state = Committed\<rparr>
           else None)
      | _ \<Rightarrow> None)"

lemma manifest_roundtrip: "manifest_of_json (manifest_json m) = Some m"
  by (cases "cm_state m") (simp_all add: manifest_of_json_def manifest_json_def json_get_def)

record disk =
  dk_files :: "(string \<times> bytes) list"
  dk_manifest :: "json option"

text \<open>The write through a temporary file: all or nothing.\<close>

definition write_manifest_atomically :: "bool \<Rightarrow> disk \<Rightarrow> compaction_manifest \<Rightarrow> disk" where
  "write_manifest_atomically ok dk m = (if ok then dk\<lparr>dk_manifest := Some (manifest_json m)\<rparr> else dk)"

definition remove_file :: "bool \<Rightarrow> disk \<Rightarrow> string \<Rightarrow> disk" where
  "remove_file ok dk f = (if ok then dk\<lparr>dk_files := AList.delete f (dk_files dk)\<rparr> else dk)"

definition remove_manifest :: "bool \<Rightarrow> disk \<Rightarrow> disk" where
  "remove_manifest ok dk = (if ok then dk\<lparr>dk_manifest := None\<rparr> else dk)"

section \<open>The segment scan\<close>

definition semantic_payload :: "op_log \<Rightarrow> string" where
  "semantic_payload log =
     ''['' @ debug_status (st_status (ol_state log)) @ ''] Agent in '' @ ol_namespace log @ '' stated ''
       @ st_text (ol_state log)"

text \<open>
  The extraction loop on the unread rest of the segment. The checksum is skipped, the slice is
  not checked against the end of the buffer, and an entry that does not read as a log is reported
  and passed over.
\<close>

function extraction_loop ::
  "ext \<Rightarrow> bytes \<Rightarrow> op_log list \<Rightarrow> string list \<Rightarrow> (op_log list \<times> string list) res" where
  "extraction_loop E rest logs payloads =
     (if length rest < 4 then Inr (logs, payloads)
      else
        (let entry_len = unat (u32_from_le (take 4 rest)) in
         if length (drop 4 rest) < 4 then Inr (logs, payloads)
         else
           (case slice (drop 8 rest) 0 entry_len of
              Inl e \<Rightarrow> Inl e
            | Inr entry_slice \<Rightarrow>
                (case x_oplog_access E entry_slice of
                   None \<Rightarrow> extraction_loop E (drop entry_len (drop 8 rest)) logs payloads
                 | Some log \<Rightarrow>
                     extraction_loop E (drop entry_len (drop 8 rest)) (logs @ [log])
                       (payloads @ [semantic_payload log])))))"
  by pat_completeness auto
termination
  by (relation "measure (\<lambda>(E, rest, l, p). length rest)") auto

declare extraction_loop.simps [simp del]

section \<open>One compaction\<close>

text \<open>What the file system answers to the steps of one compaction.\<close>

record compaction_io =
  ci_pending_ok :: bool
  ci_read_ok :: bool
  ci_committed_ok :: bool
  ci_remove_ok :: bool
  ci_manifest_ok :: bool

definition all_ok :: compaction_io where
  "all_ok = \<lparr>ci_pending_ok = True, ci_read_ok = True, ci_committed_ok = True, ci_remove_ok = True,
     ci_manifest_ok = True\<rparr>"

record 'db compactor =
  co_disk :: disk
  co_lance :: "'db lance_engine"
  co_bus :: "system_event list"

definition max_compacted :: "op_log list \<Rightarrow> u128" where
  "max_compacted logs = foldl max 0 (map (\<lambda>l. ol_txid l) logs)"

text \<open>
  The commit half: the batch is archived, the manifest is set to committed, the segment and the
  manifest are removed, the event is sent.
\<close>

definition commit_segment ::
  "'db lance \<Rightarrow> ext \<Rightarrow> compaction_io \<Rightarrow> 'db compactor \<Rightarrow> string \<Rightarrow> op_log list \<Rightarrow> f32 list list
   \<Rightarrow> 'db compactor \<times> unit res" where
  "commit_segment L E io co path logs vectors =
     (case archive_batch L E (co_lance co) logs vectors of
        Inl e \<Rightarrow> (co, Inl e)
      | Inr le \<Rightarrow>
          (let dk1 = write_manifest_atomically (ci_committed_ok io) (co_disk co)
                       \<lparr>cm_target_file = path, cm_state = Committed\<rparr>;
               dk2 = remove_file (ci_remove_ok io) dk1 path;
               dk3 = remove_manifest (ci_manifest_ok io) dk2
           in (co\<lparr>co_disk := dk3, co_lance := le,
                  co_bus := co_bus co @ [CompactionTriggered (length logs) (max_compacted logs)]\<rparr>, Inr ())))"

definition execute_compaction ::
  "'db lance \<Rightarrow> ext \<Rightarrow> compaction_io \<Rightarrow> 'db compactor \<Rightarrow> string \<Rightarrow> 'db compactor \<times> unit res" where
  "execute_compaction L E io co path =
     (let dk = write_manifest_atomically (ci_pending_ok io) (co_disk co)
                 \<lparr>cm_target_file = path, cm_state = Pending\<rparr>;
          co1 = co\<lparr>co_disk := dk\<rparr>
      in case map_of (dk_files dk) path of
           None \<Rightarrow> (co1, Inr ())
         | Some buffer \<Rightarrow>
             if \<not> ci_read_ok io then (co1, Inr ())
             else
               (case extraction_loop E buffer [] [] of
                  Inl e \<Rightarrow> (co1, Inl e)
                | Inr (logs, payloads) \<Rightarrow>
                    if logs = [] then
                      (co1\<lparr>co_disk := remove_manifest (ci_manifest_ok io) (remove_file (ci_remove_ok io) dk path)\<rparr>,
                       Inr ())
                    else
                      (case em_embed_batch (le_embedder (co_lance co1)) payloads of
                         Inl (Panic p) \<Rightarrow> (co1, Inl (Panic p))
                       | Inl (Err e) \<Rightarrow> (co1, Inr ())
                       | Inr vectors \<Rightarrow> commit_segment L E io co1 path logs vectors)))"

text \<open>The recovery of an interrupted compaction. No code of the repository calls it.\<close>

definition resume_pending_compactions ::
  "'db lance \<Rightarrow> ext \<Rightarrow> compaction_io \<Rightarrow> 'db compactor \<Rightarrow> 'db compactor \<times> unit res" where
  "resume_pending_compactions L E io co =
     (case Option.bind (dk_manifest (co_disk co)) manifest_of_json of
        None \<Rightarrow> (co, Inr ())
      | Some m \<Rightarrow>
          if cm_state m = Pending then execute_compaction L E io co (cm_target_file m) else (co, Inr ()))"

section \<open>The daemon\<close>

text \<open>
  A trigger: the WAL rotates and answers with the name of the archived segment, which is then
  compacted; a failed rotation drops the reply.
\<close>

definition trigger_safe_compaction ::
  "'db lance \<Rightarrow> ext \<Rightarrow> compaction_io \<Rightarrow> string \<Rightarrow> u128 \<Rightarrow> bool \<Rightarrow> wal \<Rightarrow> 'db compactor
   \<Rightarrow> (wal \<times> 'db compactor) \<times> unit res" where
  "trigger_safe_compaction L E io fp timestamp rename_ok w co =
     (case rotate_segment fp timestamp rename_ok w of
        (w1, None) \<Rightarrow> ((w1, co), Inr ())
      | (w1, Some archived) \<Rightarrow>
          (let dk = (co_disk co)\<lparr>dk_files := AList.update archived (wal_file w) (dk_files (co_disk co))\<rparr>;
               (co1, r) = execute_compaction L E io (co\<lparr>co_disk := dk\<rparr>) archived
           in ((w1, co1), r)))"

definition one_gb :: nat where
  "one_gb = 1024 * 1024 * 1024"

datatype compactor_tick = Check_Tick "nat option" | Daily_Tick

text \<open>A tick of one of the two intervals; \<open>None\<close> is metadata that could not be read.\<close>

definition tick_triggers :: "compactor_tick \<Rightarrow> bool" where
  "tick_triggers t = (case t of Check_Tick None \<Rightarrow> False | Check_Tick (Some len) \<Rightarrow> one_gb \<le> len | Daily_Tick \<Rightarrow> True)"

text \<open>The daemon over its ticks, each with what the disk and the clock answer. A panic ends it.\<close>

fun daemon_run ::
  "'db lance \<Rightarrow> ext \<Rightarrow> string \<Rightarrow> wal \<times> 'db compactor \<Rightarrow> (compactor_tick \<times> compaction_io \<times> u128 \<times> bool) list
   \<Rightarrow> (wal \<times> 'db compactor) \<times> unit res" where
  "daemon_run L E fp s [] = (s, Inr ())"
| "daemon_run L E fp (w, co) ((t, io, timestamp, rename_ok) # ticks) =
     (if tick_triggers t then
        (case trigger_safe_compaction L E io fp timestamp rename_ok w co of
           (s1, Inl e) \<Rightarrow> (s1, Inl e)
         | (s1, Inr _) \<Rightarrow> daemon_run L E fp s1 ticks)
      else daemon_run L E fp (w, co) ticks)"

section \<open>What the scan extracts\<close>

text \<open>The logs of a segment as the compactor and the boot scan read it: one log per frame.\<close>

definition readable_logs :: "ext \<Rightarrow> op_log list list \<Rightarrow> op_log list" where
  "readable_logs E bs = List.map_filter (\<lambda>b. x_oplog_access E (wal_payload E b)) bs"

lemma readable_logs_simps [simp]:
  "readable_logs E [] = []"
  "readable_logs E (b # bs) =
     (case x_oplog_access E (wal_payload E b) of None \<Rightarrow> [] | Some l \<Rightarrow> [l]) @ readable_logs E bs"
  by (auto simp: readable_logs_def List.map_filter_def split: option.splits)

lemma extraction_frame:
  assumes "framed_ok E b"
  shows "extraction_loop E (wal_frame E b @ r) logs payloads =
     (case x_oplog_access E (wal_payload E b) of
        None \<Rightarrow> extraction_loop E r logs payloads
      | Some log \<Rightarrow> extraction_loop E r (logs @ [log]) (payloads @ [semantic_payload log]))"
proof -
  define f where "f = wal_frame E b @ r"
  let ?n = "length (wal_payload E b)"
  have n: "unat (u32_from_le (take 4 f)) = ?n"
    using assms unfolding f_def frame_parts by (simp add: framed_ok_def len_prefix_value)
  have l: "\<not> length f < 4" "\<not> length (drop 4 f) < 4" by (simp_all add: f_def wal_frame_length)
  have d: "drop 8 f = wal_payload E b @ r" unfolding f_def by (rule frame_parts(3))
  then have s: "slice (drop 8 f) 0 ?n = Inr (wal_payload E b)" "drop ?n (drop 8 f) = r" by (simp_all add: slice_def)
  have "extraction_loop E f logs payloads =
     (case x_oplog_access E (wal_payload E b) of
        None \<Rightarrow> extraction_loop E r logs payloads
      | Some log \<Rightarrow> extraction_loop E r (logs @ [log]) (payloads @ [semantic_payload log]))"
    unfolding extraction_loop.simps [of E f] Let_def n s using l by simp
  then show ?thesis by (simp only: f_def)
qed

lemma extraction_frames:
  assumes "\<forall>b \<in> set bs. framed_ok E b"
  shows "extraction_loop E (concat (map (wal_frame E) bs) @ r) logs payloads =
     extraction_loop E r (logs @ readable_logs E bs) (payloads @ map semantic_payload (readable_logs E bs))"
  using assms
  by (induction bs arbitrary: logs payloads) (simp_all add: extraction_frame split: option.splits)

lemma extraction_Nil [simp]: "extraction_loop E [] logs payloads = Inr (logs, payloads)"
  by (simp add: extraction_loop.simps)

lemma extraction_segment:
  assumes "\<forall>b \<in> set bs. framed_ok E b"
  shows "extraction_loop E (concat (map (wal_frame E) bs)) [] [] =
     Inr (readable_logs E bs, map semantic_payload (readable_logs E bs))"
  using extraction_frames [OF assms, of "[]" "[]" "[]"] by simp

section \<open>When a segment is removed\<close>

lemma disk_simps [simp]:
  "dk_files (write_manifest_atomically ok dk m) = dk_files dk"
  "dk_files (remove_manifest ok dk) = dk_files dk"
  "dk_files (remove_file ok dk f) = (if ok then AList.delete f (dk_files dk) else dk_files dk)"
  "dk_manifest (write_manifest_atomically ok dk m) = (if ok then Some (manifest_json m) else dk_manifest dk)"
  "dk_manifest (remove_manifest ok dk) = (if ok then None else dk_manifest dk)"
  "dk_manifest (remove_file ok dk f) = dk_manifest dk"
  by (simp_all add: write_manifest_atomically_def remove_manifest_def remove_file_def)

lemma commit_segment_result:
  "commit_segment L E io co path logs vectors = (co', r) \<Longrightarrow>
   (\<exists>e. archive_batch L E (co_lance co) logs vectors = Inl e \<and> co' = co \<and> r = Inl e)
   \<or> (archive_batch L E (co_lance co) logs vectors = Inr (co_lance co') \<and> r = Inr ()
      \<and> co_bus co' = co_bus co @ [CompactionTriggered (length logs) (max_compacted logs)]
      \<and> co_disk co' = remove_manifest (ci_manifest_ok io) (remove_file (ci_remove_ok io)
           (write_manifest_atomically (ci_committed_ok io) (co_disk co)
              \<lparr>cm_target_file = path, cm_state = Committed\<rparr>) path))"
  by (auto simp: commit_segment_def Let_def split: sum.splits)

text \<open>
  C20. No segment is removed before its thoughts are handed over. Whatever the file system does, when
  a compaction leaves the disk without the segment it had, then every entry of the segment was
  scanned without a panic, and either none reads as a log or the archive call on exactly the
  extracted logs returned, giving the store the compactor continues with.
\<close>

theorem segment_is_kept_until_archived:
  assumes "map_of (dk_files (co_disk co)) path = Some buffer"
    and "execute_compaction L E io co path = (co', r)"
    and "map_of (dk_files (co_disk co')) path = None"
  shows "\<exists>logs payloads. extraction_loop E buffer [] [] = Inr (logs, payloads)
     \<and> (logs = [] \<or> (\<exists>vectors. em_embed_batch (le_embedder (co_lance co)) payloads = Inr vectors
            \<and> archive_batch L E (co_lance co) logs vectors = Inr (co_lance co')))"
proof -
  have "ci_read_ok io" using assms by (auto simp: execute_compaction_def Let_def split: if_splits)
  then obtain logs payloads where x: "extraction_loop E buffer [] [] = Inr (logs, payloads)"
    using assms by (cases "extraction_loop E buffer [] []") (auto simp: execute_compaction_def Let_def)
  show ?thesis
  proof (cases "logs = []")
    case False
    obtain vectors where v: "em_embed_batch (le_embedder (co_lance co)) payloads = Inr vectors"
      using assms x False \<open>ci_read_ok io\<close>
      by (cases "em_embed_batch (le_embedder (co_lance co)) payloads")
        (auto simp: execute_compaction_def Let_def split: rust_fail.splits)
    let ?co1 = "co\<lparr>co_disk := write_manifest_atomically (ci_pending_ok io) (co_disk co)
                 \<lparr>cm_target_file = path, cm_state = Pending\<rparr>\<rparr>"
    have "commit_segment L E io ?co1 path logs vectors = (co', r)"
      using assms x v False \<open>ci_read_ok io\<close> by (simp add: execute_compaction_def Let_def)
    from commit_segment_result [OF this] assms(1,3) x v show ?thesis by auto
  qed (use x in blast)
qed

text \<open>A compaction of complete frames, up to the embedding.\<close>

lemma compaction_of_frames:
  assumes "map_of (dk_files (co_disk co)) path = Some (concat (map (wal_frame E) bs))"
    and "\<forall>b \<in> set bs. framed_ok E b" and "readable_logs E bs \<noteq> []"
    and "em_embed_batch (le_embedder (co_lance co)) (map semantic_payload (readable_logs E bs)) = Inr vectors"
  shows "execute_compaction L E all_ok co path =
     commit_segment L E all_ok (co\<lparr>co_disk := write_manifest_atomically True (co_disk co)
        \<lparr>cm_target_file = path, cm_state = Pending\<rparr>\<rparr>) path (readable_logs E bs) vectors"
  using assms by (simp add: execute_compaction_def Let_def all_ok_def extraction_segment)

lemma foldl_max_le: "(x :: u128) \<le> foldl max a xs \<longleftrightarrow> x \<le> a \<or> (\<exists>y \<in> set xs. x \<le> y)"
  by (induction xs arbitrary: a) (auto simp: max_def)

lemma max_compacted_bound: "l \<in> set logs \<Longrightarrow> ol_txid l \<le> max_compacted logs"
  by (auto simp: max_compacted_def foldl_max_le)


text \<open>
  An answer of the wrong length loses the segment. When the embedder returns another number of
  vectors than it was given texts, the archive skips the batch without an error; the compaction
  goes on, removes the segment and announces its thoughts as archived.
\<close>

theorem short_embedding_loses_the_segment:
  assumes "map_of (dk_files (co_disk co)) path = Some (concat (map (wal_frame E) bs))"
    and "\<forall>b \<in> set bs. framed_ok E b" and "readable_logs E bs \<noteq> []"
    and "em_embed_batch (le_embedder (co_lance co)) (map semantic_payload (readable_logs E bs)) = Inr vectors"
    and "length vectors \<noteq> length (readable_logs E bs)"
  shows "\<exists>co'. execute_compaction L E all_ok co path = (co', Inr ())
     \<and> co_lance co' = co_lance co \<and> map_of (dk_files (co_disk co')) path = None
     \<and> co_bus co' = co_bus co @ [CompactionTriggered (length (readable_logs E bs)) (max_compacted (readable_logs E bs))]"
  using compaction_of_frames [OF assms(1-4), of L] assms(5)
  by (simp add: commit_segment_def archive_batch_def all_ok_def Let_def)

text \<open>
  The WAL writes a frame as a list of logs; the compactor reads it as one log. A segment none of
  whose frames reads as a single log is taken for empty: it is removed and nothing is archived.
\<close>

theorem unreadable_segment_is_discarded:
  assumes "map_of (dk_files (co_disk co)) path = Some (concat (map (wal_frame E) bs))"
    and "\<forall>b \<in> set bs. framed_ok E b" and "\<forall>b \<in> set bs. x_oplog_access E (x_oplogs_to E b) = None"
  shows "\<exists>co'. execute_compaction L E all_ok co path = (co', Inr ())
     \<and> co_lance co' = co_lance co \<and> co_bus co' = co_bus co
     \<and> map_of (dk_files (co_disk co')) path = None"
proof -
  have "readable_logs E bs = []"
    using assms(3) by (induction bs) (simp_all add: wal_payload_def)
  then show ?thesis
    using assms(1) extraction_segment [OF assms(2)] by (simp add: execute_compaction_def Let_def all_ok_def)
qed

text \<open>
  A segment that ends in a frame cut after its header makes the scan read past the end of the
  buffer: the daemon panics, with the segment and a pending manifest on disk.
\<close>

theorem torn_segment_stops_the_daemon:
  assumes "map_of (dk_files (co_disk co)) path =
             Some (concat (map (wal_frame E) bs) @ take k (wal_frame E torn))"
    and "\<forall>b \<in> set (bs @ [torn]). framed_ok E b" and "8 \<le> k" and "k < length (wal_frame E torn)"
  shows "\<exists>co' msg. execute_compaction L E all_ok co path = (co', Inl (Panic msg))
     \<and> map_of (dk_files (co_disk co')) path = map_of (dk_files (co_disk co)) path
     \<and> Option.bind (dk_manifest (co_disk co')) manifest_of_json
         = Some \<lparr>cm_target_file = path, cm_state = Pending\<rparr>"
proof -
  define t where "t = take k (wal_frame E torn)"
  have "take 4 t = len_prefix E torn"
    using assms(3) frame_parts(1) [of E torn "[]"] by (simp add: t_def min_def)
  then have n: "unat (u32_from_le (take 4 t)) = length (wal_payload E torn)"
    using assms(2) by (simp add: framed_ok_def len_prefix_value)
  have len: "length t = k" "k < 8 + length (wal_payload E torn)"
    using assms(4) by (simp_all add: t_def wal_frame_length)
  then have "slice (drop 8 t) 0 (length (wal_payload E torn)) =
      Inl (Panic ''range end index out of range for slice'')"
    using assms(3) by (simp add: slice_def)
  then have "extraction_loop E t l p = Inl (Panic ''range end index out of range for slice'')" for l p
    using assms(3) len unfolding extraction_loop.simps [of E t] Let_def n by simp
  then have "extraction_loop E (concat (map (wal_frame E) bs) @ t) [] [] =
      Inl (Panic ''range end index out of range for slice'')"
    using extraction_frames [of bs E t "[]" "[]"] assms(2) by simp
  then show ?thesis
    using assms(1) unfolding t_def [symmetric]
    by (simp add: execute_compaction_def Let_def all_ok_def manifest_roundtrip)
qed

section \<open>Concrete segments\<close>

definition demo_store :: "(op_log \<Rightarrow> bytes) \<Rightarrow> (bytes \<Rightarrow> op_log option) \<Rightarrow> ext" where
  "demo_store to access = demo\<lparr>x_oplogs_to := (\<lambda>ls. case ls of [l] \<Rightarrow> to l | _ \<Rightarrow> []), x_oplog_access := access\<rparr>"

text \<open>A library for which a batch of one log is read as that log, and a segment of one frame.\<close>

definition demo_one :: op_log where
  "demo_one = demo_log 2 ''a'' ''y''"

definition demo_reads :: ext where
  "demo_reads = demo_store (\<lambda>l. [7]) (\<lambda>b. if b = [7] then Some demo_one else None)"

definition demo_segment :: bytes where
  "demo_segment = wal_frame demo_reads [demo_one]"

lemma demo_reads_frame: "framed_ok demo_reads [demo_one]" "readable_logs demo_reads [[demo_one]] = [demo_one]"
  by (simp_all add: framed_ok_def wal_payload_def demo_reads_def demo_store_def)

definition demo_compactor :: "embedder \<Rightarrow> bytes \<Rightarrow> (string \<times> record_batch list) list compactor" where
  "demo_compactor em segment = \<lparr>co_disk = \<lparr>dk_files = [(''w'', segment)], dk_manifest = None\<rparr>,
     co_lance = demo_engine\<lparr>le_embedder := em\<rparr>, co_bus = []\<rparr>"

definition demo_embedder :: "f32 list list \<Rightarrow> embedder" where
  "demo_embedder vs = \<lparr>em_embed = (\<lambda>_. Inr [0, 0]), em_embed_batch = (\<lambda>_. Inr vs), em_dimension = 2\<rparr>"

lemma demo_compactor_file:
  "map_of (dk_files (co_disk (demo_compactor em demo_segment))) ''w'' =
     Some (concat (map (wal_frame demo_reads) [[demo_one]]))"
  "em_embed_batch (le_embedder (co_lance (demo_compactor (demo_embedder vs) seg))) p = Inr vs"
  by (simp_all add: demo_compactor_def demo_segment_def demo_embedder_def)

lemma demo_compactor_bus: "co_bus (demo_compactor em seg) = []"
  by (simp add: demo_compactor_def)

text \<open>The compaction of the segment with an embedder that answers nothing.\<close>

lemma demo_short_compaction:
  "\<exists>co'. execute_compaction (demo_lance False) demo_reads all_ok (demo_compactor (demo_embedder []) demo_segment) ''w''
     = (co', Inr ()) \<and> map_of (dk_files (co_disk co')) ''w'' = None"
proof -
  have f: "\<forall>b \<in> set [[demo_one]]. framed_ok demo_reads b" using demo_reads_frame(1) by simp
  have n: "readable_logs demo_reads [[demo_one]] \<noteq> []" unfolding demo_reads_frame(2) by simp
  show ?thesis
    unfolding compaction_of_frames [OF demo_compactor_file(1) f n demo_compactor_file(2)] demo_reads_frame(2)
    by (simp add: commit_segment_def archive_batch_def all_ok_def Let_def)
qed

lemma short_embedding_loses_the_segment_witness:
  "\<exists>co'. execute_compaction (demo_lance False) demo_reads all_ok (demo_compactor (demo_embedder []) demo_segment) ''w''
       = (co', Inr ()) \<and> map_of (dk_files (co_disk co')) ''w'' = None \<and> co_bus co' = [CompactionTriggered 1 2]"
proof -
  have m: "max_compacted [demo_one] = 2" by (simp add: max_compacted_def demo_one_def demo_log_def)
  have f: "\<forall>b \<in> set [[demo_one]]. framed_ok demo_reads b" using demo_reads_frame(1) by simp
  have n: "readable_logs demo_reads [[demo_one]] \<noteq> []" "length [] \<noteq> length (readable_logs demo_reads [[demo_one]])"
    unfolding demo_reads_frame(2) by simp_all
  from short_embedding_loses_the_segment [OF demo_compactor_file(1) f n(1) demo_compactor_file(2) n(2)]
  show ?thesis unfolding demo_reads_frame(2) m by (auto simp: demo_compactor_bus)
qed

lemma segment_is_kept_until_archived_witness:
  "\<exists>logs payloads. extraction_loop demo_reads demo_segment [] [] = Inr (logs, payloads)"
proof -
  obtain co' where e: "execute_compaction (demo_lance False) demo_reads all_ok
      (demo_compactor (demo_embedder []) demo_segment) ''w'' = (co', Inr ())"
    and n: "map_of (dk_files (co_disk co')) ''w'' = None" using demo_short_compaction by blast
  from segment_is_kept_until_archived [OF _ e n, of demo_segment] show ?thesis
    by (auto simp: demo_compactor_def)
qed

lemma unreadable_segment_is_discarded_witness:
  "\<exists>co'. execute_compaction (demo_lance False) (demo_reads\<lparr>x_oplog_access := \<lambda>_. None\<rparr>) all_ok
     (demo_compactor (demo_embedder []) demo_segment) ''w'' = (co', Inr ())
     \<and> map_of (dk_files (co_disk co')) ''w'' = None"
proof -
  let ?E = "demo_reads\<lparr>x_oplog_access := \<lambda>_. None\<rparr>"
  have "map_of (dk_files (co_disk (demo_compactor (demo_embedder []) demo_segment))) ''w'' =
     Some (concat (map (wal_frame ?E) [[demo_one]]))"
    by (simp add: demo_compactor_def demo_segment_def wal_frame_def len_prefix_def crc_bytes_def wal_payload_def)
  moreover have "framed_ok ?E [demo_one]" using demo_reads_frame(1) by (simp add: framed_ok_def wal_payload_def)
  ultimately show ?thesis
    using unreadable_segment_is_discarded [of "demo_compactor (demo_embedder []) demo_segment" "''w''" ?E "[[demo_one]]"]
    by auto
qed

lemma torn_segment_stops_the_daemon_witness:
  "\<exists>co' msg. execute_compaction (demo_lance False) demo_reads all_ok
     (demo_compactor (demo_embedder []) (demo_segment @ take 8 demo_segment)) ''w'' = (co', Inl (Panic msg))"
proof -
  let ?co = "demo_compactor (demo_embedder []) (demo_segment @ take 8 demo_segment)"
  have f: "map_of (dk_files (co_disk ?co)) ''w'' =
      Some (concat (map (wal_frame demo_reads) [[demo_one]]) @ take 8 (wal_frame demo_reads [demo_one]))"
    by (simp add: demo_compactor_def demo_segment_def)
  have k: "8 < length (wal_frame demo_reads [demo_one])"
    by (simp add: wal_frame_length wal_payload_def demo_reads_def demo_store_def)
  from torn_segment_stops_the_daemon [OF f _ _ k, of "demo_lance False"] demo_reads_frame(1)
  show ?thesis by fastforce
qed

lemma demo_engine_holds_reads:
  "holds_logs (demo_lance False) demo_reads (demo_engine\<lparr>le_embedder := em\<rparr>) [demo_log 1 ''a'' ''x'']"
  using demo_engine_holds by (simp add: holds_logs_def log_row_def demo_reads_def demo_store_def)


end
