(* ===== verification/Boot.thy ===== *)
theory Boot
  imports Compactor Network
begin

text \<open>
  The boot sequence and the listeners of src/raqim-core/src/main.rs: the default policy file and
  its watcher, the check of the compaction manifest, the Phoenix scan that hydrates the ledger
  and the shards from the log, the rebuilding of the hot vectors, and the tasks on the event bus.
\<close>

section \<open>Policies\<close>

text \<open>The groups of the policy file that the boot writes when there is none.\<close>

definition default_policies :: "(string \<times> group_policy_config) list" where
  "default_policies =
     [(''admin_group'', \<lparr>gc_allowed = [''*''], gc_blocked = [], gc_max_tps = 10000, gc_burst = 1000\<rparr>),
      (''default_group'', \<lparr>gc_allowed = [''/default/*''], gc_blocked = [''/admin/*'', ''/system/*''],
         gc_max_tps = 100, gc_burst = 20\<rparr>)]"

text \<open>
  One event of the file watcher: on a modification the file is read and parsed (\<open>None\<close> when
  either fails, which keeps the policies).
\<close>

definition policy_watch ::
  "u64 \<Rightarrow> bool \<Rightarrow> (string \<times> group_policy_config) list option \<Rightarrow> aegis \<Rightarrow> aegis" where
  "policy_watch now_nanos is_modify parsed ag =
     (if is_modify then
        (case parsed of None \<Rightarrow> ag | Some cfg \<Rightarrow> reload_policies ag (to_group_policies now_nanos cfg))
      else ag)"

text \<open>
  Under the generated policy file every packet of the default group that passes the freshness,
  signature and rate checks panics, whatever its path: the first blocked entry ends in a star.
\<close>

theorem default_group_packets_panic:
  assumes "\<not> stale now_secs ts" and "x_ed_key_ok E pub" and "x_ed_verify E pub payload sig"
    and "ag_policies ag = to_group_policies boot_nanos default_policies"
    and "snd (check_and_consume now_nanos (token_bucket_new boot_nanos 100 20))"
  shows "\<exists>msg. snd (authorize_packet_fast E now_secs now_nanos ag hex ''default_group'' pub payload sig path ts)
           = Inl (Panic msg)"
  by (rule blocked_wildcard_panic [OF assms(1-3), where before = "[]" and blocked = "''/admin/*''"
        and after = "[''/system/*'']" and policy = "\<lparr>gp_allowed = [''/default/*''],
          gp_blocked = [''/admin/*'', ''/system/*''], gp_bucket = token_bucket_new boot_nanos 100 20\<rparr>"])
    (use assms(4,5) in \<open>simp_all add: to_group_policies_def default_policies_def ends_with_def\<close>)

lemma default_group_packets_panic_witness:
  "\<exists>msg. snd (authorize_packet_fast demo 100 0 ((demo_aegis [])\<lparr>ag_policies := to_group_policies 0 default_policies\<rparr>)
     ''0a'' ''default_group'' (x_ed_public demo [2]) [9] (x_ed_sign demo [2] [9]) ''/default/x'' 100) = Inl (Panic msg)"
  by (rule default_group_packets_panic [where boot_nanos = 0])
    (simp_all add: demo_fresh ed_ok_simps [OF demo_ed_ok] check_and_consume_def take_token_def refill_def
      token_bucket_new_def new_tokens_def saturating_sub_def)

section \<open>The manifest check\<close>

definition unwrap_str :: "json \<Rightarrow> string" where
  "unwrap_str v = (case json_as_str v of None \<Rightarrow> [] | Some s \<Rightarrow> s)"

text \<open>
  What the boot does with the manifest, and the files it queues for the scan. \<open>ok\<close> says whether
  the removals work.
\<close>

definition manifest_check :: "bool \<Rightarrow> disk \<Rightarrow> disk \<times> string list" where
  "manifest_check ok dk =
     (case dk_manifest dk of
        None \<Rightarrow> (dk, [])
      | Some v \<Rightarrow>
          (let state = unwrap_str (json_get v ''state'');
               target_file = unwrap_str (json_get v ''target_file'')
           in if state = ''Committed'' then (remove_manifest ok (remove_file ok dk target_file), [])
              else if state = ''PENDING'' then
                (dk, if map_of (dk_files dk) target_file \<noteq> None then [target_file] else [])
              else (dk, [])))"

definition files_to_scan :: "bool \<Rightarrow> string \<Rightarrow> disk \<Rightarrow> disk \<times> string list" where
  "files_to_scan ok wal_path dk =
     (let (dk1, files) = manifest_check ok dk
      in (dk1, files @ (if map_of (dk_files dk1) wal_path \<noteq> None then [wal_path] else [])))"

section \<open>The Phoenix scan\<close>

text \<open>The hydration of one recovered log: the ledger, the shard of its namespace, the list.\<close>

definition phoenix_step ::
  "ext \<Rightarrow> ('d, 'v) crdt \<Rightarrow> axon \<times> 'd shard_registry \<times> op_log list \<Rightarrow> op_log
   \<Rightarrow> axon \<times> 'd shard_registry \<times> op_log list" where
  "phoenix_step E L s log =
     (let (ax, rg, logs) = s;
          ns = ol_namespace log;
          (rg1, brain) = get_or_create_brain L rg ns;
          (doc, _) = assimilate_foreign_thought L (sh_doc brain) (ol_delta log)
      in (hydrate_from_recovery E ax log, drop_clone (update_doc rg1 ns doc) ns, logs @ [log]))"

text \<open>
  The scan loop on the unread rest of a file. It stops at an entry that is cut, skips the
  checksum, and passes over an entry that does not read as a log.
\<close>

function phoenix_loop ::
  "ext \<Rightarrow> ('d, 'v) crdt \<Rightarrow> bytes \<Rightarrow> axon \<times> 'd shard_registry \<times> op_log list
   \<Rightarrow> axon \<times> 'd shard_registry \<times> op_log list" where
  "phoenix_loop E L rest s =
     (if length rest < 4 then s
      else
        (let entry_len = unat (u32_from_le (take 4 rest)) in
         if length (drop 4 rest) < 4 then s
         else if length (drop 8 rest) < entry_len then s
         else
           phoenix_loop E L (drop entry_len (drop 8 rest))
             (case x_oplog_access E (take entry_len (drop 8 rest)) of
                None \<Rightarrow> s
              | Some log \<Rightarrow> phoenix_step E L s log)))"
  by pat_completeness auto
termination
  by (relation "measure (\<lambda>(E, L, rest, s). length rest)") auto

declare phoenix_loop.simps [simp del]

definition phoenix_scan ::
  "ext \<Rightarrow> ('d, 'v) crdt \<Rightarrow> disk \<Rightarrow> string list \<Rightarrow> axon \<times> 'd shard_registry
   \<Rightarrow> axon \<times> 'd shard_registry \<times> op_log list" where
  "phoenix_scan E L dk files s =
     foldl (\<lambda>s f. case map_of (dk_files dk) f of None \<Rightarrow> s | Some content \<Rightarrow> phoenix_loop E L content s)
       (fst s, snd s, []) files"

text \<open>The hot entries of the recovered logs; \<open>vectors[i]\<close> panics when the embedder gave too few.\<close>

definition hot_entry :: "ext \<Rightarrow> f32 list list \<Rightarrow> nat \<times> op_log \<Rightarrow> hot_vector_entry res" where
  "hot_entry E vectors il =
     (let (i, log) = il in
      if i < length vectors then
        Inr \<lparr>hv_tx_id = ol_txid log, hv_agent_hex = x_hex_encode E (ol_agent_id log),
             hv_namespace = ol_namespace log, hv_text = st_text (ol_state log),
             hv_timestamp = st_timestamp (ol_state log), hv_vector = vectors ! i\<rparr>
      else Inl (Panic ''index out of bounds''))"

definition rebuild_hot :: "ext \<Rightarrow> embedder \<Rightarrow> op_log list \<Rightarrow> hot_buffer \<Rightarrow> hot_buffer res" where
  "rebuild_hot E em logs buf =
     (if logs = [] then Inr buf
      else case em_embed_batch em (map semantic_payload logs) of
             Inl (Panic p) \<Rightarrow> Inl (Panic p)
           | Inl (Err e) \<Rightarrow> Inr buf
           | Inr vectors \<Rightarrow>
               and_then (traverse (hot_entry E vectors) (enumerate 0 logs)) (\<lambda>entries.
                 Inr (hot_push_batch buf entries)))"

definition phoenix_boot ::
  "ext \<Rightarrow> ('d, 'v) crdt \<Rightarrow> embedder \<Rightarrow> bool \<Rightarrow> string \<Rightarrow> disk \<Rightarrow> axon \<times> 'd shard_registry \<Rightarrow> hot_buffer
   \<Rightarrow> disk \<times> (axon \<times> 'd shard_registry \<times> hot_buffer) res" where
  "phoenix_boot E L em ok wal_path dk s buf =
     (let (dk1, files) = files_to_scan ok wal_path dk;
          (ax, rg, logs) = phoenix_scan E L dk1 files s
      in (dk1, and_then (rebuild_hot E em logs buf) (\<lambda>buf1. Inr (ax, rg, buf1))))"

section \<open>Tasks on the event bus\<close>

definition compaction_listener :: "hot_buffer \<Rightarrow> system_event \<Rightarrow> hot_buffer" where
  "compaction_listener buf event =
     (case event of CompactionTriggered n w \<Rightarrow> fst (evict_compacted_up_to buf w) | _ \<Rightarrow> buf)"

definition quarantine_relay :: "ext \<Rightarrow> bool \<Rightarrow> network \<Rightarrow> system_event \<Rightarrow> network" where
  "quarantine_relay E put_ok nb event =
     (case event of GlobalQuarantineSync rec \<Rightarrow> broadcast_quarantine_sync E put_ok nb rec | _ \<Rightarrow> nb)"

text \<open>The audit sinker writes every event to the vault, then relays quarantines once more.\<close>

definition vault_sinker ::
  "'db lance \<Rightarrow> ext \<Rightarrow> i64 \<Rightarrow> bool \<Rightarrow> 'db lance_engine \<times> network \<Rightarrow> system_event
   \<Rightarrow> ('db lance_engine \<times> network) res" where
  "vault_sinker LA E timestamp put_ok s event =
     and_then (log_system_events LA E timestamp (fst s) event) (\<lambda>le.
       Inr (le, quarantine_relay E put_ok (snd s) event))"

text \<open>The bridge as the boot builds it: the WAN switch starts off, and nothing turns it on.\<close>

definition boot_network :: "string \<Rightarrow> string \<Rightarrow> network" where
  "boot_network topic os_node_id =
     network_new (tenant_id runtime_security_flags_new) topic os_node_id False
       (allow_global_a2a runtime_security_flags_new) (allow_global_aegis runtime_security_flags_new)"

section \<open>What the scan hydrates\<close>

text \<open>A frame with any four bytes in the place of its checksum.\<close>

definition loose_frame :: "ext \<Rightarrow> op_log list \<times> bytes \<Rightarrow> bytes" where
  "loose_frame E bc = len_prefix E (fst bc) @ snd bc @ wal_payload E (fst bc)"

lemma loose_frame_crc: "loose_frame E (b, crc_bytes E b) = wal_frame E b"
  by (simp add: loose_frame_def wal_frame_def)

lemma phoenix_frame:
  assumes "framed_ok E b" and "length c = 4"
  shows "phoenix_loop E L (loose_frame E (b, c) @ r) s =
     phoenix_loop E L r (case x_oplog_access E (wal_payload E b) of None \<Rightarrow> s | Some log \<Rightarrow> phoenix_step E L s log)"
proof -
  define f where "f = loose_frame E (b, c) @ r"
  let ?n = "length (wal_payload E b)"
  have lp: "length (len_prefix E b) = 4" by (simp add: len_prefix_def)
  have n: "unat (u32_from_le (take 4 f)) = ?n"
    using assms(1) lp by (simp add: f_def loose_frame_def framed_ok_def len_prefix_value)
  have l: "\<not> length f < 4" "\<not> length (drop 4 f) < 4" using lp assms(2) by (simp_all add: f_def loose_frame_def)
  have d: "drop 8 f = wal_payload E b @ r" using lp assms(2) by (simp add: f_def loose_frame_def)
  then have s: "take ?n (drop 8 f) = wal_payload E b" "drop ?n (drop 8 f) = r" "\<not> length (drop 8 f) < ?n"
    by simp_all
  have "phoenix_loop E L f s = phoenix_loop E L r
     (case x_oplog_access E (wal_payload E b) of None \<Rightarrow> s | Some log \<Rightarrow> phoenix_step E L s log)"
    unfolding phoenix_loop.simps [of E L f] Let_def n s using l s(3) by simp
  then show ?thesis by (simp only: f_def)
qed

lemma phoenix_cut:
  assumes "length (wal_payload E b) < 2 ^ 32" and "k < length (wal_frame E b)"
  shows "phoenix_loop E L (take k (wal_frame E b)) s = s"
proof -
  define t where "t = take k (wal_frame E b)"
  have len: "length t = k" "k < 8 + length (wal_payload E b)"
    using assms(2) by (simp_all add: t_def wal_frame_length)
  have "unat (u32_from_le (take 4 t)) = length (wal_payload E b)" if "8 \<le> k"
    using that frame_parts(1) [of E b "[]"] assms(1) by (simp add: t_def min_def len_prefix_value)
  with len have "phoenix_loop E L t s = s"
    by (cases "k < 8") (auto simp: phoenix_loop.simps [of E L t] Let_def)
  then show ?thesis by (simp only: t_def)
qed

lemma phoenix_frames:
  assumes "\<forall>bc \<in> set bcs. framed_ok E (fst bc) \<and> length (snd bc) = 4"
  shows "phoenix_loop E L (concat (map (loose_frame E) bcs) @ r) s =
     phoenix_loop E L r (foldl (phoenix_step E L) s (readable_logs E (map fst bcs)))"
  using assms
proof (induction bcs arbitrary: s)
  case (Cons bc bcs)
  obtain b c where "bc = (b, c)" by fastforce
  with Cons show ?case
    by (simp add: phoenix_frame split: option.splits)
qed simp

lemma phoenix_step_parts:
  "fst (foldl (phoenix_step E L) s logs) = hydrate_run E (fst s) logs"
  "snd (snd (foldl (phoenix_step E L) s logs)) = snd (snd s) @ logs"
  by (induction logs arbitrary: s)
    (simp_all add: hydrate_run_def phoenix_step_def Let_def split: prod.splits)

text \<open>
  The boot hydrates the ledger with exactly the frames that read as a single log, in their order,
  up to a torn tail, whatever their checksums are.
\<close>

theorem phoenix_hydrates_the_readable_frames:
  assumes "\<forall>bc \<in> set bcs. framed_ok E (fst bc) \<and> length (snd bc) = 4"
    and "length (wal_payload E torn) < 2 ^ 32" and "k < length (wal_frame E torn)"
    and "phoenix_loop E L (concat (map (loose_frame E) bcs) @ take k (wal_frame E torn)) (ax, rg, logs) = (ax', rg', logs')"
  shows "ax' = hydrate_run E ax (readable_logs E (map fst bcs))
     \<and> logs' = logs @ readable_logs E (map fst bcs)"
proof -
  have "(ax', rg', logs') = foldl (phoenix_step E L) (ax, rg, logs) (readable_logs E (map fst bcs))"
    using assms(4) unfolding phoenix_frames [OF assms(1)] phoenix_cut [OF assms(2,3)] by simp
  then show ?thesis using phoenix_step_parts [of E L "(ax, rg, logs)"] by (metis fst_conv snd_conv)
qed

lemma phoenix_hydrates_the_readable_frames_witness:
  "\<exists>rg'. phoenix_loop demo_reads demo_crdt (loose_frame demo_reads ([demo_one], zeros 4)) (axon_new, shard_registry_new, [])
     = (hydrate_run demo_reads axon_new [demo_one], rg', [demo_one])"
proof -
  obtain ax' rg' logs' where p: "phoenix_loop demo_reads demo_crdt
      (concat (map (loose_frame demo_reads) [([demo_one], zeros 4)]) @ take 0 (wal_frame demo_reads [demo_one]))
      (axon_new, shard_registry_new, []) = (ax', rg', logs')" by (metis prod.exhaust)
  have f: "\<forall>bc \<in> set [([demo_one], zeros 4)]. framed_ok demo_reads (fst bc) \<and> length (snd bc) = 4"
    using demo_reads_frame(1) by simp
  have l: "length (wal_payload demo_reads [demo_one]) < 2 ^ 32" "0 < length (wal_frame demo_reads [demo_one])"
    using demo_reads_frame(1) by (simp_all add: framed_ok_def wal_frame_length)
  from phoenix_hydrates_the_readable_frames [OF f l p] demo_reads_frame(2) p show ?thesis
    by (simp del: readable_logs_simps)
qed

section \<open>An interrupted compaction\<close>

lemma manifest_pending:
  "dk_manifest dk = Some (manifest_json \<lparr>cm_target_file = f, cm_state = Pending\<rparr>) \<Longrightarrow>
   manifest_check ok dk = (dk, [])"
  by (simp add: manifest_check_def manifest_json_def json_get_def unwrap_str_def json_as_str_def Let_def)

text \<open>
  The two halves of the manifest protocol do not meet. When the embedding fails, the compaction
  keeps the segment and a pending manifest for a retry; but the boot looks for another spelling
  of the state, so it scans the active log alone: the thoughts of the segment are in no store and
  no boot reads them.
\<close>

theorem interrupted_compaction_is_never_resumed:
  assumes "map_of (dk_files (co_disk co)) path = Some (concat (map (wal_frame E) bs))"
    and "\<forall>b \<in> set bs. framed_ok E b" and "readable_logs E bs \<noteq> []"
    and "em_embed_batch (le_embedder (co_lance co)) (map semantic_payload (readable_logs E bs)) = Inl (Err e)"
    and "path \<noteq> wal_path" and "execute_compaction L E all_ok co path = (co', r)"
  shows "co_lance co' = co_lance co
     \<and> map_of (dk_files (co_disk co')) path = map_of (dk_files (co_disk co)) path
     \<and> files_to_scan ok wal_path (co_disk co') =
         (co_disk co', if map_of (dk_files (co_disk co')) wal_path \<noteq> None then [wal_path] else [])
     \<and> path \<notin> set (snd (files_to_scan ok wal_path (co_disk co')))"
proof -
  have c: "co' = co\<lparr>co_disk := write_manifest_atomically True (co_disk co)
                 \<lparr>cm_target_file = path, cm_state = Pending\<rparr>\<rparr>"
    using assms by (simp add: execute_compaction_def Let_def all_ok_def extraction_segment)
  have "manifest_check ok (co_disk co') = (co_disk co', [])" by (rule manifest_pending) (simp add: c)
  then have f: "files_to_scan ok wal_path (co_disk co') =
      (co_disk co', if map_of (dk_files (co_disk co')) wal_path \<noteq> None then [wal_path] else [])"
    by (simp add: files_to_scan_def)
  then show ?thesis using assms(5) c by simp
qed

lemma interrupted_compaction_is_never_resumed_witness:
  "\<exists>co'. co' = fst (execute_compaction (demo_lance False) demo_reads all_ok
        (demo_compactor (mock_provider\<lparr>em_embed_batch := \<lambda>_. Inl (Err [])\<rparr>) demo_segment) ''w'')
     \<and> ''w'' \<notin> set (snd (files_to_scan True ''raqim.wal'' (co_disk co')))"
proof -
  let ?co = "demo_compactor (mock_provider\<lparr>em_embed_batch := \<lambda>_. Inl (Err [])\<rparr>) demo_segment"
  obtain co' r where e: "execute_compaction (demo_lance False) demo_reads all_ok ?co ''w'' = (co', r)" by fastforce
  have f: "\<forall>b \<in> set [[demo_one]]. framed_ok demo_reads b" using demo_reads_frame(1) by simp
  have n: "readable_logs demo_reads [[demo_one]] \<noteq> []" unfolding demo_reads_frame(2) by simp
  have m: "em_embed_batch (le_embedder (co_lance ?co)) p = Inl (Err [])" for p by (simp add: demo_compactor_def)
  from interrupted_compaction_is_never_resumed [OF demo_compactor_file(1) f n m _ e, of "''raqim.wal''" True] e
  show ?thesis by auto
qed

section \<open>Hot vectors after the boot\<close>

lemma traverse_hot_entries:
  assumes "n + length logs \<le> length vectors"
  shows "\<exists>es. traverse (hot_entry E vectors) (enumerate n logs) = Inr es
     \<and> map hv_tx_id es = map (\<lambda>l. ol_txid l) logs \<and> map hv_text es = map (\<lambda>l. st_text (ol_state l)) logs
     \<and> map hv_namespace es = map (\<lambda>l. ol_namespace l) logs \<and> map hv_vector es = take (length logs) (drop n vectors)"
  using assms
proof (induction logs arbitrary: n)
  case (Cons l logs)
  have "Suc n + length logs \<le> length vectors" using Cons.prems by simp
  from Cons.IH [OF this] obtain es where es: "traverse (hot_entry E vectors) (enumerate (Suc n) logs) = Inr es"
    "map hv_tx_id es = map (\<lambda>l. ol_txid l) logs" "map hv_text es = map (\<lambda>l. st_text (ol_state l)) logs"
    "map hv_namespace es = map (\<lambda>l. ol_namespace l) logs" "map hv_vector es = take (length logs) (drop (Suc n) vectors)"
    by blast
  have "n < length vectors" using Cons.prems by simp
  then have "drop n vectors = vectors ! n # drop (Suc n) vectors" by (rule Cons_nth_drop_Suc [symmetric])
  moreover obtain e where "hot_entry E vectors (n, l) = Inr e" "hv_tx_id e = ol_txid l"
    "hv_text e = st_text (ol_state l)" "hv_namespace e = ol_namespace l" "hv_vector e = vectors ! n"
    using \<open>n < length vectors\<close> by (simp add: hot_entry_def)
  ultimately show ?case using es by simp
qed simp

lemma hot_push_batch_append: "hot_push_batch buf es = buf @ es"
  by (induction es arbitrary: buf) (simp_all add: hot_push_batch_def hot_push_def)

text \<open>
  With a vector for every text the boot gives the hot memory back: one entry per recovered log, in
  order, with its id, text, namespace and vector. With fewer vectors than texts it panics.
\<close>

theorem boot_rebuilds_the_hot_memory:
  assumes "em_embed_batch em (map semantic_payload logs) = Inr vectors"
  shows "(length logs \<le> length vectors \<longrightarrow> (\<exists>es. rebuild_hot E em logs buf = Inr (buf @ es)
       \<and> map hv_tx_id es = map (\<lambda>l. ol_txid l) logs \<and> map hv_text es = map (\<lambda>l. st_text (ol_state l)) logs
       \<and> map hv_namespace es = map (\<lambda>l. ol_namespace l) logs \<and> map hv_vector es = take (length logs) vectors))
     \<and> (length vectors < length logs \<longrightarrow> \<not> is_ok (rebuild_hot E em logs buf))"
proof (intro conjI impI)
  assume "length logs \<le> length vectors"
  then obtain es where es: "traverse (hot_entry E vectors) (enumerate 0 logs) = Inr es"
    "map hv_tx_id es = map (\<lambda>l. ol_txid l) logs" "map hv_text es = map (\<lambda>l. st_text (ol_state l)) logs"
    "map hv_namespace es = map (\<lambda>l. ol_namespace l) logs" "map hv_vector es = take (length logs) vectors"
    using traverse_hot_entries [of 0 logs vectors E] by auto
  show "\<exists>es. rebuild_hot E em logs buf = Inr (buf @ es)
       \<and> map hv_tx_id es = map (\<lambda>l. ol_txid l) logs \<and> map hv_text es = map (\<lambda>l. st_text (ol_state l)) logs
       \<and> map hv_namespace es = map (\<lambda>l. ol_namespace l) logs \<and> map hv_vector es = take (length logs) vectors"
    using es assms by (intro exI [of _ es]) (auto simp: rebuild_hot_def hot_push_batch_append)
next
  assume l: "length vectors < length logs"
  have "traverse (hot_entry E vectors) (enumerate 0 logs) \<noteq> Inr es" for es
  proof
    assume "traverse (hot_entry E vectors) (enumerate 0 logs) = Inr es"
    then have a: "list_all2 (\<lambda>x y. hot_entry E vectors x = Inr y) (enumerate 0 logs) es" by (simp only: traverse_Inr)
    have "length vectors < length (enumerate 0 logs)" using l by simp
    from list_all2_nthD [OF a this] l show False by (simp add: nth_enumerate_eq hot_entry_def)
  qed
  then show "\<not> is_ok (rebuild_hot E em logs buf)"
    using assms l unfolding rebuild_hot_def is_ok_iff by (auto simp: and_then_Inr)
qed

lemma boot_rebuilds_the_hot_memory_witness:
  "\<exists>es. rebuild_hot demo mock_provider [demo_log 1 ''a'' ''x''] [] = Inr es \<and> map hv_text es = [''x'']"
proof -
  have "em_embed_batch mock_provider (map semantic_payload [demo_log 1 ''a'' ''x'']) = Inr [replicate 768 0]"
    by (simp add: mock_provider_def)
  from boot_rebuilds_the_hot_memory [OF this, of demo "[]"] show ?thesis by (auto simp: demo_log_def)
qed

section \<open>What leaves the node\<close>

text \<open>
  No thought leaves a booted node. The WAN switch the bridge is built with is off and no operation
  turns it on, so after any sequence of broadcasts, egress turns, quarantine records and control
  orders nothing was published on the topic of its thoughts.
\<close>

theorem booted_node_publishes_no_thought:
  "thoughts_topic (boot_network topic node_id) \<notin>
     fst ` set (nb_puts (foldl (network_step E) (boot_network topic node_id) ops))"
proof -
  let ?nb = "boot_network topic node_id"
  have "silent (thoughts_topic ?nb) ?nb"
    by (simp add: silent_def boot_network_def network_new_def)
  from silence.run_inv [OF this] show ?thesis by (simp add: silent_def)
qed

text \<open>
  Both bus tasks relay a quarantine: one event puts its record on the mesh twice.
\<close>

theorem quarantine_is_broadcast_twice:
  assumes "nb_allow_aegis nb"
    and "vault_sinker LA E timestamp True (le, quarantine_relay E True nb (GlobalQuarantineSync rec))
           (GlobalQuarantineSync rec) = Inr (le', nb')"
  shows "nb_puts nb' = nb_puts nb @ replicate 2 (nb_prefix nb @ ''/system/quarantine'', x_quarantine_to E rec)"
proof -
  have "nb' = quarantine_relay E True (quarantine_relay E True nb (GlobalQuarantineSync rec)) (GlobalQuarantineSync rec)"
    using assms(2) by (auto simp: vault_sinker_def and_then_Inr)
  then show ?thesis
    using assms(1) by (simp add: quarantine_relay_def broadcast_quarantine_sync_def numeral_2_eq_2)
qed

definition demo_record :: quarantine_record where
  "demo_record = \<lparr>q_agent_hex = ''0a'', q_violation_type = [], q_attemped_path = [], q_payload_preview = [],
     q_timestamp = 0\<rparr>"

lemma quarantine_is_broadcast_twice_witness:
  "\<exists>le' nb'. vault_sinker (demo_lance False) demo 0 True
        (demo_engine, quarantine_relay demo True (boot_network ''s'' ''n'') (GlobalQuarantineSync demo_record))
        (GlobalQuarantineSync demo_record) = Inr (le', nb') \<and> length (nb_puts nb') = 2"
proof -
  obtain le where l: "log_system_events (demo_lance False) demo 0 demo_engine (GlobalQuarantineSync demo_record) = Inr le"
    by (simp add: log_system_events_def commit_batch_def Let_def demo_lance_def demo_engine_def lance_engine_new_def
        audit_schema_def audit_table_def)
  have a: "nb_allow_aegis (boot_network ''s'' ''n'')" "nb_puts (boot_network ''s'' ''n'') = []"
    by (simp_all add: boot_network_def network_new_def runtime_security_flags_new_def)
  let ?s = "vault_sinker (demo_lance False) demo 0 True
        (demo_engine, quarantine_relay demo True (boot_network ''s'' ''n'') (GlobalQuarantineSync demo_record))
        (GlobalQuarantineSync demo_record)"
  obtain le' nb' where v: "?s = Inr (le', nb')" using l by (simp add: vault_sinker_def)
  from quarantine_is_broadcast_twice [OF a(1) v] a(2) have "length (nb_puts nb') = 2" by simp
  with v show ?thesis by blast
qed

end
