(* ===== verification/Memory_Router.thy ===== *)
theory Memory_Router
  imports Boot Sandbox Interfaces "HOL-Library.Multiset"
begin

text \<open>
  The memory router of src/raqim-core/src/memory_router.rs: the zero-copy scan of the live WAL,
  the retrieval of a transaction from hot and cold memory, the reconstruction of an agent's
  timeline, the resurrection and the isolated fork of an agent, the hybrid search and the effect
  index. Hot memory is the WAL file as bytes, cold memory the Lance store; the keys of the vault
  directory, the random key of a fork, the exponential function and the order in which a hash map
  gives its values are parameters.
\<close>

section \<open>Hot memory\<close>

text \<open>\<open>scan_wal_zero_copy\<close>: the logs the callback is given, or the panic of a slice past the end.\<close>

function scan_loop :: "ext \<Rightarrow> bytes \<Rightarrow> nat \<Rightarrow> op_log list res" where
  "scan_loop E mmap offset =
     (if offset < length mmap then
        (if length mmap < offset + 4 then Inr []
         else
           (case read_entry mmap offset of
              Inl e \<Rightarrow> Inl e
            | Inr (entry_slice, next) \<Rightarrow>
                and_then (scan_loop E mmap next) (\<lambda>logs. Inr (x_oplog_unchecked E entry_slice # logs))))
      else Inr [])"
  by pat_completeness auto
termination
  by (relation "measure (\<lambda>(E, mmap, offset). length mmap - offset)") (auto dest!: read_entry_advances)

declare scan_loop.simps [simp del]

definition scan_wal_zero_copy :: "ext \<Rightarrow> bytes option \<Rightarrow> op_log list res" where
  "scan_wal_zero_copy E file = (case file of None \<Rightarrow> Inr [] | Some mmap \<Rightarrow> scan_loop E mmap 0)"

definition semantic_search_with_context ::
  "'db lance \<Rightarrow> ext \<Rightarrow> 'db lance_engine \<Rightarrow> bytes option \<Rightarrow> string \<Rightarrow> string \<Rightarrow> nat \<Rightarrow> string list res" where
  "semantic_search_with_context L E le file query namespace limit =
     and_then (scan_wal_zero_copy E file) (\<lambda>logs.
     and_then (search_memory L le query namespace limit) (\<lambda>deep_memories.
       Inr (map (\<lambda>l. ''[Recent] '' @ st_text (ol_state l) @ '' '')
              (filter (\<lambda>l. starts_with (ol_namespace l) namespace) logs) @ deep_memories)))"

text \<open>The last log with the id wins; only then is the table asked, and only its first batch read.\<close>

definition fetch_by_txid ::
  "'db lance \<Rightarrow> ext \<Rightarrow> 'db lance_engine \<Rightarrow> bytes option \<Rightarrow> string \<Rightarrow> u128 \<Rightarrow> string res" where
  "fetch_by_txid L E le file table target_tx_id =
     and_then (scan_wal_zero_copy E file) (\<lambda>logs.
       let not_found = Inl (Err (''TxID '' @ fmt_nat (unat target_tx_id) @ '' not found in WAL or LanceDB.'')) in
       case rev (filter (\<lambda>l. ol_txid l = target_tx_id) logs) of
         log # _ \<Rightarrow> Inr (''[HOT MEMORY] TxID: '' @ fmt_nat (unat (ol_txid log)) @ '' | Text: ''
                          @ st_text (ol_state log) @ '' '')
       | [] \<Rightarrow>
           and_then (open_table L (le_db le) table) (\<lambda>_.
           and_then (execute_query L (le_db le) table
              \<lparr>lq_nearest = None, lq_only_if = Some (''tx_id = '' @ fmt_nat (unat target_tx_id)),
               lq_limit = Some 1\<rparr>) (\<lambda>stream.
             case stream of
               [] \<Rightarrow> not_found
             | None # _ \<Rightarrow> Inl (Err ''lance error'')
             | Some b # _ \<Rightarrow>
                 and_then (str_col b ''text'') (\<lambda>tt.
                   case tt of
                     [] \<Rightarrow> not_found
                   | t # _ \<Rightarrow> Inr (''[COLD STORAGE] TxID: '' @ fmt_nat (unat target_tx_id) @ '' | Text: ''
                                   @ t @ '' '')))))"

section \<open>The timeline of an agent\<close>

text \<open>The least and the greatest key of the WAL's index.\<close>

definition oldest_wal_tx :: "(u128 \<times> nat) list \<Rightarrow> u128" where
  "oldest_wal_tx index = foldr min (map fst index) (- 1)"

definition newest_wal_tx :: "(u128 \<times> nat) list \<Rightarrow> u128 option" where
  "newest_wal_tx index =
     (case filter (\<lambda>k. 0 < k) (map fst index) of [] \<Rightarrow> None | ks \<Rightarrow> Some (foldr max ks 0))"

text \<open>\<open>fetch_closest_snapshot(..).unwrap_or((0, 0, Vec::new()))\<close>; a panic passes through.\<close>

definition snapshot_or_blank ::
  "'db lance \<Rightarrow> 'db lance_engine \<Rightarrow> string \<Rightarrow> u128 \<Rightarrow> (u128 \<times> u64 \<times> bytes) res" where
  "snapshot_or_blank L le agent_hex tx =
     (case fetch_closest_snapshot L le agent_hex tx of Inl (Err e) \<Rightarrow> Inr (0, 0, []) | r \<Rightarrow> r)"

definition resolve_target ::
  "'db lance \<Rightarrow> 'db lance_engine \<Rightarrow> (u128 \<times> nat) list \<Rightarrow> string \<Rightarrow> u128 \<Rightarrow> u128 res" where
  "resolve_target L le index agent_hex target_tx_id =
     (if target_tx_id = - 1 then
        (case newest_wal_tx index of
           Some max_tx \<Rightarrow> Inr max_tx
         | None \<Rightarrow> and_then (snapshot_or_blank L le agent_hex (- 1)) (\<lambda>(max_lance_tx, _, _). Inr max_lance_tx))
      else Inr target_tx_id)"

definition status_from :: "string \<Rightarrow> agent_status" where
  "status_from s =
     (if s = ''IDLE'' then Idle else if s = ''REASONING'' then Reasoning else if s = ''HALTED'' then Halted
      else if s = ''TOOL_EXEC'' then ToolExecution else Halted)"

text \<open>The reconstructed log of a row. The agent of the row is not restored.\<close>

definition deep_log ::
  "ext \<Rightarrow> string \<Rightarrow> string \<Rightarrow> i64 \<Rightarrow> string \<Rightarrow> string \<Rightarrow> string \<Rightarrow> string \<Rightarrow> bytes \<Rightarrow> op_log res" where
  "deep_log E tx text timestamp status seeds responses namespace payload =
     (case x_seeds_from E seeds of
        None \<Rightarrow> Inl (Err ''serde_json error'')
      | Some recovered_seed \<Rightarrow>
          (case x_strings_from E responses of
             None \<Rightarrow> Inl (Err ''serde_json error'')
           | Some recovered_res \<Rightarrow>
               Inr \<lparr>ol_agent_id = zeros 16,
                    ol_state = \<lparr>st_agent_id = Some (zeros 16), st_transaction_id = hex_or_zero tx,
                      st_timestamp = timestamp, st_status = status_from status, st_text = text,
                      st_namespace = namespace\<rparr>,
                    ol_delta = payload, ol_previous_hash = zeros 32, ol_current_hash = zeros 32,
                    ol_entropy_seeds = recovered_seed, ol_network_responses = recovered_res\<rparr>))"

definition deep_rows :: "ext \<Rightarrow> record_batch \<Rightarrow> op_log list res" where
  "deep_rows E b =
     and_then (str_col b ''transaction_id'') (\<lambda>tx.
     and_then (str_col b ''text'') (\<lambda>tt.
     and_then (int_col b ''timestamp'') (\<lambda>ts.
     and_then (str_col b ''status'') (\<lambda>st.
     and_then (str_col b ''entropy_seeds'') (\<lambda>sd.
     and_then (str_col b ''network_responses'') (\<lambda>nr.
     and_then (str_col b ''namespace'') (\<lambda>ns.
     and_then (bin_col b ''payload'') (\<lambda>pl.
     and_then (rows_upto (length ts) [length tx, length tt, length st, length sd, length nr, length ns, length pl] id)
       (traverse (\<lambda>i. deep_log E (tx ! i) (tt ! i) (ts ! i) (st ! i) (sd ! i) (nr ! i) (ns ! i) (pl ! i)))))))))))"

definition deep_query :: "string \<Rightarrow> u128 \<Rightarrow> u128 \<Rightarrow> lance_query" where
  "deep_query agent_hex next_txid target_tx_id =
     \<lparr>lq_nearest = None,
      lq_only_if = Some (''agent_id = '' @ quoted agent_hex @ '' AND tx_id >= '' @ fmt_nat (unat next_txid)
        @ '' AND tx_id <= '' @ fmt_nat (unat target_tx_id)),
      lq_limit = None\<rparr>"

definition deep_discovery ::
  "'db lance \<Rightarrow> ext \<Rightarrow> 'db lance_engine \<Rightarrow> string \<Rightarrow> u128 \<Rightarrow> u128 \<Rightarrow> op_log list res" where
  "deep_discovery L E le agent_hex next_txid target_tx_id =
     and_then (open_table L (le_db le) (le_history_table le)) (\<lambda>_.
     and_then (execute_query L (le_db le) (le_history_table le) (deep_query agent_hex next_txid target_tx_id)) (\<lambda>stream.
       collect_batches (deep_rows E) stream))"

text \<open>The scan of the rest of the WAL from a byte position: it ends at the first later id.\<close>

function hot_loop :: "ext \<Rightarrow> string \<Rightarrow> u128 \<Rightarrow> bytes \<Rightarrow> nat \<Rightarrow> op_log list \<Rightarrow> op_log list res" where
  "hot_loop E agent_hex target_tx_id buffer offset logs =
     (if offset < length buffer then
        (if length buffer < offset + 4 then Inr logs
         else
           (case read_entry buffer offset of
              Inl e \<Rightarrow> Inl e
            | Inr (entry_slice, next) \<Rightarrow>
                (let log = x_oplog_unchecked E entry_slice in
                 if target_tx_id < ol_txid log then Inr logs
                 else hot_loop E agent_hex target_tx_id buffer next
                        (if x_hex_encode E (ol_agent_id log) = agent_hex then logs @ [log] else logs))))
      else Inr logs)"
  by pat_completeness auto
termination
  by (relation "measure (\<lambda>(E, h, t, buffer, offset, logs). length buffer - offset)")
    (auto dest!: read_entry_advances)

declare hot_loop.simps [simp del]

definition hot_recovery ::
  "ext \<Rightarrow> (u128 \<times> nat) list \<Rightarrow> bytes option \<Rightarrow> string \<Rightarrow> u128 \<Rightarrow> u128 \<Rightarrow> op_log list res" where
  "hot_recovery E index file agent_hex next_txid target_tx_id =
     (if next_txid \<le> target_tx_id then
        (let start_byte = (case map_of index next_txid of None \<Rightarrow> 0 | Some b \<Rightarrow> b) in
         case file of
           None \<Rightarrow> Inr []
         | Some content \<Rightarrow> hot_loop E agent_hex target_tx_id (drop start_byte content) 0 [])
      else Inr [])"

definition rebuild_agent_timeline ::
  "'db lance \<Rightarrow> ext \<Rightarrow> 'db lance_engine \<Rightarrow> (u128 \<times> nat) list \<Rightarrow> bytes option \<Rightarrow> string \<Rightarrow> u128
   \<Rightarrow> (bytes \<times> op_log list \<times> u128 \<times> u64) res" where
  "rebuild_agent_timeline L E le index file agent_hex target_tx_id =
     and_then (resolve_target L le index agent_hex target_tx_id) (\<lambda>actual_target.
     and_then (snapshot_or_blank L le agent_hex target_tx_id) (\<lambda>(snapshot_txid, snapshot_timestamp, memory_blob).
     and_then (if actual_target < oldest_wal_tx index
               then deep_discovery L E le agent_hex snapshot_txid target_tx_id
               else hot_recovery E index file agent_hex snapshot_txid target_tx_id) (\<lambda>historical_oplogs.
       Inr (memory_blob, historical_oplogs, actual_target, snapshot_timestamp))))"

section \<open>Resurrection and forks\<close>

text \<open>\<open>dst.copy_from_slice(src)\<close>: the lengths must agree.\<close>

definition copy_from_slice :: "nat \<Rightarrow> bytes \<Rightarrow> bytes res" where
  "copy_from_slice len src =
     (if length src = len then Inr src
      else Inl (Panic ''copy_from_slice: source slice length does not match destination slice length''))"

text \<open>
  The identity the cell runs under. A fork salts it with the target id: the 16 bytes of the id
  are copied into each half of a 16-byte salt.
\<close>

definition phantom_identity :: "ext \<Rightarrow> string \<Rightarrow> u128 option \<Rightarrow> bool \<Rightarrow> bytes res" where
  "phantom_identity E agent_hex target is_isolated_debug =
     (case x_hex_decode E agent_hex of
        None \<Rightarrow> Inl (Panic ''Invalid agent hex'')
      | Some original_bytes \<Rightarrow>
          and_then (copy_from_slice 16 original_bytes) (\<lambda>phantom_bytes.
            if is_isolated_debug then
              (let tx_id_bytes = u128_to_be (case target of None \<Rightarrow> 0 | Some t \<Rightarrow> t) in
               and_then (copy_from_slice 8 tx_id_bytes) (\<lambda>lo.
               and_then (copy_from_slice 8 tx_id_bytes) (\<lambda>hi.
                 Inr (map2 (\<lambda>b s. xor (xor b s) 0xFF) phantom_bytes (lo @ hi)))))
            else Inr phantom_bytes))"

text \<open>
  What the boot reads around the node: the random key of a fork, the clock, the key and the
  certificate of the vault directory, and the module's bytes.
\<close>

record boot_env =
  be_random_key :: bytes
  be_now :: u64
  be_key :: "bytes option"
  be_cert :: "bytes option"
  be_wasm :: "bytes option"
  be_set_len_ok :: bool
  be_phantom_wal :: "bytes option"

definition phantom_certificate :: "ext \<Rightarrow> bytes \<Rightarrow> string \<Rightarrow> u64 \<Rightarrow> capability_certificate" where
  "phantom_certificate E master_sk sandbox_agent_hex now =
     (let mock = \<lparr>cc_agent_hex = sandbox_agent_hex, cc_group_name = ''simulation_sandbox'',
                  cc_expiration_timestamp = now + 3600, cc_master_signature = zeros 64\<rparr>
      in mock\<lparr>cc_master_signature := x_ed_sign E master_sk (x_cert_to E mock)\<rparr>)"

definition cell_credentials :: "ext \<Rightarrow> bytes \<Rightarrow> boot_env \<Rightarrow> string \<Rightarrow> bool \<Rightarrow> (bytes \<times> bytes) res" where
  "cell_credentials E master_sk env sandbox_agent_hex is_isolated_debug =
     (if is_isolated_debug then
        Inr (be_random_key env, x_cert_to E (phantom_certificate E master_sk sandbox_agent_hex (be_now env)))
      else
        (case (be_key env, be_cert env) of
           (Some key_bytes, Some cert_bytes) \<Rightarrow>
             if length key_bytes = 32 then Inr (key_bytes, cert_bytes)
             else Inl (Err ''could not convert slice to array'')
         | _ \<Rightarrow> Inl (Err ''No such file or directory'')))"

text \<open>The replay queues: the recorded data of the timeline, then the overrides of the fork.\<close>

definition replay_queues :: "op_log list \<Rightarrow> fork_config option \<Rightarrow> u64 list \<times> string list \<times> i64 list" where
  "replay_queues logs fork =
     (concat (map ol_entropy_seeds logs) @ (case Option.bind fork fk_override_seed of None \<Rightarrow> [] | Some x \<Rightarrow> [x]),
      concat (map ol_network_responses logs) @ (case Option.bind fork fk_inject_network of None \<Rightarrow> [] | Some x \<Rightarrow> [x]),
      map (\<lambda>l. st_timestamp (ol_state l)) logs)"

definition assimilate_all :: "('d, 'v) crdt \<Rightarrow> 'd \<Rightarrow> op_log list \<Rightarrow> 'd" where
  "assimilate_all L doc logs = foldl (\<lambda>d l. fst (assimilate_foreign_thought L d (ol_delta l))) doc logs"

text \<open>The node a cell runs on: a fork gets a WAL, a bridge and an event bus of its own.\<close>

definition cell_node :: "ext \<Rightarrow> boot_env \<Rightarrow> 'd node \<Rightarrow> string \<Rightarrow> bool \<Rightarrow> 'd node" where
  "cell_node E env nd sandbox_agent_hex is_isolated_debug =
     (if is_isolated_debug then
        nd\<lparr>nd_wal := wal_start E (be_set_len_ok env) (be_phantom_wal env),
           nd_net := network_new ''phantom_tenant'' (''phamtom_'' @ sandbox_agent_hex)
                       (''phantom_'' @ sandbox_agent_hex) False False False,
           nd_bus := []\<rparr>
      else nd)"

definition historical_cell ::
  "'d node \<Rightarrow> string \<Rightarrow> bytes \<times> bytes \<Rightarrow> u64 list \<times> string list \<times> i64 list \<Rightarrow> 'd sandbox" where
  "historical_cell nd sandbox_agent_hex creds queues =
     (let (seeds, responses, timestamps) = queues in
      \<lparr>sb_node = nd, sb_agent_hex = sandbox_agent_hex, sb_private_key = fst creds, sb_cert = snd creds,
       sb_live_seeds = [], sb_live_responses = [], sb_live_timestamps = [], sb_replay_seeds = seeds,
       sb_replay_responses = responses, sb_replay_timestamps = timestamps, sb_incoming_cache = [],
       sb_response_cache = [], sb_http_cache = [], sb_receiver = False, sb_reply_channel = None,
       sb_replies = [], sb_jobs = [], sb_mem = []\<rparr>)"

text \<open>
  A boot that starts a cell: the cell, its tracker, the id the run starts at, the module and the
  snapshot; the rest of the run is \<open>execute_agent\<close> on them in a task of its own.
\<close>

record 'd cell_launch =
  cl_cell :: "'d sandbox"
  cl_tracker :: checkpoint_tracker
  cl_start_tx :: u128
  cl_wasm :: bytes
  cl_snapshot :: bytes

definition boot_historical_agent ::
  "'db lance \<Rightarrow> ext \<Rightarrow> ('d, 'v) crdt \<Rightarrow> bytes \<Rightarrow> bool \<Rightarrow> boot_env \<Rightarrow> 'db lance_engine \<Rightarrow> 'd node \<Rightarrow> string
   \<Rightarrow> u128 option \<Rightarrow> fork_config option \<Rightarrow> bool \<Rightarrow> 'd node \<times> 'd cell_launch res" where
  "boot_historical_agent LA E L master_sk time_travel_allowed env le nd agent_hex target fork is_isolated_debug =
     (if is_isolated_debug \<and> \<not> time_travel_allowed then (nd, Inl (Err ''LICENCE VIOLATION''))
      else
        (case rebuild_agent_timeline LA E le (wal_index (nd_wal nd)) (Some (wal_file (nd_wal nd))) agent_hex
                (case target of None \<Rightarrow> - 1 | Some t \<Rightarrow> t) of
           Inl e \<Rightarrow> (nd, Inl e)
         | Inr (memory_blob, historical_oplog, snapshot_tx, snapshot_timestamp) \<Rightarrow>
             if historical_oplog = [] then (nd, Inl (Err ''no immutable memory on disk. Rollback aborted.''))
             else
               (case and_then (phantom_identity E agent_hex target is_isolated_debug) (\<lambda>phantom_bytes.
                       and_then (cell_credentials E master_sk env (x_hex_encode E phantom_bytes) is_isolated_debug)
                         (\<lambda>creds. Inr (x_hex_encode E phantom_bytes, creds))) of
                  Inl e \<Rightarrow> (nd, Inl e)
                | Inr (sandbox_agent_hex, creds) \<Rightarrow>
                    (let real_namespace = ol_namespace (hd historical_oplog);
                         ns = (if is_isolated_debug then ''phantom_'' @ real_namespace @ ''_'' @ sandbox_agent_hex
                               else real_namespace);
                         (rg1, brain) = get_or_create_brain L (nd_shards nd) ns;
                         rg2 = update_doc rg1 ns (assimilate_all L (sh_doc brain) historical_oplog);
                         nd1 = nd\<lparr>nd_shards := drop_clone (fst (purge_phantom_shards rg2)) ns\<rparr>
                     in (nd1, Inr \<lparr>cl_cell = historical_cell (cell_node E env nd1 sandbox_agent_hex is_isolated_debug)
                                              sandbox_agent_hex creds (replay_queues historical_oplog fork),
                                   cl_tracker = \<lparr>ct_last_tx = snapshot_tx, ct_last_time = snapshot_timestamp\<rparr>,
                                   cl_start_tx = (case target of None \<Rightarrow> snapshot_tx | Some t \<Rightarrow> t),
                                   cl_wasm = (case be_wasm env of None \<Rightarrow> [] | Some b \<Rightarrow> b),
                                   cl_snapshot = memory_blob\<rparr>)))))"

section \<open>Hybrid search\<close>

record unified_search_result =
  us_tx_id :: u128
  us_agent_hex :: string
  us_namespace :: string
  us_text :: string
  us_timestamp :: i64
  us_score :: f32
  us_source :: string

text \<open>The conversions to single precision and the exponential function.\<close>

record fusion_ops =
  fu_nat :: "nat \<Rightarrow> f32"
  fu_i64 :: "i64 \<Rightarrow> f32"
  fu_exp :: "f32 \<Rightarrow> f32"

definition rrf_score :: "float_ops \<Rightarrow> fusion_ops \<Rightarrow> nat \<Rightarrow> f32" where
  "rrf_score F G rank = f_div F one_f32 (f_add F 0x42700000 (fu_nat G (rank + 1)))"

text \<open>\<open>lambda\<close> is the bit pattern of the decay rate; the age is not below zero.\<close>

definition time_decay :: "float_ops \<Rightarrow> fusion_ops \<Rightarrow> f32 \<Rightarrow> i64 \<Rightarrow> i64 \<Rightarrow> f32" where
  "time_decay F G lambda current_ts timestamp =
     (let age = (if current_ts - timestamp <s 0 then 0 else current_ts - timestamp)
      in fu_exp G (f_mul F lambda (f_div F (fu_i64 G age) 0x45610000)))"

definition cold_unified :: "float_ops \<Rightarrow> fusion_ops \<Rightarrow> i64 \<Rightarrow> nat \<Rightarrow> cold_search_result \<Rightarrow> unified_search_result" where
  "cold_unified F G current_ts rank cold =
     \<lparr>us_tx_id = cs_tx_id cold, us_agent_hex = cs_agent_hex cold, us_namespace = cs_namespace cold,
      us_text = cs_text cold, us_timestamp = cs_timestamp cold,
      us_score = f_mul F (rrf_score F G rank) (time_decay F G 0xBD4CCCCD current_ts (cs_timestamp cold)),
      us_source = ''COLD_LANCEDB''\<rparr>"

definition hot_unified ::
  "float_ops \<Rightarrow> fusion_ops \<Rightarrow> i64 \<Rightarrow> nat \<Rightarrow> hot_vector_entry \<times> f32 \<Rightarrow> unified_search_result" where
  "hot_unified F G current_ts rank hs =
     (let (hot, sim_score) = hs in
      \<lparr>us_tx_id = hv_tx_id hot, us_agent_hex = hv_agent_hex hot, us_namespace = hv_namespace hot,
       us_text = hv_text hot, us_timestamp = hv_timestamp hot,
       us_score = f_mul F (f_mul F (f_add F (rrf_score F G rank) sim_score)
                                   (time_decay F G 0xBC23D70A current_ts (hv_timestamp hot))) 0x3FA00000,
       us_source = ''HOT_RAM_BUFFER''\<rparr>)"

type_synonym fused = "(u128 \<times> unified_search_result) list"

definition fuse_cold :: "fused \<Rightarrow> unified_search_result \<Rightarrow> fused" where
  "fuse_cold m r = AList.update (us_tx_id r) r m"

definition fuse_hot :: "float_ops \<Rightarrow> fused \<Rightarrow> unified_search_result \<Rightarrow> fused" where
  "fuse_hot F m r =
     (case map_of m (us_tx_id r) of
        None \<Rightarrow> AList.update (us_tx_id r) r m
      | Some existing \<Rightarrow>
          if f_less F (us_score existing) (us_score r)
          then AList.update (us_tx_id r) (existing\<lparr>us_score := us_score r, us_source := us_source r\<rparr>) m
          else m)"

definition fuse ::
  "float_ops \<Rightarrow> fusion_ops \<Rightarrow> i64 \<Rightarrow> cold_search_result list \<Rightarrow> (hot_vector_entry \<times> f32) list \<Rightarrow> fused" where
  "fuse F G current_ts colds hots =
     foldl (fuse_hot F)
       (foldl fuse_cold [] (map (\<lambda>(i, c). cold_unified F G current_ts i c) (enumerate 0 colds)))
       (map (\<lambda>(i, h). hot_unified F G current_ts i h) (enumerate 0 hots))"

definition format_memory :: "unified_search_result \<Rightarrow> string" where
  "format_memory r =
     ''[Time: '' @ fmt_i64 (us_timestamp r) @ ''] [TxID: '' @ fmt_032x (us_tx_id r) @ ''] [Source: ''
       @ us_source r @ ''] Namespace: '' @ quoted (us_namespace r) @ '' -> '' @ us_text r @ '' ''"

definition rank_fused ::
  "float_ops \<Rightarrow> (unified_search_result list \<Rightarrow> unified_search_result list) \<Rightarrow> nat \<Rightarrow> fused \<Rightarrow> unified_search_result list" where
  "rank_fused F into_values limit m =
     take limit (sort_desc (\<lambda>a b. f_less F (us_score a) (us_score b)) (into_values (map snd m)))"

text \<open>An error of the cold search is an empty answer; its panic is not.\<close>

definition query_hybrid_memory ::
  "'db lance \<Rightarrow> float_ops \<Rightarrow> fusion_ops \<Rightarrow> (unified_search_result list \<Rightarrow> unified_search_result list) \<Rightarrow> i64
   \<Rightarrow> 'db lance_engine \<Rightarrow> hot_buffer \<Rightarrow> string \<Rightarrow> string option \<Rightarrow> nat \<Rightarrow> string list res" where
  "query_hybrid_memory L F G into_values current_ts le buf query namespace limit =
     and_then (em_embed (le_embedder le) query) (\<lambda>query_vector.
     and_then (case search_cold_vector L le query_vector namespace (limit * 2) of
                 Inl (Err e) \<Rightarrow> Inr [] | r \<Rightarrow> r) (\<lambda>cold_result.
       Inr (map format_memory (rank_fused F into_values limit
              (fuse F G current_ts cold_result (search_hot F buf query_vector namespace (limit * 2)))))))"

section \<open>Effects\<close>

type_synonym effect_index = "(bytes \<times> effect_record) list"

definition effect_text :: "u64 \<Rightarrow> bytes \<Rightarrow> string" where
  "effect_text step_ordinal output_payload =
     ''[EFFECT_RECORD] Step: '' @ fmt_nat (unat step_ordinal) @ '' | Len: '' @ fmt_nat (length output_payload) @ '' bytes ''"

definition effect_log :: "bytes \<Rightarrow> u64 \<Rightarrow> bytes \<Rightarrow> string \<Rightarrow> u128 \<Rightarrow> i64 \<Rightarrow> op_log" where
  "effect_log agent_id step_ordinal output_payload namespace transaction_id timestamp =
     \<lparr>ol_agent_id = agent_id,
      ol_state = \<lparr>st_agent_id = Some agent_id, st_transaction_id = transaction_id, st_timestamp = timestamp,
        st_status = ToolExecution, st_text = effect_text step_ordinal output_payload, st_namespace = namespace\<rparr>,
      ol_delta = output_payload, ol_previous_hash = zeros 32, ol_current_hash = zeros 32,
      ol_entropy_seeds = [], ol_network_responses = []\<rparr>"

text \<open>One call: who records which step with which signature, what it gave, and where.\<close>

record effect_call =
  ec_agent_id :: bytes
  ec_step :: u64
  ec_signature :: bytes
  ec_output :: bytes
  ec_namespace :: string
  ec_tx :: u128
  ec_time :: i64

definition effect_of :: "effect_call \<Rightarrow> effect_record" where
  "effect_of c =
     \<lparr>ef_agent_id = ec_agent_id c, ef_step_ordinal = ec_step c, ef_call_signature_hash = ec_signature c,
      ef_output_payload = ec_output c, ef_transaction_id = ec_tx c, ef_timestamp = ec_time c\<rparr>"

definition record_effect ::
  "ext \<Rightarrow> effect_index \<times> 'd node \<Rightarrow> effect_call \<Rightarrow> effect_index \<times> 'd node" where
  "record_effect E s c =
     (let (index, nd) = s;
          key = effect_key_derive E (ec_agent_id c) (ec_step c) (ec_signature c);
          (ax, sealed_log, optional_batch) =
            seal_thought E (nd_axon nd)
              (effect_log (ec_agent_id c) (ec_step c) (ec_output c) (ec_namespace c) (ec_tx c) (ec_time c))
      in (AList.update key (effect_of c) index,
          nd\<lparr>nd_axon := ax,
             nd_bus := nd_bus nd @ (case optional_batch of None \<Rightarrow> [] | Some b \<Rightarrow> [MarkleBatchCrystallized b]),
             nd_wal := wal_append (nd_wal nd) sealed_log\<rparr>))"

definition get_effect :: "ext \<Rightarrow> effect_index \<Rightarrow> bytes \<Rightarrow> u64 \<Rightarrow> bytes \<Rightarrow> effect_record option" where
  "get_effect E index agent_id step_ordinal call_signature_hash =
     map_of index (effect_key_derive E agent_id step_ordinal call_signature_hash)"

section \<open>What the scan of hot memory reads\<close>

lemma read_entry_shift:
  "k \<le> length m \<Longrightarrow> read_entry (drop k m) c = map_sum id (map_prod id (\<lambda>n. n - k)) (read_entry m (k + c))"
  by (auto simp: read_entry_def slice_def Let_def ac_simps)

lemma scan_loop_shift: "k \<le> length m \<Longrightarrow> scan_loop E m (k + c) = scan_loop E (drop k m) c"
proof (induction "length m - (k + c)" arbitrary: c rule: less_induct)
  case less
  show ?case
  proof (cases "k + c < length m \<and> \<not> length m < k + c + 4")
    case True
    then have t: "c < length (drop k m)" "\<not> length (drop k m) < c + 4" by auto
    show ?thesis
    proof (cases "read_entry m (k + c)")
      case (Inl e)
      then show ?thesis using True t read_entry_shift [OF less.prems, of c]
        by (simp add: scan_loop.simps [of E m] scan_loop.simps [of E "drop k m"])
    next
      case (Inr pn)
      obtain p n where pn: "pn = (p, n)" by fastforce
      have n: "k + c < n" "n \<le> length m" using read_entry_advances [of m "k + c" p n] Inr pn by auto
      have "scan_loop E m (k + (n - k)) = scan_loop E (drop k m) (n - k)"
        using n less.prems True by (intro less.hyps) auto
      then have "scan_loop E m n = scan_loop E (drop k m) (n - k)" using n by simp
      then show ?thesis using True t read_entry_shift [OF less.prems, of c] Inr pn
        by (simp add: scan_loop.simps [of E m "k + c"] scan_loop.simps [of E "drop k m" c])
    qed
  next
    case False
    then show ?thesis using less.prems
      by (auto simp: scan_loop.simps [of E m "k + c"] scan_loop.simps [of E "drop k m" c])
  qed
qed

lemma scan_frame:
  assumes "framed_ok E b" and "4 \<le> length (wal_payload E b)"
  shows "scan_wal_zero_copy E (Some (wal_frame E b @ r)) =
    and_then (scan_wal_zero_copy E (Some (drop (length (wal_payload E b) - 4) (wal_payload E b) @ r)))
      (\<lambda>logs. Inr (x_oplog_unchecked E (crc_bytes E b @ take (length (wal_payload E b) - 4) (wal_payload E b)) # logs))"
proof -
  let ?n = "length (wal_payload E b)" and ?f = "wal_frame E b @ r"
  have crc: "length (crc_bytes E b) = 4" by (simp add: crc_bytes_def)
  have first: "read_entry ?f 0 = Inr (crc_bytes E b @ take (?n - 4) (wal_payload E b), 4 + ?n)"
    using read_entry_frame [OF assms(1), of r] assms(2) crc by simp
  have len: "length ?f = 8 + ?n + length r" by (simp add: wal_frame_length)
  have "drop (4 + ?n) ?f = drop (?n - 4) (wal_payload E b) @ r"
    using assms(2) crc by (simp add: wal_frame_def len_prefix_def)
  moreover have "scan_loop E ?f (4 + ?n) = scan_loop E (drop (4 + ?n) ?f) 0"
    using scan_loop_shift [of "4 + ?n" ?f E 0] len by simp
  ultimately show ?thesis
    using first len by (simp add: scan_wal_zero_copy_def scan_loop.simps [of E ?f 0])
qed

text \<open>
  The router's hot memory does not read what the WAL wrote. The scan skips no checksum: the first
  entry of a written frame is its checksum followed by the payload without its last four bytes,
  the next length is read from these, and when they are not zero on a log of one frame every lookup
  by id and every search panics.
\<close>

theorem hot_memory_reads_shifted_frames:
  assumes "framed_ok E b" and "4 \<le> length (wal_payload E b)"
    and "u32_from_le (drop (length (wal_payload E b) - 4) (wal_payload E b)) \<noteq> 0"
  shows "scan_wal_zero_copy E (Some (wal_frame E b @ r)) =
      and_then (scan_wal_zero_copy E (Some (drop (length (wal_payload E b) - 4) (wal_payload E b) @ r)))
        (\<lambda>logs. Inr (x_oplog_unchecked E (crc_bytes E b @ take (length (wal_payload E b) - 4) (wal_payload E b)) # logs))
    \<and> fetch_by_txid L E le (Some (wal_frame E b)) table tx = Inl (Panic ''range end index out of range for slice'')
    \<and> semantic_search_with_context L E le (Some (wal_frame E b)) q ns k =
        Inl (Panic ''range end index out of range for slice'')"
proof -
  let ?t = "drop (length (wal_payload E b) - 4) (wal_payload E b)"
  have l: "length ?t = 4" using assms(2) by simp
  have "0 < unat (u32_from_le ?t)" using assms(3) by (simp add: unat_gt_0)
  then have "read_entry ?t 0 = Inl (Panic ''range end index out of range for slice'')"
    using l by (simp add: read_entry_def slice_def)
  then have "scan_wal_zero_copy E (Some ?t) = Inl (Panic ''range end index out of range for slice'')"
    using l by (simp add: scan_wal_zero_copy_def scan_loop.simps [of E ?t])
  then have "scan_wal_zero_copy E (Some (wal_frame E b)) = Inl (Panic ''range end index out of range for slice'')"
    using scan_frame [OF assms(1,2), of "[]"] by simp
  then show ?thesis
    using scan_frame [OF assms(1,2)] by (simp add: fetch_by_txid_def semantic_search_with_context_def)
qed

lemma hot_memory_reads_shifted_frames_witness:
  "fetch_by_txid (demo_lance False) demo demo_engine (Some (wal_frame demo [demo_log_resp])) ''h'' 1 =
     Inl (Panic ''range end index out of range for slice'')"
proof -
  let ?p = "wal_payload demo [demo_log_resp]"
  have len: "length ?p = 214" unfolding demo_payload_resp
    by (simp add: put_state_def demo_log_resp_def demo_log_def)
  have "drop (length ?p - 4) ?p = [0, 1, 0, 120]"
    using len unfolding demo_payload_resp by (simp add: put_state_def demo_log_resp_def demo_log_def)
  moreover have "u32_from_le [0, 1, 0, 120] \<noteq> 0" by (simp add: u32_from_le_def)
  ultimately have z: "u32_from_le (drop (length ?p - 4) ?p) \<noteq> 0" by simp
  have "framed_ok demo [demo_log_resp]" "4 \<le> length ?p" using len by (simp_all add: framed_ok_def)
  from hot_memory_reads_shifted_frames [OF this z] show ?thesis by blast
qed

section \<open>The deep history\<close>

lemma deep_discovery_empty:
  assumes "lance_ok L" and "la_schema L (le_db le) (le_history_table le) = Some (history_schema d)"
    and "deep_discovery L E le hex a t = Inr logs"
  shows "logs = []"
proof -
  from assms(3) obtain bs where b: "execute_query L (le_db le) (le_history_table le) (deep_query hex a t) = Inr bs"
    and c: "collect_batches (deep_rows E) bs = Inr logs"
    unfolding deep_discovery_def and_then_Inr by blast
  have "\<not> is_ok (deep_rows E x)" if "Some x \<in> set bs" for x
  proof -
    have "map_of (batch_schema x) ''transaction_id'' = None"
      unfolding query_batch_schema [OF assms(1,2) b that] using no_transaction_id by simp
    then have "str_col x ''transaction_id'' = Inl missing_column" by (intro str_col_other_type) simp
    then show ?thesis by (simp add: deep_rows_def)
  qed
  from collect_batches_panic [OF this c] show ?thesis by simp
qed

lemma rebuild_Inr:
  assumes "rebuild_agent_timeline L E le index file hex target = Inr (blob, logs, actual, ts)"
  shows "\<exists>stx. resolve_target L le index hex target = Inr actual \<and> snapshot_or_blank L le hex target = Inr (stx, ts, blob)
    \<and> (if actual < oldest_wal_tx index then deep_discovery L E le hex stx target
       else hot_recovery E index file hex stx target) = Inr logs"
  using assms by (auto simp: rebuild_agent_timeline_def and_then_Inr split: if_splits)

lemma boot_Inr:
  assumes "boot_historical_agent LA E L master allowed env le nd hex target fork isolated = (nd', Inr cl)"
  shows "\<exists>logs creds cell ident. rebuild_agent_timeline LA E le (wal_index (nd_wal nd)) (Some (wal_file (nd_wal nd))) hex
        (case target of None \<Rightarrow> - 1 | Some t \<Rightarrow> t) = Inr (cl_snapshot cl, logs, ct_last_tx (cl_tracker cl), ct_last_time (cl_tracker cl))
    \<and> logs \<noteq> [] \<and> phantom_identity E hex target isolated = Inr ident
    \<and> cl_cell cl = historical_cell cell (x_hex_encode E ident) creds (replay_queues logs fork)
    \<and> cl_start_tx cl = (case target of None \<Rightarrow> ct_last_tx (cl_tracker cl) | Some t \<Rightarrow> t)"
  using assms unfolding boot_historical_agent_def
  by (cases target; auto simp: Let_def and_then_Inr split: if_splits sum.splits prod.splits; blast)

text \<open>
  An agent whose history was compacted cannot be resurrected. For a target below the oldest id of
  the WAL the timeline is read from the archive table through a column it does not have, so the
  boot fails, whatever was archived, and leaves the node as it is.
\<close>

theorem compacted_agent_cannot_be_resurrected:
  assumes "lance_ok LA" and "la_schema LA (le_db le) (le_history_table le) = Some (history_schema d)"
    and "t \<noteq> - 1" and "t < oldest_wal_tx (wal_index (nd_wal nd))"
    and "boot_historical_agent LA E L master allowed env le nd hex (Some t) fork isolated = (nd', r)"
  shows "\<not> is_ok r \<and> nd' = nd"
proof -
  have "\<not> is_ok r"
  proof
    assume "is_ok r"
    then obtain cl where "r = Inr cl" by (auto simp: is_ok_iff)
    from boot_Inr [OF assms(5) [unfolded this]] obtain logs where
      r: "rebuild_agent_timeline LA E le (wal_index (nd_wal nd)) (Some (wal_file (nd_wal nd))) hex t =
        Inr (cl_snapshot cl, logs, ct_last_tx (cl_tracker cl), ct_last_time (cl_tracker cl))" and n: "logs \<noteq> []" by auto
    from rebuild_Inr [OF r] obtain stx where "deep_discovery LA E le hex stx t = Inr logs"
      using assms(3,4) by (auto simp: resolve_target_def)
    from deep_discovery_empty [OF assms(1,2) this] n show False by simp
  qed
  then show ?thesis using assms(5)
    by (auto simp: boot_historical_agent_def Let_def split: if_splits sum.splits prod.splits)
qed

definition demo_env :: boot_env where
  "demo_env = \<lparr>be_random_key = [2], be_now = 100, be_key = Some (zeros 32), be_cert = Some [], be_wasm = Some [],
     be_set_len_ok = True, be_phantom_wal = None\<rparr>"

lemma compacted_agent_cannot_be_resurrected_witness:
  "\<not> is_ok (snd (boot_historical_agent (demo_lance False) demo demo_crdt [1] True demo_env demo_engine
      (demo_node\<lparr>nd_wal := (nd_wal demo_node)\<lparr>wal_index := [(9, 0)]\<rparr>\<rparr>) ''0a'' (Some 5) None False))"
proof -
  let ?nd = "demo_node\<lparr>nd_wal := (nd_wal demo_node)\<lparr>wal_index := [(9, 0)]\<rparr>\<rparr>"
  obtain nd' r where b: "boot_historical_agent (demo_lance False) demo demo_crdt [1] True demo_env demo_engine ?nd
      ''0a'' (Some 5) None False = (nd', r)" by fastforce
  have "(5 :: u128) < oldest_wal_tx (wal_index (nd_wal ?nd))" by (simp add: oldest_wal_tx_def)
  from compacted_agent_cannot_be_resurrected [OF demo_lance_ok demo_engine_schemas(1) _ this b] b
  show ?thesis by simp
qed

lemma fork_never_boots:
  "\<not> is_ok (snd (boot_historical_agent LA E L master allowed env le nd hex target fork True))
   \<and> fst (boot_historical_agent LA E L master allowed env le nd hex target fork True) = nd"
proof -
  have "\<not> is_ok (phantom_identity E hex target True)"
    by (auto simp: phantom_identity_def copy_from_slice_def u128_to_be_def split: option.splits)
  then have "phantom_identity E hex target True \<noteq> Inr i" for i by (auto simp: is_ok_iff)
  then show ?thesis
    by (auto simp: boot_historical_agent_def is_ok_iff and_then_Inr Let_def split: sum.splits)
qed

text \<open>
  No time travel. The salt of a fork copies the 16 bytes of the target id into halves of 8 bytes,
  which panics, so an isolated boot never starts a cell and never changes the node.
\<close>

theorem time_travel_never_starts_a_cell:
  "\<not> is_ok (snd (boot_historical_agent LA E L master allowed env le nd hex target fork True))
   \<and> fst (boot_historical_agent LA E L master allowed env le nd hex target fork True) = nd"
  by (rule fork_never_boots)

section \<open>What a resurrection replays\<close>

lemma snapshot_blank:
  assumes "lance_ok L"
    and "la_open L (le_db le) (le_snapshot_table le) \<Longrightarrow>
      la_schema L (le_db le) (le_snapshot_table le) = Some snapshot_schema"
    and "snapshot_or_blank L le hex t = Inr (stx, ts, blob)"
  shows "stx = 0 \<and> ts = 0 \<and> blob = []"
proof -
  have "\<not> is_ok (fetch_closest_snapshot L le hex t)"
  proof (cases "la_open L (le_db le) (le_snapshot_table le)")
    case True
    from snapshot_fetch_fails [OF assms(1) assms(2) [OF True]] show ?thesis .
  qed (simp add: fetch_closest_snapshot_def open_table_def)
  then show ?thesis using assms(3)
    by (auto simp: snapshot_or_blank_def is_ok_iff split: sum.splits rust_fail.splits)
qed

lemma hot_loop_logs:
  "hot_loop E hex t buffer off logs = Inr logs' \<Longrightarrow>
   \<forall>l \<in> set logs' - set logs. x_hex_encode E (ol_agent_id l) = hex \<and> ol_txid l \<le> t"
proof (induction E hex t buffer off logs arbitrary: logs' rule: hot_loop.induct)
  case (1 E hex t buffer off logs)
  show ?case
  proof (cases "off < length buffer \<and> \<not> length buffer < off + 4")
    case True
    then obtain p n where r: "read_entry buffer off = Inr (p, n)"
      using "1.prems" by (auto simp: hot_loop.simps [of E hex t buffer off] split: sum.splits prod.splits)
    let ?log = "x_oplog_unchecked E p"
    show ?thesis
    proof (cases "t < ol_txid ?log")
      case False
      have "hot_loop E hex t buffer n (if x_hex_encode E (ol_agent_id ?log) = hex then logs @ [?log] else logs) = Inr logs'"
        using "1.prems" True r False by (auto simp: hot_loop.simps [of E hex t buffer off] Let_def)
      from "1.IH" [OF conjunct1 [OF True] conjunct2 [OF True] r refl refl False this] False show ?thesis
        by (cases "x_hex_encode E (ol_agent_id ?log) = hex") auto
    qed (use "1.prems" True r in \<open>simp add: hot_loop.simps [of E hex t buffer off]\<close>)
  qed (use "1.prems" in \<open>auto simp: hot_loop.simps [of E hex t buffer off] split: if_splits\<close>)
qed

lemma hot_recovery_logs:
  "hot_recovery E index file hex a t = Inr logs \<Longrightarrow>
   \<forall>l \<in> set logs. x_hex_encode E (ol_agent_id l) = hex \<and> ol_txid l \<le> t"
  using hot_loop_logs [of E hex t _ 0 "[]" logs]
  by (auto simp: hot_recovery_def Let_def split: if_splits option.splits)


definition demo_router_ext :: ext where
  "demo_router_ext = demo\<lparr>x_oplog_unchecked := \<lambda>_. demo_log 1 ''a'' ''x''\<rparr>"

definition demo_hot_node :: "(string \<times> crdt_entry list) list node" where
  "demo_hot_node = demo_node\<lparr>nd_wal := (nd_wal demo_node)\<lparr>wal_file := [0, 0, 0, 0], wal_index := [(1, 0)]\<rparr>\<rparr>"

definition demo_cold :: "(string \<times> record_batch list) list lance_engine" where
  "demo_cold = lance_engine_new [(''h'', [demo_history [demo_log 1 ''a'' ''x'']])] ''p'' ''h'' mock_provider"

lemma demo_cold_tables:
  "la_schema (demo_lance nl) (le_db demo_cold) (le_history_table demo_cold) = Some (history_schema 2)"
  "\<not> la_open (demo_lance nl) (le_db demo_cold) (le_snapshot_table demo_cold)"
  using demo_engine_schemas(1) [of nl]
  by (simp_all add: demo_lance_def demo_engine_def demo_cold_def lance_engine_new_def)

definition demo_hex :: string where
  "demo_hex = x_hex_encode demo (zeros 16)"

lemma demo_boot:
  "\<exists>nd' cl. boot_historical_agent (demo_lance False) demo_router_ext demo_crdt [1] True demo_env demo_cold demo_hot_node
     demo_hex (Some 5) None False = (nd', Inr cl) \<and> cl_wasm cl = []"
proof -
  let ?E = demo_router_ext and ?l = "demo_log 1 ''a'' ''x''"
  have h: "x_hex_encode ?E (ol_agent_id ?l) = demo_hex"
    by (simp add: demo_router_ext_def demo_hex_def demo_log_def)
  have u: "x_oplog_unchecked ?E p = ?l" "ol_txid ?l = 1" for p
    by (simp_all add: demo_router_ext_def demo_log_def)
  have e: "read_entry [0, 0, 0, 0] 0 = Inr ([], 4)" by (simp add: read_entry_def slice_def u32_from_le_def)
  have "hot_loop ?E demo_hex 5 [0, 0, 0, 0] 0 [] = hot_loop ?E demo_hex 5 [0, 0, 0, 0] 4 [?l]"
    unfolding hot_loop.simps [of ?E demo_hex 5 "[0, 0, 0, 0]" 0] using e h u by (simp add: Let_def)
  also have "\<dots> = Inr [?l]" by (simp add: hot_loop.simps)
  finally have hot: "hot_loop ?E demo_hex 5 [0, 0, 0, 0] 0 [] = Inr [?l]" .
  have s: "snapshot_or_blank (demo_lance False) demo_cold demo_hex 5 = Inr (0, 0, [])"
    using demo_cold_tables(2) by (simp add: snapshot_or_blank_def fetch_closest_snapshot_def open_table_def)
  have r: "rebuild_agent_timeline (demo_lance False) ?E demo_cold (wal_index (nd_wal demo_hot_node))
      (Some (wal_file (nd_wal demo_hot_node))) demo_hex 5 = Inr ([], [?l], 5, 0)"
    using hot s by (simp add: rebuild_agent_timeline_def resolve_target_def hot_recovery_def demo_hot_node_def oldest_wal_tx_def)
  have i: "phantom_identity ?E demo_hex (Some 5) False = Inr (zeros 16)"
    using demo_hex_ok by (simp add: phantom_identity_def demo_router_ext_def demo_hex_def copy_from_slice_def)
  show ?thesis
    unfolding boot_historical_agent_def option.case r i
    by (simp add: cell_credentials_def demo_env_def Let_def split: prod.splits)
qed


text \<open>
  A resurrected agent starts from a blank memory. No snapshot is ever found, so nothing is
  injected; the tracker holds the time zero, so every boot takes a checkpoint, and what it saves
  is the memory the module starts with.
\<close>

theorem resurrected_cell_starts_blank:
  assumes "lance_ok LA"
    and "la_open LA (le_db le) (le_snapshot_table le) \<Longrightarrow>
      la_schema LA (le_db le) (le_snapshot_table le) = Some snapshot_schema"
    and "boot_historical_agent LA E L master allowed env le nd hex target fork isolated = (nd', Inr cl)"
    and "wa_module W (cl_wasm cl)" and "wa_instantiate W engine_async (cl_wasm cl) = Inr mem"
    and "86400 \<le> now"
    and "execute_agent W (cl_wasm cl) (cl_cell cl) (cl_tracker cl) (cl_start_tx cl) now (Some (cl_snapshot cl)) calls
      = (sb', tr', job, r)"
  shows "cl_snapshot cl = [] \<and> job = Some (ucast (cl_start_tx cl), now, sb_agent_hex (cl_cell cl), mem)"
proof -
  from boot_Inr [OF assms(3)] obtain logs where
    "rebuild_agent_timeline LA E le (wal_index (nd_wal nd)) (Some (wal_file (nd_wal nd))) hex
       (case target of None \<Rightarrow> - 1 | Some t \<Rightarrow> t) =
      Inr (cl_snapshot cl, logs, ct_last_tx (cl_tracker cl), ct_last_time (cl_tracker cl))" by blast
  from rebuild_Inr [OF this] obtain stx where
    "snapshot_or_blank LA le hex (case target of None \<Rightarrow> - 1 | Some t \<Rightarrow> t) =
       Inr (stx, ct_last_time (cl_tracker cl), cl_snapshot cl)" by blast
  from snapshot_blank [OF assms(1,2) this] have s: "ct_last_time (cl_tracker cl) = 0" "cl_snapshot cl = []" by simp_all
  then have t: "time_threshold_met (cl_tracker cl) now" using assms(6) by (simp add: time_threshold_met_def)
  have i: "inject_historical_state (cl_cell cl\<lparr>sb_mem := mem\<rparr>) [] = Inr (cl_cell cl\<lparr>sb_mem := mem\<rparr>)"
    by (simp add: inject_historical_state_def guest_write_def as_usize_def)
  show ?thesis using assms(4,5,7) s t i
    by (auto simp: execute_agent_def checkpoint_def create_checkpoint_def Let_def split: if_splits prod.splits sum.splits rust_fail.splits)
qed

lemma resurrected_cell_starts_blank_witness:
  "\<exists>nd' cl sb' tr' r. boot_historical_agent (demo_lance False) demo_router_ext demo_crdt [1] True demo_env demo_cold
       demo_hot_node demo_hex (Some 5) None False = (nd', Inr cl)
     \<and> execute_agent demo_wasm (cl_wasm cl) (cl_cell cl) (cl_tracker cl) (cl_start_tx cl) 86400 (Some (cl_snapshot cl)) []
       = (sb', tr', Some (ucast (cl_start_tx cl), 86400, sb_agent_hex (cl_cell cl), []), r)"
proof -
  from demo_boot obtain nd' cl where b: "boot_historical_agent (demo_lance False) demo_router_ext demo_crdt [1] True
     demo_env demo_cold demo_hot_node demo_hex (Some 5) None False = (nd', Inr cl)" "cl_wasm cl = []" by blast
  obtain sb' tr' job r where x: "execute_agent demo_wasm (cl_wasm cl) (cl_cell cl) (cl_tracker cl) (cl_start_tx cl) 86400
      (Some (cl_snapshot cl)) [] = (sb', tr', job, r)" by (metis prod_cases4)
  have w: "wa_module demo_wasm (cl_wasm cl)" "wa_instantiate demo_wasm engine_async (cl_wasm cl) = Inr []"
    using b(2) by (simp_all add: demo_wasm_def)
  from resurrected_cell_starts_blank [OF demo_lance_ok _ b(1) w _ x] demo_cold_tables(2) b(1) x show ?thesis by auto
qed

section \<open>What the fusion keeps\<close>

definition fused_ok :: "fused \<Rightarrow> bool" where
  "fused_ok m \<longleftrightarrow> distinct (map fst m) \<and> (\<forall>k r. map_of m k = Some r \<longrightarrow> us_tx_id r = k)"

lemma fused_ok_update: "fused_ok m \<Longrightarrow> us_tx_id r = k \<Longrightarrow> fused_ok (AList.update k r m)"
  by (simp add: fused_ok_def distinct_update update_conv')

lemma fused_ok_ids: "fused_ok m \<Longrightarrow> map us_tx_id (map snd m) = map fst m"
  by (auto simp: fused_ok_def intro!: map_cong)

interpretation cold_fusion: preserved fuse_cold fused_ok
  by unfold_locales (simp add: fuse_cold_def fused_ok_update)

lemma fused_ok_lookup: "fused_ok m \<Longrightarrow> map_of m k = Some r \<Longrightarrow> us_tx_id r = k"
  by (simp add: fused_ok_def)

interpretation hot_fusion: preserved "fuse_hot F" fused_ok for F
  by unfold_locales (simp add: fuse_hot_def fused_ok_update fused_ok_lookup split: option.splits)

lemma fuse_cold_ids: "fst ` set (foldl fuse_cold m rs) = fst ` set m \<union> us_tx_id ` set rs"
  by (induction rs arbitrary: m) (auto simp: fuse_cold_def dom_update)

lemma fuse_hot_ids: "fst ` set (foldl (fuse_hot F) m rs) = fst ` set m \<union> us_tx_id ` set rs"
proof (induction rs arbitrary: m)
  case (Cons r rs)
  have "fst ` set (fuse_hot F m r) = insert (us_tx_id r) (fst ` set m)"
    by (auto simp: fuse_hot_def dom_update map_of_eq_None_iff dest: map_of_SomeD intro: rev_image_eqI split: option.splits)
  then show ?case using Cons.IH by simp
qed simp

lemma enumerate_image: "(\<lambda>x. g (snd x)) ` set (enumerate 0 xs) = g ` set xs"
  by (metis image_image list.set_map map_snd_enumerate)

lemma mset_insert_desc: "mset (insert_desc lt x ys) = add_mset x (mset ys)"
  by (induction ys) auto

lemma mset_sort_desc: "mset (sort_desc lt xs) = mset xs"
  by (induction xs) (simp_all add: mset_insert_desc)

lemma fuse_facts:
  "fused_ok (fuse F G now colds hots)"
  "fst ` set (fuse F G now colds hots) = cs_tx_id ` set colds \<union> (\<lambda>h. hv_tx_id (fst h)) ` set hots"
proof -
  have "fused_ok []" by (simp add: fused_ok_def)
  then show "fused_ok (fuse F G now colds hots)"
    unfolding fuse_def by (intro hot_fusion.run_inv cold_fusion.run_inv)
  have c: "us_tx_id (case x of (i, c) \<Rightarrow> cold_unified F G now i c) = cs_tx_id (snd x)" for x
    by (cases x) (simp add: cold_unified_def)
  have h: "us_tx_id (case x of (i, c) \<Rightarrow> hot_unified F G now i c) = hv_tx_id (fst (snd x))" for x
    by (cases x) (simp add: hot_unified_def split: prod.splits)
  show "fst ` set (fuse F G now colds hots) = cs_tx_id ` set colds \<union> (\<lambda>h. hv_tx_id (fst h)) ` set hots"
    unfolding fuse_def fuse_hot_ids fuse_cold_ids set_map image_image c h
    using enumerate_image [of cs_tx_id colds] enumerate_image [of "\<lambda>h. hv_tx_id (fst h)" hots] by simp
qed

text \<open>
  C31. The hybrid search gives each thought once. Whatever the order of the hash map, the ranked
  answer has at most \<open>limit\<close> entries in descending score, no transaction id twice, only ids that
  one of the two searches found, and an id that was found is left out only when the answer is full.
\<close>

theorem hybrid_search_gives_each_thought_once:
  assumes "\<And>xs. mset (into_values xs) = mset xs"
    and "weak_order_on (snd ` set (fuse F G now colds hots)) (\<lambda>a b. f_less F (us_score a) (us_score b))"
    and "res = rank_fused F into_values limit (fuse F G now colds hots)"
  shows "length res \<le> limit \<and> distinct (map us_tx_id res)
     \<and> sorted_wrt (\<lambda>a b. \<not> f_less F (us_score a) (us_score b)) res
     \<and> us_tx_id ` set res \<subseteq> cs_tx_id ` set colds \<union> (\<lambda>h. hv_tx_id (fst h)) ` set hots
     \<and> (length res < limit \<longrightarrow>
          us_tx_id ` set res = cs_tx_id ` set colds \<union> (\<lambda>h. hv_tx_id (fst h)) ` set hots)"
proof -
  let ?m = "fuse F G now colds hots" and ?lt = "\<lambda>a b. f_less F (us_score a) (us_score b)"
  let ?s = "sort_desc ?lt (into_values (map snd ?m))"
  have set: "set (into_values xs) = set xs" for xs using assms(1) [of xs] by (metis set_mset_mset)
  have mset: "mset ?s = mset (map snd ?m)"
    using assms(1) [of "map snd ?m"] mset_sort_desc by metis
  have ids: "map us_tx_id (map snd ?m) = map fst ?m" by (rule fused_ok_ids [OF fuse_facts(1)])
  have d: "distinct (map us_tx_id (map snd ?m))" unfolding ids using fuse_facts(1) fused_ok_def by blast
  have "mset (map us_tx_id ?s) = mset (map us_tx_id (map snd ?m))" using mset by (metis mset_map)
  then have ds: "distinct (map us_tx_id ?s)" using d mset_eq_imp_distinct_iff by blast
  have "us_tx_id ` set ?s = set (map us_tx_id (map snd ?m))" using set by (simp add: image_image)
  also have "\<dots> = cs_tx_id ` set colds \<union> (\<lambda>h. hv_tx_id (fst h)) ` set hots"
    unfolding ids using fuse_facts(2) [of F G now colds hots] by simp
  finally have all: "us_tx_id ` set ?s = cs_tx_id ` set colds \<union> (\<lambda>h. hv_tx_id (fst h)) ` set hots" .
  have "weak_order_on (set (into_values (map snd ?m))) ?lt" using assms(2) set by simp
  then have so: "sorted_wrt (\<lambda>a b. \<not> ?lt a b) ?s" by (rule sort_desc_sorted)
  have res: "res = take limit ?s" by (simp add: assms(3) rank_fused_def)
  have "length res \<le> limit" by (simp add: res)
  moreover have "distinct (map us_tx_id res)" unfolding res take_map [symmetric] by (rule distinct_take [OF ds])
  moreover have "sorted_wrt (\<lambda>a b. \<not> ?lt a b) res" unfolding res by (rule sorted_wrt_take [OF so])
  moreover have "us_tx_id ` set res \<subseteq> cs_tx_id ` set colds \<union> (\<lambda>h. hv_tx_id (fst h)) ` set hots"
    unfolding all [symmetric] res by (intro image_mono set_take_subset)
  moreover have "length res < limit \<longrightarrow>
      us_tx_id ` set res = cs_tx_id ` set colds \<union> (\<lambda>h. hv_tx_id (fst h)) ` set hots"
    unfolding all [symmetric] by (simp add: res)
  ultimately show ?thesis by (intro conjI)
qed

lemma demo_weak_order: "weak_order_on A (\<lambda>a b. f_less demo_floats (g a) (g b))"
  by (auto simp: demo_floats_def weak_order_on_def)

lemma hybrid_search_gives_each_thought_once_witness:
  "length (rank_fused demo_floats id 2 (fuse demo_floats \<lparr>fu_nat = word_of_nat, fu_i64 = \<lambda>x. ucast x, fu_exp = id\<rparr> 9
     [\<lparr>cs_tx_id = 7, cs_agent_hex = [], cs_status = [], cs_text = ''t'', cs_namespace = [], cs_timestamp = 1, cs_distance = 0\<rparr>]
     [(\<lparr>hv_tx_id = 7, hv_agent_hex = [], hv_namespace = [], hv_text = ''t'', hv_timestamp = 1, hv_vector = []\<rparr>, 1)])) \<le> 2"
  by (rule conjunct1 [OF hybrid_search_gives_each_thought_once [OF _ demo_weak_order refl]]) simp

section \<open>What the effect index gives back\<close>

interpretation effects: keyed_store map_of "\<lambda>s k v. AList.update k v s"
  by unfold_locales (simp add: update_conv')

definition effect_key :: "ext \<Rightarrow> effect_call \<Rightarrow> bytes" where
  "effect_key E c = effect_key_derive E (ec_agent_id c) (ec_step c) (ec_signature c)"

lemma record_effects_index:
  "fst (foldl (record_effect E) s cs) =
   foldl (\<lambda>s kv. AList.update (fst kv) (snd kv) s) (fst s) (map (\<lambda>c. (effect_key E c, effect_of c)) cs)"
  by (induction cs arbitrary: s) (simp_all add: record_effect_def effect_key_def Let_def split: prod.splits)

lemma map_of_find: "map_of (map (\<lambda>c. (f c, g c)) cs) k = map_option g (find (\<lambda>c. f c = k) cs)"
  by (induction cs) auto


definition demo_call :: effect_call where
  "demo_call = \<lparr>ec_agent_id = zeros 16, ec_step = 3, ec_signature = [4], ec_output = [5], ec_namespace = ''a'',
     ec_tx = 6, ec_time = 7\<rparr>"


text \<open>
  Every recorded effect is sealed and reaches the WAL: the logs are those of the calls in order,
  with the output as the delta; the step and the signature that the index is keyed by are not in
  them, only the text has the step.
\<close>

theorem effects_are_logged_in_order:
  "\<exists>logs. wal_queue (nd_wal (snd (foldl (record_effect E) (index, nd) cs))) = wal_queue (nd_wal nd) @ logs
     \<and> list_all2 (\<lambda>l c. ol_agent_id l = ec_agent_id c \<and> ol_delta l = ec_output c \<and> ol_txid l = ec_tx c
          \<and> ol_namespace l = ec_namespace c \<and> st_text (ol_state l) = effect_text (ec_step c) (ec_output c)) logs cs"
proof (induction cs arbitrary: index nd)
  case (Cons c cs)
  let ?raw = "effect_log (ec_agent_id c) (ec_step c) (ec_output c) (ec_namespace c) (ec_tx c) (ec_time c)"
  obtain ax log bo where s: "seal_thought E (nd_axon nd) ?raw = (ax, log, bo)" by (metis prod.exhaust)
  obtain index1 nd1 where r: "record_effect E (index, nd) c = (index1, nd1)" by fastforce
  then have q: "wal_queue (nd_wal nd1) = wal_queue (nd_wal nd) @ [log]"
    using s by (auto simp: record_effect_def wal_append_def Let_def)
  from Cons.IH [of index1 nd1] obtain logs where
    "wal_queue (nd_wal (snd (foldl (record_effect E) (index1, nd1) cs))) = wal_queue (nd_wal nd1) @ logs"
    "list_all2 (\<lambda>l c. ol_agent_id l = ec_agent_id c \<and> ol_delta l = ec_output c \<and> ol_txid l = ec_tx c
       \<and> ol_namespace l = ec_namespace c \<and> st_text (ol_state l) = effect_text (ec_step c) (ec_output c)) logs cs" by blast
  with q r seal_thought_sealed [OF s] show ?case
    by (intro exI [of _ "log # logs"]) (simp add: effect_log_def)
qed simp

end
