(* ===== verification/Rest_Api.thy ===== *)
theory Rest_Api
  imports Memory_Router Tcp_Ingress
begin

text \<open>
  The REST endpoints of src/raqim-core/src/api.rs: the errors and their responses, the HTTP
  ingress, the state proofs and effects, the quarantine desk, the searches and the telemetry. A
  handler takes the state it touches and gives it back with a reply; a panic is caught by the
  router's outermost layer. The tasks a handler spawns are run to their end. JSON bodies are the
  records they decode to; base64, the size of the index on disk and the clock are parameters.
\<close>

section \<open>Errors and replies\<close>

datatype api_error =
    Bad_Request string
  | Unauthorized string
  | Forbidden string
  | Not_Found string
  | Rate_Limit_Exceeded string
  | Internal_Server_Error string

fun into_response :: "api_error \<Rightarrow> nat \<times> string \<times> string" where
  "into_response (Bad_Request msg) = (400, ''BAD_REQUEST'', msg)"
| "into_response (Unauthorized msg) = (401, ''UNAUTHORIZED'', msg)"
| "into_response (Forbidden msg) = (403, ''FORBIDDEN'', msg)"
| "into_response (Not_Found msg) = (404, ''NOT_FOUND'', msg)"
| "into_response (Rate_Limit_Exceeded msg) = (429, ''RATE_LIMIT_EXCEEDED'', msg)"
| "into_response (Internal_Server_Error msg) = (500, ''INTERNAL_ERROR'', msg)"

datatype 'a reply = Ok_Json 'a | Failed api_error | Panicked string

text \<open>The status the client sees; \<open>CatchPanicLayer\<close> answers 500 for a panic.\<close>

definition status_code :: "'a reply \<Rightarrow> nat" where
  "status_code r = (case r of Ok_Json _ \<Rightarrow> 200 | Failed e \<Rightarrow> fst (into_response e) | Panicked _ \<Rightarrow> 500)"

text \<open>\<open>result.map_err(f)?\<close>; a panic passes through.\<close>

definition or_fail :: "(string \<Rightarrow> api_error) \<Rightarrow> 'a res \<Rightarrow> ('a \<Rightarrow> 'b reply) \<Rightarrow> 'b reply" where
  "or_fail f r k = (case r of Inr x \<Rightarrow> k x | Inl (Err e) \<Rightarrow> Failed (f e) | Inl (Panic p) \<Rightarrow> Panicked p)"

text \<open>\<open>result.unwrap_or_default()\<close> and the like: an error is the default, a panic is not.\<close>

definition or_default :: "'a \<Rightarrow> 'a res \<Rightarrow> 'a res" where
  "or_default d r = (case r of Inl (Err e) \<Rightarrow> Inr d | _ \<Rightarrow> r)"

lemma or_default_Inr: "or_default d r = Inr x \<Longrightarrow> r = Inr x \<or> x = d"
  by (auto simp: or_default_def split: sum.splits rust_fail.splits)

definition plain :: "'a res \<Rightarrow> 'a reply" where
  "plain r = or_fail Internal_Server_Error r Ok_Json"

section \<open>The HTTP ingress\<close>

definition http_ingress_endpoint ::
  "ext \<Rightarrow> ('d, 'v) crdt \<Rightarrow> frame_clock \<Rightarrow> 'd node \<Rightarrow> bytes \<Rightarrow> 'd node \<times> string reply" where
  "http_ingress_endpoint E L ck nd body =
     (case x_ingress_access E body of
        None \<Rightarrow> (nd, Failed (Bad_Request ''Malformed IngressEnvelope memory layout''))
      | Some ing \<Rightarrow>
          (case x_state_access E (in_state_bytes ing) of
             None \<Rightarrow> (nd, Failed (Bad_Request ''Malformed AgentState inner memory layout''))
           | Some st \<Rightarrow>
               (case verify_session_lineage E (fc_secs ck) (nd_aegis nd) (in_capability_cert ing) (in_public_key ing) of
                  (ag1, Inl (Err e)) \<Rightarrow> (nd\<lparr>nd_aegis := ag1\<rparr>, Failed (Unauthorized (''Lineage Verification failed: '' @ e)))
                | (ag1, Inl (Panic p)) \<Rightarrow> (nd\<lparr>nd_aegis := ag1\<rparr>, Panicked p)
                | (ag1, Inr (agent_hex, group_name)) \<Rightarrow>
                    (case authorize_packet_fast E (fc_secs ck) (fc_nanos ck) ag1 agent_hex group_name
                            (in_public_key ing) (in_state_bytes ing) (in_signature ing) (in_intent_path ing)
                            (st_timestamp st) of
                       (ag2, Inl (Err e)) \<Rightarrow> (nd\<lparr>nd_aegis := ag2\<rparr>, Failed (Forbidden (''Aegis Interdiction: '' @ e)))
                     | (ag2, Inl (Panic p)) \<Rightarrow> (nd\<lparr>nd_aegis := ag2\<rparr>, Panicked p)
                     | (ag2, Inr _) \<Rightarrow>
                         (fst (execute_raqim_cascade E L (fc_secs ck) (fc_tx_id ck) (nd\<lparr>nd_aegis := ag2\<rparr>)
                                 (x_state_unchecked E (in_state_bytes ing)) [] []),
                          Ok_Json ''Thought accepted into cascade'')))))"

section \<open>State proofs and effects\<close>

record state_proof_response =
  sp_success :: bool
  sp_proof :: "inclusion_proof option"
  sp_message :: string

definition get_state_proof_handler :: "ext \<Rightarrow> axon \<Rightarrow> string \<Rightarrow> state_proof_response reply" where
  "get_state_proof_handler E ax tx_id =
     (case from_str_radix16 tx_id of
        None \<Rightarrow> Failed (Bad_Request ''tx_id must be a valid 32-character hex string'')
      | Some tx \<Rightarrow>
          (case generate_proof_for_tx E ax tx of
             Inl (Panic p) \<Rightarrow> Panicked p
           | Inl (Err e) \<Rightarrow> Failed (Internal_Server_Error e)
           | Inr (Some proof) \<Rightarrow>
               Ok_Json \<lparr>sp_success = True, sp_proof = Some proof,
                 sp_message = (if ip_is_active_buffer proof
                   then ''Proof generated against active workspace buffer (un-crystallines)''
                   else ''proof generated against immutable Markle Batch archive.'')\<rparr>
           | Inr None \<Rightarrow>
               Ok_Json \<lparr>sp_success = False, sp_proof = None,
                 sp_message = ''Transaction ID '' @ fmt_032x tx @ '' not found in active memory batch archives.''\<rparr>))"

text \<open>\<open>hex::decode(..)\<close> into an array of \<open>n\<close> bytes.\<close>

definition hex_array :: "ext \<Rightarrow> nat \<Rightarrow> string \<Rightarrow> bytes option" where
  "hex_array E n s = (case x_hex_decode E s of None \<Rightarrow> None | Some b \<Rightarrow> if length b = n then Some b else None)"

record record_effect_request =
  rq_agent_hex :: string
  rq_step :: u64
  rq_signature_hex :: string
  rq_payload_b64 :: string
  rq_namespace :: string

definition reality_forked :: "record_effect_request \<Rightarrow> u128 \<Rightarrow> i64 \<Rightarrow> system_event \<times> ui_event" where
  "reality_forked rq tx timestamp =
     (let original_ns = replace ''phantom_'' [] (rq_namespace rq) in
      (RealityForked (rq_agent_hex rq) original_ns (rq_namespace rq) (rq_step rq) (fmt_032x tx) timestamp,
       UiRealityForked (rq_agent_hex rq) original_ns (rq_namespace rq) (rq_step rq) (fmt_032x tx)))"

definition record_effect_handler ::
  "ext \<Rightarrow> (string \<Rightarrow> bytes option) \<Rightarrow> u128 \<Rightarrow> i64 \<Rightarrow> effect_index \<times> 'd node \<Rightarrow> record_effect_request
   \<Rightarrow> (effect_index \<times> 'd node) \<times> (bool \<times> string \<times> bool) reply" where
  "record_effect_handler E b64_decode tx now s rq =
     (case hex_array E 16 (rq_agent_hex rq) of
        None \<Rightarrow> (s, Failed (Bad_Request ''agent_hex''))
      | Some agent_id \<Rightarrow>
          (case hex_array E 32 (rq_signature_hex rq) of
             None \<Rightarrow> (s, Failed (Bad_Request ''call_signature_hex''))
           | Some call_signature_hash \<Rightarrow>
               (case b64_decode (rq_payload_b64 rq) of
                  None \<Rightarrow> (s, Failed (Bad_Request ''Invalid base64 payload''))
                | Some output_payload \<Rightarrow>
                    (let (index, nd) = record_effect E s
                           \<lparr>ec_agent_id = agent_id, ec_step = rq_step rq, ec_signature = call_signature_hash,
                            ec_output = output_payload, ec_namespace = rq_namespace rq, ec_tx = tx, ec_time = now\<rparr>;
                         is_forked = starts_with (rq_namespace rq) ''phantom_'';
                         nd1 = (if is_forked
                                then nd\<lparr>nd_bus := nd_bus nd @ [fst (reality_forked rq tx now)],
                                        nd_ui := nd_ui nd @ [snd (reality_forked rq tx now)]\<rparr>
                                else nd)
                     in ((index, nd1), Ok_Json (True, fmt_032x tx, is_forked))))))"

record get_effect_request =
  gr_agent_hex :: string
  gr_step :: u64
  gr_signature_hex :: string

definition get_effect_handler ::
  "ext \<Rightarrow> (bytes \<Rightarrow> string) \<Rightarrow> effect_index \<Rightarrow> get_effect_request \<Rightarrow> (string \<times> i64) option reply" where
  "get_effect_handler E b64_encode index rq =
     (case hex_array E 16 (gr_agent_hex rq) of
        None \<Rightarrow> Failed (Bad_Request ''agent_hex'')
      | Some agent_id \<Rightarrow>
          (case hex_array E 32 (gr_signature_hex rq) of
             None \<Rightarrow> Failed (Bad_Request ''call_signature_hex'')
           | Some call_signature_hash \<Rightarrow>
               Ok_Json (map_option (\<lambda>r. (b64_encode (ef_output_payload r), ef_timestamp r))
                          (get_effect E index agent_id (gr_step rq) call_signature_hash))))"

section \<open>The quarantine desk\<close>

definition lift_quarantine :: "aegis \<Rightarrow> string \<Rightarrow> aegis" where
  "lift_quarantine ag agent_hex = ag\<lparr>ag_quarantine := AList.delete agent_hex (ag_quarantine ag)\<rparr>"

definition lift_qurantine_and_resurrect ::
  "'db lance \<Rightarrow> ext \<Rightarrow> ('d, 'v) crdt \<Rightarrow> bytes \<Rightarrow> bool \<Rightarrow> boot_env \<Rightarrow> (string \<Rightarrow> u64 \<Rightarrow> string) \<Rightarrow> bool
   \<Rightarrow> 'db lance_engine \<Rightarrow> 'd node \<Rightarrow> string \<Rightarrow> string \<Rightarrow> 'd node \<times> 'd cell_launch reply" where
  "lift_qurantine_and_resurrect LA E L master allowed env control_json put_ok le nd agent_hex prompt =
     (let nd1 = nd\<lparr>nd_net := dispatch_control_override control_json (be_now env) put_ok (nd_net nd) agent_hex prompt\<rparr> in
      if is_quarantined (nd_aegis nd1) agent_hex then
        (let nd2 = nd1\<lparr>nd_aegis := lift_quarantine (nd_aegis nd1) agent_hex,
                       nd_procs := touch_agent (be_now env) (nd_procs nd1) agent_hex ''Unknown'' ''Rebooting'' ''Unknown''\<rparr>;
             (nd3, r) = boot_historical_agent LA E L master allowed env le nd2 agent_hex None None False
         in (nd3, or_fail (\<lambda>e. Internal_Server_Error (''Resurrection failed: '' @ e)) r Ok_Json))
      else (nd1, Failed (Not_Found (''Agent '' @ agent_hex @ '' not in quarantine''))))"

definition time_travel_endpoint ::
  "'db lance \<Rightarrow> ext \<Rightarrow> ('d, 'v) crdt \<Rightarrow> bytes \<Rightarrow> bool \<Rightarrow> boot_env \<Rightarrow> 'db lance_engine \<Rightarrow> 'd node
   \<Rightarrow> string \<Rightarrow> u128 \<Rightarrow> fork_config \<Rightarrow> 'd node \<times> 'd cell_launch reply" where
  "time_travel_endpoint LA E L master allowed env le nd agent_hex target fork =
     (if is_quarantined (nd_aegis nd) agent_hex then
        (let nd1 = nd\<lparr>nd_aegis := lift_quarantine (nd_aegis nd) agent_hex\<rparr>;
             (nd2, r) = boot_historical_agent LA E L master allowed env le nd1 agent_hex (Some target) (Some fork) True
         in (nd2, or_fail (\<lambda>e. Internal_Server_Error (''Time travel failed: '' @ e)) r Ok_Json))
      else (nd, Failed (Not_Found (''Agent hex: '' @ agent_hex @ '' not found in quarantine blocklist''))))"

text \<open>The list of the jail, most recent first; \<open>entries\<close> is the order of the map's iteration.\<close>

definition active_qurantine_endpoint ::
  "(quarantine_record list \<Rightarrow> quarantine_record list) \<Rightarrow> aegis \<Rightarrow> quarantine_record list" where
  "active_qurantine_endpoint entries ag =
     sort_desc (\<lambda>a b. q_timestamp a < q_timestamp b) (entries (map snd (ag_quarantine ag)))"

section \<open>Searches and timelines\<close>

definition unified_vault_search ::
  "'db lance \<Rightarrow> ext \<Rightarrow> float_ops \<Rightarrow> (f32 \<Rightarrow> f32) \<Rightarrow> (string \<Rightarrow> bool) \<Rightarrow> 'db lance_engine \<Rightarrow> bytes option
   \<Rightarrow> string \<Rightarrow> string option \<Rightarrow> bool option \<Rightarrow> vault_search_result list reply" where
  "unified_vault_search L E F similarity is_match le file query namespace include_wal =
     plain (and_then (or_default [] (semantic_search L similarity le query namespace 50)) (\<lambda>cold_results.
            and_then (if include_wal = None \<or> include_wal = Some True
                      then or_default [] (lexical_scan E is_match namespace 50 file) else Inr []) (\<lambda>hot_results.
              Inr (take 100 (sort_desc (\<lambda>a b. f_less F (vs_similarity_score a) (vs_similarity_score b))
                     (hot_results @ cold_results))))))"

definition semantic_search_endpoint ::
  "'db lance \<Rightarrow> float_ops \<Rightarrow> fusion_ops \<Rightarrow> (unified_search_result list \<Rightarrow> unified_search_result list) \<Rightarrow> i64
   \<Rightarrow> 'db lance_engine \<Rightarrow> hot_buffer \<Rightarrow> string \<Rightarrow> string \<Rightarrow> nat option \<Rightarrow> string list reply" where
  "semantic_search_endpoint L F G into_values now le buf namespace query limit =
     or_fail (\<lambda>e. Internal_Server_Error (''RAG search failed: '' @ e))
       (query_hybrid_memory L F G into_values now le buf query (Some namespace)
          (case limit of None \<Rightarrow> 5 | Some n \<Rightarrow> n)) Ok_Json"

definition fetch_agent_timeline ::
  "'db lance \<Rightarrow> ext \<Rightarrow> 'db lance_engine \<Rightarrow> bytes option \<Rightarrow> string \<Rightarrow> timeline_node list reply" where
  "fetch_agent_timeline L E le file agent_hex =
     plain (and_then (or_default [] (fetch_historical_timeline L le agent_hex)) (\<lambda>cold_res.
            and_then (or_default [] (fetch_hot_timeline E agent_hex file)) (\<lambda>nodes.
              Inr (sort_key tn_tx_id (nodes @ cold_res)))))"

section \<open>Telemetry\<close>

record vault_telemetry =
  vt_total_vectors :: nat
  vt_index_size_mb :: u64
  vt_wal_pending_count :: nat
  vt_densest_namespace :: string

definition vault_telemetry_endpoint ::
  "'db lance \<Rightarrow> (u64 \<Rightarrow> nat \<Rightarrow> string) \<Rightarrow> u64 \<Rightarrow> 'db lance_engine \<Rightarrow> wal \<Rightarrow> vault_telemetry reply" where
  "vault_telemetry_endpoint L percent index_size_mb le w =
     plain (and_then (or_default 0 (get_total_vector_count L le)) (\<lambda>total_vectors.
            and_then (or_default ''UNKNOWN (0%)'' (get_densest_namespace L percent le)) (\<lambda>densest.
              Inr \<lparr>vt_total_vectors = total_vectors, vt_index_size_mb = index_size_mb,
                   vt_wal_pending_count = get_pending_count w, vt_densest_namespace = densest\<rparr>)))"

definition recently_active :: "u64 \<Rightarrow> agent_process \<Rightarrow> bool" where
  "recently_active now p \<longleftrightarrow> saturating_sub now (ap_last_seen_ts p) \<le> 60 \<and> ap_status p \<noteq> ''Quarantined''"

definition dashboard_cards_endpoint ::
  "'db lance \<Rightarrow> u64 \<Rightarrow> 'db lance_engine \<Rightarrow> wal \<Rightarrow> process_table \<Rightarrow> (u64 \<times> nat \<times> nat) reply" where
  "dashboard_cards_endpoint L now le w procs =
     plain (and_then (or_default 0 (get_total_vector_count L le)) (\<lambda>total_vec.
            and_then (or_default 0 (get_total_vector_count L le)) (\<lambda>cold_count.
              Inr (word_of_nat (cold_count + get_pending_count w),
                   length (filter (recently_active now) (map snd procs)), total_vec))))"

text \<open>The node's name, the bytes of the log on disk (0 when they cannot be read), the queue.\<close>

definition cluster_info_endpoint :: "bytes option \<Rightarrow> network \<Rightarrow> wal \<Rightarrow> string \<times> nat \<times> nat" where
  "cluster_info_endpoint file nb w =
     (nb_node_id nb, (case file of None \<Rightarrow> 0 | Some content \<Rightarrow> length content), get_pending_count w)"

definition agent_alias_endpoint :: "process_table \<Rightarrow> (string \<times> string) list" where
  "agent_alias_endpoint procs = foldl (\<lambda>m (k, p). AList.update k (ap_alias p) m) [] procs"

section \<open>Uploads\<close>

text \<open>
  One field of a multipart body: its file name, its chunks (\<open>None\<close> is a broken stream) and what
  the disk does. Files are created under the plugin directory.
\<close>

record upload_field =
  uf_file_name :: "string option"
  uf_chunks :: "bytes option list"
  uf_create_ok :: bool
  uf_writes_ok :: "bool list"

fun write_chunks :: "bytes option list \<Rightarrow> bool list \<Rightarrow> bytes \<Rightarrow> bytes \<times> api_error option" where
  "write_chunks [] ws acc = (acc, None)"
| "write_chunks (None # cs) ws acc = (acc, Some (Bad_Request ''Chunk stream error''))"
| "write_chunks (Some c # cs) (False # ws) acc = (acc, Some (Internal_Server_Error ''File write failed''))"
| "write_chunks (Some c # cs) (True # ws) acc = write_chunks cs ws (acc @ c)"
| "write_chunks (Some c # cs) [] acc = write_chunks cs [] (acc @ c)"

definition plugin_path :: "string \<Rightarrow> string" where
  "plugin_path file_name = ''./plugins/'' @ file_name"

fun upload_wasm_endpoint ::
  "ext \<Rightarrow> (string \<times> bytes) list \<Rightarrow> upload_field option list \<Rightarrow> (string \<times> bytes) list \<times> string reply" where
  "upload_wasm_endpoint E dk [] = (dk, Ok_Json ''WASM module uploaded successfully'')"
| "upload_wasm_endpoint E dk (None # fs) = (dk, Failed (Bad_Request ''Multipart read failed''))"
| "upload_wasm_endpoint E dk (Some f # fs) =
     (let file_name = (case uf_file_name f of None \<Rightarrow> [] | Some n \<Rightarrow> n) in
      case parse_agent_id (x_hex_decode E) (trim_end_matches [''.wasm''] file_name) of
        Inl (Panic p) \<Rightarrow> (dk, Panicked p)
      | Inl (Err e) \<Rightarrow> (dk, Failed (Bad_Request ''Invalid Agent ID Hex format in file''))
      | Inr _ \<Rightarrow>
          if \<not> uf_create_ok f then (dk, Failed (Internal_Server_Error ''Failed to create file''))
          else
            (case write_chunks (uf_chunks f) (uf_writes_ok f) [] of
               (written, None) \<Rightarrow> upload_wasm_endpoint E (AList.update (plugin_path file_name) written dk) fs
             | (written, Some (Internal_Server_Error e)) \<Rightarrow>
                 (AList.delete (plugin_path file_name) dk, Failed (Internal_Server_Error e))
             | (written, Some e) \<Rightarrow> (AList.update (plugin_path file_name) written dk, Failed e)))"

section \<open>What the ingress commits\<close>

text \<open>
  C12. The HTTP ingress answers 200 exactly for a packet that decodes, whose certificate opens a session
  for its key and which the firewall admits for the group of that certificate; any other request
  leaves everything but the firewall as it was.
\<close>

theorem ingress_commits_only_admissible_packets:
  assumes "http_ingress_endpoint E L ck nd body = (nd', r)"
  shows "(status_code r = 200 \<longleftrightarrow>
       (\<exists>ing st ag1 hex grp. x_ingress_access E body = Some ing \<and> x_state_access E (in_state_bytes ing) = Some st
          \<and> verify_session_lineage E (fc_secs ck) (nd_aegis nd) (in_capability_cert ing) (in_public_key ing)
              = (ag1, Inr (hex, grp))
          \<and> packet_admissible E (fc_secs ck) (fc_nanos ck) ag1 grp (in_public_key ing) (in_state_bytes ing)
              (in_signature ing) (in_intent_path ing) (st_timestamp st)))
     \<and> (status_code r \<noteq> 200 \<longrightarrow> nd' = nd\<lparr>nd_aegis := nd_aegis nd'\<rparr>)"
proof (cases "\<exists>ing st ag1 hex grp. x_ingress_access E body = Some ing \<and> x_state_access E (in_state_bytes ing) = Some st
    \<and> verify_session_lineage E (fc_secs ck) (nd_aegis nd) (in_capability_cert ing) (in_public_key ing) = (ag1, Inr (hex, grp))")
  case True
  then obtain ing st ag1 hex grp where d: "x_ingress_access E body = Some ing"
    "x_state_access E (in_state_bytes ing) = Some st"
    "verify_session_lineage E (fc_secs ck) (nd_aegis nd) (in_capability_cert ing) (in_public_key ing) = (ag1, Inr (hex, grp))"
    by blast
  obtain ag2 r2 where a: "authorize_packet_fast E (fc_secs ck) (fc_nanos ck) ag1 hex grp (in_public_key ing)
      (in_state_bytes ing) (in_signature ing) (in_intent_path ing) (st_timestamp st) = (ag2, r2)" by fastforce
  show ?thesis using assms d a authorize_split [OF a]
    by (auto simp: http_ingress_endpoint_def status_code_def split: sum.splits rust_fail.splits)
next
  case False
  then show ?thesis using assms
    by (auto simp: http_ingress_endpoint_def status_code_def split: option.splits prod.splits sum.splits rust_fail.splits)
qed

lemma demo_ingress_accepted:
  assumes "x_ingress_access demo body = Some (demo_ingress\<lparr>in_state_bytes := b, in_signature := x_ed_sign demo [2] b\<rparr>)"
    and "x_state_access demo b = Some st" and "st_timestamp st = 100"
  shows "\<exists>nd'. http_ingress_endpoint demo demo_crdt demo_clock demo_node body = (nd', Ok_Json ''Thought accepted into cascade'')"
proof -
  obtain ag2 r2 where a: "authorize_packet_fast demo 100 0 (demo_aegis []) demo_agent_hex ''g'' demo_agent_pub b
      (x_ed_sign demo [2] b) ''/a/x'' 100 = (ag2, r2)" by fastforce
  have "r2 = Inr ()" using authorize_split [OF a] demo_packet by simp
  then show ?thesis using assms a demo_lineage [of "[]"]
    by (simp add: http_ingress_endpoint_def demo_clock_def demo_node_def demo_ingress_def Let_def)
qed

lemma demo_ingress_again:
  "demo_ingress\<lparr>in_state_bytes := in_state_bytes demo_ingress,
     in_signature := x_ed_sign demo [2] (in_state_bytes demo_ingress)\<rparr> = demo_ingress"
  by (simp add: demo_ingress_def Let_def)

lemma ingress_commits_only_admissible_packets_witness:
  "packet_admissible demo 100 0 (demo_aegis []) ''g'' demo_agent_pub (in_state_bytes demo_ingress)
     (in_signature demo_ingress) ''/a/x'' 100"
proof -
  have "x_ingress_access demo (x_ingress_to demo demo_ingress) =
      Some (demo_ingress\<lparr>in_state_bytes := in_state_bytes demo_ingress,
              in_signature := x_ed_sign demo [2] (in_state_bytes demo_ingress)\<rparr>)"
    unfolding demo_ingress_again by (rule demo_frame_facts(1))
  from demo_ingress_accepted [OF this demo_frame_facts(2)] obtain nd' where
    "http_ingress_endpoint demo demo_crdt demo_clock demo_node (x_ingress_to demo demo_ingress)
       = (nd', Ok_Json ''Thought accepted into cascade'')" by (auto simp: demo_state_def)
  from ingress_commits_only_admissible_packets [OF this] demo_frame_facts(1,2) show ?thesis
    using demo_lineage [of "[]"]
    by (auto simp: status_code_def demo_clock_def demo_node_def demo_ingress_def Let_def demo_state_def)
qed

text \<open>
  The answer does not wait for the cascade: an admitted packet whose state names no agent is
  answered like any other, and nothing is committed.
\<close>

theorem accepted_is_not_committed:
  assumes "rkyv_ok E" and "http_ingress_endpoint E L ck nd body = (nd', Ok_Json msg)"
    and "x_ingress_access E body = Some ing" and "x_state_access E (in_state_bytes ing) = Some st"
    and "st_agent_id st = None \<or> st_agent_id st = Some (zeros 16)"
  shows "msg = ''Thought accepted into cascade'' \<and> nd' = nd\<lparr>nd_aegis := nd_aegis nd'\<rparr>"
proof -
  have u: "x_state_unchecked E (in_state_bytes ing) = st" using rkyv_ok_unchecked(2) [OF assms(1,4)] .
  have "\<not> (\<exists>aid. named_agent st aid)" using assms(5) by (auto simp: named_agent_def)
  from cascade_anonymous [where L = L, OF this] u assms(2-4) show ?thesis
    by (auto simp: http_ingress_endpoint_def split: prod.splits sum.splits rust_fail.splits)
qed

lemma accepted_is_not_committed_witness:
  "\<exists>nd' body. http_ingress_endpoint demo demo_crdt demo_clock demo_node body = (nd', Ok_Json ''Thought accepted into cascade'')
     \<and> nd_wal nd' = nd_wal demo_node"
proof -
  let ?st = "demo_state (zeros 16) ''/a'' ''x''"
  let ?b = "x_state_to demo ?st"
  let ?ing = "demo_ingress\<lparr>in_state_bytes := ?b, in_signature := x_ed_sign demo [2] ?b\<rparr>"
  have i: "x_ingress_access demo (x_ingress_to demo ?ing) = Some ?ing" by (simp add: demo_rkyv_ok)
  have s: "x_state_access demo (in_state_bytes ?ing) = Some ?st" by (simp add: demo_rkyv_ok)
  from demo_ingress_accepted [OF i] obtain nd' where
    a: "http_ingress_endpoint demo demo_crdt demo_clock demo_node (x_ingress_to demo ?ing)
      = (nd', Ok_Json ''Thought accepted into cascade'')" by (auto simp: demo_rkyv_ok demo_state_def)
  have z: "st_agent_id ?st = None \<or> st_agent_id ?st = Some (zeros 16)" by (simp add: demo_state_def)
  from accepted_is_not_committed [OF demo_rkyv_ok a i s z] have "nd' = demo_node\<lparr>nd_aegis := nd_aegis nd'\<rparr>" by blast
  then have "nd_wal nd' = nd_wal demo_node" by (metis node.select_convs(3) node.surjective node.update_convs(7))
  with a show ?thesis by blast
qed

section \<open>What a proof request gets\<close>

text \<open>
  The proof endpoint serves every sealed thought: the id printed as 32 hexadecimal digits is
  answered with a proof that the verifier accepts for the thought's delta and agent.
\<close>

theorem proof_endpoint_serves_every_sealed_thought:
  assumes "hash_ok E" and "hex_ok E"
    and "distinct (map ol_txid logs)" and "2 * length logs < 2 ^ 64" and "l \<in> set logs"
  shows "\<exists>p msg. get_state_proof_handler E (fst (seal_run E axon_new logs)) (fmt_032x (ol_txid l)) =
       Ok_Json \<lparr>sp_success = True, sp_proof = Some p, sp_message = msg\<rparr>
     \<and> verify_inclusion E (ol_delta l) (ol_agent_id l) p \<and> ip_tx_id_hex p = fmt_032x (ol_txid l)"
  using sealed_thoughts_provable [OF assms] by (auto simp: get_state_proof_handler_def from_str_radix16_fmt_032x)

lemma proof_endpoint_serves_every_sealed_thought_witness:
  "\<exists>p msg. get_state_proof_handler demo (fst (seal_run demo axon_new [demo_log 3 ''a'' ''z''])) (fmt_032x 3) =
       Ok_Json \<lparr>sp_success = True, sp_proof = Some p, sp_message = msg\<rparr>
     \<and> verify_inclusion demo (as_bytes ''z'') (zeros 16) p"
  using proof_endpoint_serves_every_sealed_thought [OF demo_hash_ok demo_hex_ok,
      of "[demo_log 3 ''a'' ''z'']" "demo_log 3 ''a'' ''z''"]
  by (simp add: demo_log_def) blast

section \<open>What an effect request gets back\<close>

text \<open>
  Recording an effect and asking for it with the same agent, step and signature gives the recorded
  payload and time, once the base64 text decodes to what it encodes.
\<close>

theorem recorded_effect_is_found:
  assumes "record_effect_handler E dec tx now s rq = ((index, nd'), Ok_Json (ok, tx_hex, forked))"
    and "\<And>b. dec (rq_payload_b64 rq) = Some b \<Longrightarrow> enc b = rq_payload_b64 rq"
  shows "get_effect_handler E enc index
      \<lparr>gr_agent_hex = rq_agent_hex rq, gr_step = rq_step rq, gr_signature_hex = rq_signature_hex rq\<rparr> =
      Ok_Json (Some (rq_payload_b64 rq, now))
    \<and> ok \<and> tx_hex = fmt_032x tx \<and> (forked \<longleftrightarrow> starts_with (rq_namespace rq) ''phantom_'')"
  using assms
  by (auto simp: record_effect_handler_def get_effect_handler_def get_effect_def record_effect_def effect_of_def
      Let_def split: option.splits prod.splits if_splits)

definition demo_effect_request :: record_effect_request where
  "demo_effect_request = \<lparr>rq_agent_hex = x_hex_encode demo (zeros 16), rq_step = 3,
     rq_signature_hex = x_hex_encode demo (zeros 32), rq_payload_b64 = ''p'', rq_namespace = ''phantom_a''\<rparr>"

lemma recorded_effect_is_found_witness:
  "\<exists>index nd'. record_effect_handler demo (\<lambda>_. Some [5]) 6 7 ([], demo_node) demo_effect_request =
       ((index, nd'), Ok_Json (True, fmt_032x 6, True))
     \<and> get_effect_handler demo (\<lambda>_. ''p'') index
        \<lparr>gr_agent_hex = rq_agent_hex demo_effect_request, gr_step = 3,
         gr_signature_hex = rq_signature_hex demo_effect_request\<rparr> = Ok_Json (Some (''p'', 7))"
proof -
  have "hex_array demo 16 (rq_agent_hex demo_effect_request) = Some (zeros 16)"
    "hex_array demo 32 (rq_signature_hex demo_effect_request) = Some (zeros 32)"
    using demo_hex_ok by (simp_all add: hex_array_def demo_effect_request_def)
  then have "\<exists>index nd'. record_effect_handler demo (\<lambda>_. Some [5]) 6 7 ([], demo_node) demo_effect_request =
       ((index, nd'), Ok_Json (True, fmt_032x 6, starts_with (rq_namespace demo_effect_request) ''phantom_''))"
    by (simp add: record_effect_handler_def Let_def split: prod.split)
  then obtain index nd' where
    r: "record_effect_handler demo (\<lambda>_. Some [5]) 6 7 ([], demo_node) demo_effect_request =
       ((index, nd'), Ok_Json (True, fmt_032x 6, starts_with (rq_namespace demo_effect_request) ''phantom_''))"
    by blast
  have e: "(\<lambda>_ :: bytes. ''p'') b = rq_payload_b64 demo_effect_request" for b by (simp add: demo_effect_request_def)
  from recorded_effect_is_found [where enc = "\<lambda>_. ''p''", OF r e] r show ?thesis
    by (auto simp: demo_effect_request_def)
qed

section \<open>What the quarantine desk does\<close>

lemma is_quarantined_lift: "is_quarantined (lift_quarantine ag h) a \<longleftrightarrow> is_quarantined ag a \<and> a \<noteq> h"
  by (simp add: is_quarantined_def lift_quarantine_def delete_conv')

lemma lift_policies: "ag_policies (lift_quarantine ag h) = ag_policies ag"
  by (simp add: lift_quarantine_def)

lemma boot_keeps_aegis: "nd_aegis (fst (boot_historical_agent LA E L master allowed env le nd hex target fork isolated)) = nd_aegis nd"
  by (auto simp: boot_historical_agent_def Let_def split: sum.splits prod.splits)

text \<open>
  A request for a fork only lifts the quarantine. It never answers 200, since the isolated boot
  behind it fails; but an agent that was in quarantine is out of it afterwards, and nothing else of
  the node has changed.
\<close>

theorem fork_request_only_lifts_the_quarantine:
  assumes "time_travel_endpoint LA E L master allowed env le nd hex target fork = (nd', r)"
  shows "status_code r \<noteq> 200
     \<and> nd' = (if is_quarantined (nd_aegis nd) hex then nd\<lparr>nd_aegis := lift_quarantine (nd_aegis nd) hex\<rparr> else nd)
     \<and> \<not> is_quarantined (nd_aegis nd') hex"
proof (cases "is_quarantined (nd_aegis nd) hex")
  case True
  let ?nd = "nd\<lparr>nd_aegis := lift_quarantine (nd_aegis nd) hex\<rparr>"
  obtain nd2 b where b: "boot_historical_agent LA E L master allowed env le ?nd hex (Some target) (Some fork) True = (nd2, b)"
    by fastforce
  have "\<not> is_ok b" "nd2 = ?nd"
    using fork_never_boots [of LA E L master allowed env le ?nd hex "Some target" "Some fork"] b by simp_all
  then show ?thesis using assms True b
    by (auto simp: time_travel_endpoint_def or_fail_def status_code_def is_quarantined_lift is_ok_def
        split: sum.splits rust_fail.splits)
qed (use assms in \<open>auto simp: time_travel_endpoint_def status_code_def\<close>)

definition demo_jailed :: "(string \<times> crdt_entry list) list node" where
  "demo_jailed = demo_node\<lparr>nd_aegis := trigger_quarantine 5 (demo_aegis []) ''0a'' ''/b'' ''CRYPTO_SPOOF'' ''r''\<rparr>"

lemma demo_jailed_quarantined: "is_quarantined (nd_aegis demo_jailed) ''0a''"
  by (simp add: demo_jailed_def trigger_quarantine_def is_quarantined_def Let_def)

lemma fork_request_only_lifts_the_quarantine_witness:
  "is_quarantined (nd_aegis demo_jailed) ''0a''
   \<and> \<not> is_quarantined (nd_aegis (fst (time_travel_endpoint (demo_lance False) demo demo_crdt [1] True demo_env demo_engine
        demo_jailed ''0a'' 5 \<lparr>fk_override_seed = None, fk_inject_network = None, fk_env_overrides = [], fk_config_overrides = []\<rparr>))) ''0a''"
proof -
  let ?f = "\<lparr>fk_override_seed = None, fk_inject_network = None, fk_env_overrides = [], fk_config_overrides = []\<rparr>"
  obtain nd' r where t: "time_travel_endpoint (demo_lance False) demo demo_crdt [1] True demo_env demo_engine
      demo_jailed ''0a'' 5 ?f = (nd', r)" by fastforce
  from fork_request_only_lifts_the_quarantine [OF t] have "\<not> is_quarantined (nd_aegis nd') ''0a''" by blast
  then show ?thesis using t demo_jailed_quarantined by simp
qed

text \<open>
  Lifting a quarantine takes exactly one agent off the list, and only a listed one is resurrected;
  the override is dispatched in any case, and a resurrection that fails leaves the quarantine lifted.
\<close>

theorem lifting_releases_exactly_one_agent:
  assumes "lift_qurantine_and_resurrect LA E L master allowed env cj True le nd hex prompt = (nd', r)"
  shows "(\<forall>a. is_quarantined (nd_aegis nd') a \<longleftrightarrow> is_quarantined (nd_aegis nd) a \<and> a \<noteq> hex)
     \<and> (is_quarantined (nd_aegis nd) hex \<or> status_code r = 404)
     \<and> ag_policies (nd_aegis nd') = ag_policies (nd_aegis nd)
     \<and> nb_puts (nd_net nd') = nb_puts (nd_net nd) @
         [(nb_prefix (nd_net nd) @ ''control/'' @ hex, as_bytes (cj prompt (be_now env)))]"
proof (cases "is_quarantined (nd_aegis nd) hex")
  case True
  let ?nd1 = "nd\<lparr>nd_net := dispatch_control_override cj (be_now env) True (nd_net nd) hex prompt\<rparr>"
  let ?nd = "?nd1\<lparr>nd_aegis := lift_quarantine (nd_aegis ?nd1) hex,
       nd_procs := touch_agent (be_now env) (nd_procs ?nd1) hex ''Unknown'' ''Rebooting'' ''Unknown''\<rparr>"
  have n: "nd_net (fst (boot_historical_agent LA E L master allowed env le ?nd hex None None False)) = nd_net ?nd"
    by (auto simp: boot_historical_agent_def Let_def split: sum.splits prod.splits)
  have g: "nd_aegis (fst (boot_historical_agent LA E L master allowed env le ?nd hex None None False)) = nd_aegis ?nd"
    by (rule boot_keeps_aegis)
  have "nd' = fst (boot_historical_agent LA E L master allowed env le ?nd hex None None False)"
    using assms True by (auto simp: lift_qurantine_and_resurrect_def Let_def split: prod.splits)
  then have "nd_net nd' = nd_net ?nd" "nd_aegis nd' = nd_aegis ?nd" using n g by simp_all
  then show ?thesis using True
    by (auto simp: is_quarantined_lift dispatch_control_override_def lift_policies)
next
  case False
  then show ?thesis using assms
    by (auto simp: lift_qurantine_and_resurrect_def dispatch_control_override_def status_code_def Let_def)
qed

lemma lifting_releases_exactly_one_agent_witness:
  "is_quarantined (nd_aegis demo_jailed) ''0a''
   \<and> \<not> is_quarantined (nd_aegis (fst (lift_qurantine_and_resurrect (demo_lance False) demo demo_crdt [1] True demo_env
        (\<lambda>p t. p) True demo_engine demo_jailed ''0a'' ''wake''))) ''0a''"
proof -
  obtain nd' r where t: "lift_qurantine_and_resurrect (demo_lance False) demo demo_crdt [1] True demo_env
      (\<lambda>p t. p) True demo_engine demo_jailed ''0a'' ''wake'' = (nd', r)" by fastforce
  from lifting_releases_exactly_one_agent [OF t] have "\<not> is_quarantined (nd_aegis nd') ''0a''" by blast
  then show ?thesis using t demo_jailed_quarantined by simp
qed

section \<open>What the vault search returns\<close>

text \<open>
  The vault search answers with hot memory only. Whenever it answers 200, the results are at most
  fifty matches of the lexical scan in descending score: nothing of a history table is among them,
  since the semantic half either fails, is empty or panics.
\<close>

theorem vault_search_returns_hot_matches_only:
  assumes "lance_ok L" and "la_schema L (le_db le) (le_history_table le) = Some (history_schema d)"
    and "weak_order_on (UNIV :: vault_search_result set) (\<lambda>a b. f_less F (vs_similarity_score a) (vs_similarity_score b))"
    and "unified_vault_search L E F similarity is_match le file query namespace include_wal = Ok_Json rs"
  shows "list_all (hit_ok is_match namespace) rs \<and> length rs \<le> 50
     \<and> sorted_wrt (\<lambda>a b. \<not> f_less F (vs_similarity_score a) (vs_similarity_score b)) rs"
proof -
  let ?lt = "\<lambda>a b. f_less F (vs_similarity_score a) (vs_similarity_score b)"
  from assms(4) obtain cold hot where
    c: "or_default [] (semantic_search L similarity le query namespace 50) = Inr cold"
    and h: "(if include_wal = None \<or> include_wal = Some True
             then or_default [] (lexical_scan E is_match namespace 50 file) else Inr []) = Inr hot"
    and rs: "rs = take 100 (sort_desc ?lt (hot @ cold))"
    by (auto simp: unified_vault_search_def plain_def or_fail_def and_then_Inr split: sum.splits rust_fail.splits)
  have "cold = []" using or_default_Inr [OF c] cold_search_empty [OF assms(1,2)] by blast
  moreover have "lexical_scan E is_match namespace 50 file = Inr hot \<or> hot = []"
    using h or_default_Inr [of "[]" "lexical_scan E is_match namespace 50 file" hot] by (auto split: if_splits)
  then have hot: "length hot \<le> 50 \<and> list_all (hit_ok is_match namespace) hot"
    using lexical_scan_is_bounded_and_filtered by fastforce
  ultimately have r: "rs = sort_desc ?lt hot" using rs by simp
  have "weak_order_on (set hot) ?lt" by (rule weak_order_subset [OF assms(3)]) simp
  from sort_desc_sorted [OF this] hot r show ?thesis by (simp add: list_all_iff)
qed

definition demo_down :: "(string \<times> record_batch list) list lance" where
  "demo_down = (demo_lance False)\<lparr>la_query := \<lambda>_ _ _. None\<rparr>"

lemma demo_down_facts: "lance_ok demo_down" "la_schema demo_down = la_schema (demo_lance False)"
  using demo_lance_ok [of False] unfolding lance_ok_def demo_down_def by simp_all

lemma vault_search_returns_hot_matches_only_witness:
  "\<exists>rs. unified_vault_search demo_down demo demo_floats id (\<lambda>_. True) demo_engine (Some []) ''q'' None None = Ok_Json rs
     \<and> length rs \<le> 50"
proof -
  have s: "semantic_search demo_down id demo_engine ''q'' None 50 = Inl (Err ''lance error'')"
    by (simp add: semantic_search_def demo_engine_def lance_engine_new_def mock_provider_def open_table_def
        execute_query_def demo_down_def demo_lance_def)
  have l: "lexical_scan demo (\<lambda>_. True) None 50 (Some []) = Inr []"
    by (simp add: lexical_scan_def lexical_loop.simps)
  have u: "unified_vault_search demo_down demo demo_floats id (\<lambda>_. True) demo_engine (Some []) ''q'' None None = Ok_Json []"
    unfolding unified_vault_search_def s l by (simp add: plain_def or_fail_def or_default_def)
  have d: "la_schema demo_down (le_db demo_engine) (le_history_table demo_engine) = Some (history_schema 2)"
    unfolding demo_down_facts(2) by (rule demo_engine_schemas(1))
  from vault_search_returns_hot_matches_only [OF demo_down_facts(1) d demo_weak_order u] u show ?thesis by blast
qed

section \<open>Where an upload goes\<close>

lemma strip_any_chars: "strip_any ps s = Some t \<Longrightarrow> x \<in> set s \<Longrightarrow> x \<in> set t \<or> (\<exists>p \<in> set ps. x \<in> set p)"
  by (induction ps) (auto split: if_splits simp: starts_with_iff)

lemma trim_start_chars: "x \<in> set s \<Longrightarrow> x \<in> set (trim_start_matches ps s) \<or> (\<exists>p \<in> set ps. x \<in> set p)"
proof (induction ps s rule: trim_start_matches.induct)
  case (1 ps s)
  show ?case
  proof (cases "strip_any ps s")
    case None
    then show ?thesis using 1(2) by (simp add: trim_start_matches.simps [of ps s])
  next
    case (Some t)
    then show ?thesis using 1(1) [OF Some] strip_any_chars [OF Some 1(2)]
      by (auto simp: trim_start_matches.simps [of ps s])
  qed
qed

lemma trim_end_chars: "x \<in> set s \<Longrightarrow> x \<in> set (trim_end_matches ps s) \<or> (\<exists>p \<in> set ps. x \<in> set p)"
  using trim_start_chars [of x "rev s" "map rev ps"] by (auto simp: trim_end_matches_def)

lemma str_trim_chars: "x \<in> set s \<Longrightarrow> x \<in> set (str_trim s) \<or> (\<exists>p \<in> set white_space. x \<in> set p)"
  using trim_start_chars trim_end_chars unfolding str_trim_def by blast

lemma no_slash: "\<not> (\<exists>p \<in> set white_space. CHR ''/'' \<in> set p)" "hexval (CHR ''/'') = None"
  by (code_simp, code_simp)

lemma agent_id_has_no_slash:
  assumes "hex_strict E" and "parse_agent_id (x_hex_decode E) s = Inr aid"
  shows "CHR ''/'' \<notin> set s"
proof
  assume s: "CHR ''/'' \<in> set s"
  let ?h = "trim_start_matches [''0x''] (str_trim s)"
  have "CHR ''/'' \<in> set ?h"
    using trim_start_chars [of "CHR ''/''" "str_trim s" "[''0x'']"] str_trim_chars [OF s] no_slash(1) by auto
  moreover have "\<exists>b. x_hex_decode E ?h = Some b"
    using assms(2) by (auto simp: parse_agent_id_def Let_def split: if_splits option.splits)
  ultimately show False using assms(1) no_slash(2) unfolding hex_strict_def by blast
qed


definition demo_upload :: upload_field where
  "demo_upload = \<lparr>uf_file_name = Some (replicate 32 (CHR ''0'') @ ''.wasm''), uf_chunks = [], uf_create_ok = True,
     uf_writes_ok = []\<rparr>"

lemma demo_upload_name:
  "is_ok (parse_agent_id (x_hex_decode demo) (trim_end_matches [''.wasm''] (replicate 32 (CHR ''0'') @ ''.wasm'')))"
proof -
  have t: "trim_end_matches [''.wasm''] (replicate 32 (CHR ''0'') @ ''.wasm'') = replicate 32 (CHR ''0'')" by code_simp
  have s: "trim_start_matches [''0x''] (str_trim (replicate 32 (CHR ''0''))) = replicate 32 (CHR ''0'')" by code_simp
  have d: "demo_hex_decode (replicate 32 (CHR ''0'')) = Some (replicate 16 0)" by code_simp
  show ?thesis unfolding t parse_agent_id_def s Let_def by (simp add: d demo_def)
qed


end
