(* ===== verification/Control_Plane.thy ===== *)
theory Control_Plane
  imports Rest_Api
begin

text \<open>
  The outside of the REST interface of src/raqim-core/src/api.rs: the route table, the identity
  extractor, the typed reading of JSON bodies, the topology endpoint and the event streams. A
  JSON value is a tree whose numbers are integers, which is all the requests of the repository
  hold; a request is a method, a path and a body, and its fate is what the router and the
  extractors make of it before a handler runs.
\<close>

section \<open>JSON values and their typed reading\<close>

datatype json =
    J_Null
  | J_Bool bool
  | J_Number int
  | J_String string
  | J_Array "json list"
  | J_Object "(string \<times> json) list"

fun json_string :: "json \<Rightarrow> string option" where
  "json_string (J_String s) = Some s"
| "json_string _ = None"

fun json_object :: "json \<Rightarrow> (string \<times> json) list option" where
  "json_object (J_Object kvs) = Some kvs"
| "json_object _ = None"

fun json_u64 :: "json \<Rightarrow> u64 option" where
  "json_u64 (J_Number i) = (if 0 \<le> i \<and> i < 2 ^ 64 then Some (word_of_int i) else None)"
| "json_u64 _ = None"

fun json_u128 :: "json \<Rightarrow> u128 option" where
  "json_u128 (J_Number i) = (if 0 \<le> i \<and> i < 2 ^ 128 then Some (word_of_int i) else None)"
| "json_u128 _ = None"

text \<open>
  A field of a derived \<open>Deserialize\<close>: required, or an \<open>Option\<close>, which may be missing or null.
  Keys the struct does not have are ignored.
\<close>

definition field :: "(json \<Rightarrow> 'a option) \<Rightarrow> (string \<times> json) list \<Rightarrow> string \<Rightarrow> 'a option" where
  "field rd kvs key = (case map_of kvs key of None \<Rightarrow> None | Some v \<Rightarrow> rd v)"

definition opt_field :: "(json \<Rightarrow> 'a option) \<Rightarrow> (string \<times> json) list \<Rightarrow> string \<Rightarrow> 'a option option" where
  "opt_field rd kvs key =
     (case map_of kvs key of None \<Rightarrow> Some None | Some J_Null \<Rightarrow> Some None | Some v \<Rightarrow> map_option Some (rd v))"

fun string_entries :: "(string \<times> json) list \<Rightarrow> (string \<times> string) list option" where
  "string_entries [] = Some []"
| "string_entries ((k, v) # kvs) =
     (case (json_string v, string_entries kvs) of (Some s, Some r) \<Rightarrow> Some ((k, s) # r) | _ \<Rightarrow> None)"

definition json_string_map :: "json \<Rightarrow> (string \<times> string) list option" where
  "json_string_map v = Option.bind (json_object v) string_entries"

definition read_fork_config :: "json \<Rightarrow> fork_config option" where
  "read_fork_config v = Option.bind (json_object v) (\<lambda>kvs.
     (case (opt_field json_u64 kvs ''override_seed'', opt_field json_string kvs ''inject_network'',
            field json_string_map kvs ''env_overrides'', field json_string_map kvs ''config_overrides'') of
        (Some seed, Some network, Some envs, Some cfgs) \<Rightarrow>
          Some \<lparr>fk_override_seed = seed, fk_inject_network = network, fk_env_overrides = envs,
                fk_config_overrides = cfgs\<rparr>
      | _ \<Rightarrow> None))"

definition read_time_travel :: "json \<Rightarrow> (string \<times> u128 \<times> fork_config) option" where
  "read_time_travel v = Option.bind (json_object v) (\<lambda>kvs.
     (case (field json_string kvs ''agent_hex'', field json_u128 kvs ''target_tx_id'',
            field read_fork_config kvs ''fork_config'') of
        (Some hex, Some tx, Some fork) \<Rightarrow> Some (hex, tx, fork)
      | _ \<Rightarrow> None))"

definition read_resurrect :: "json \<Rightarrow> (string \<times> string) option" where
  "read_resurrect v = Option.bind (json_object v) (\<lambda>kvs.
     (case (field json_string kvs ''agent_hex'', field json_string kvs ''system_prompt_override'') of
        (Some hex, Some prompt) \<Rightarrow> Some (hex, prompt)
      | _ \<Rightarrow> None))"

definition read_mint :: "json \<Rightarrow> (string \<times> string) option" where
  "read_mint v = Option.bind (json_object v) (\<lambda>kvs.
     (case (field json_string kvs ''agent_hex'', field json_string kvs ''group'') of
        (Some hex, Some grp) \<Rightarrow> Some (hex, grp)
      | _ \<Rightarrow> None))"

definition read_record_effect :: "json \<Rightarrow> record_effect_request option" where
  "read_record_effect v = Option.bind (json_object v) (\<lambda>kvs.
     (case (field json_string kvs ''agent_hex'', field json_u64 kvs ''step_ordinal'',
            field json_string kvs ''call_signature_hex'', field json_string kvs ''output_payload_base64'',
            field json_string kvs ''namespace'') of
        (Some hex, Some step, Some sig, Some payload, Some ns) \<Rightarrow>
          Some \<lparr>rq_agent_hex = hex, rq_step = step, rq_signature_hex = sig, rq_payload_b64 = payload,
                rq_namespace = ns\<rparr>
      | _ \<Rightarrow> None))"

definition read_get_effect :: "json \<Rightarrow> get_effect_request option" where
  "read_get_effect v = Option.bind (json_object v) (\<lambda>kvs.
     (case (field json_string kvs ''agent_hex'', field json_u64 kvs ''step_ordinal'',
            field json_string kvs ''call_signature_hex'') of
        (Some hex, Some step, Some sig) \<Rightarrow>
          Some \<lparr>gr_agent_hex = hex, gr_step = step, gr_signature_hex = sig\<rparr>
      | _ \<Rightarrow> None))"

section \<open>The route table\<close>

datatype http_method = GET | POST

datatype endpoint =
    State_Proof | Record_Effect | Get_Effect | Quarantine_List | Lift_Quarantine | Aegis_Metrics | Ca_Mint
  | Time_Travel | Timeline string | Cluster_Info | Cluster_Topology | Dashboard_Cards | Boot_Agent
  | Sse_Health | Sse_Firehose | Sse_Phantom | Agent_Aliases | Mcp_Ws | Swarm_Ingress | Swarm_Memory
  | Vault_Search | Vault_Telemetry

definition routes :: "(string \<times> http_method \<times> endpoint) list" where
  "routes =
     [(''/v1/state/proof'', GET, State_Proof),
      (''/v1/effect/record'', POST, Record_Effect),
      (''/v1/effect/get'', POST, Get_Effect),
      (''/v1/aegis/quarantine_list'', GET, Quarantine_List),
      (''/v1/admin/quarantine/lift'', POST, Lift_Quarantine),
      (''/v1/aegis/metrics'', GET, Aegis_Metrics),
      (''/v1/admin/ca/mint'', POST, Ca_Mint),
      (''/v1/admin/time_travel'', POST, Time_Travel),
      (''/v1/time_travel/fork'', POST, Time_Travel),
      (''/v1/admin/time_travel/fork'', POST, Time_Travel),
      (''/v1/admin/cluster/info'', GET, Cluster_Info),
      (''/v1/admin/cluster/topology'', GET, Cluster_Topology),
      (''/v1/dashboard/cards'', GET, Dashboard_Cards),
      (''/v1/system/boot_agent'', POST, Boot_Agent),
      (''/v1/system/health/live'', GET, Sse_Health),
      (''/v1/system/firehose'', GET, Sse_Firehose),
      (''/v1/time-travel/stream'', GET, Sse_Phantom),
      (''/v1/system/agents/aliases'', GET, Agent_Aliases),
      (''/v1/mcp/ws'', GET, Mcp_Ws),
      (''/v1/swarm/ingress'', POST, Swarm_Ingress),
      (''/v1/swarm/memory'', GET, Swarm_Memory),
      (''/v1/vault/search'', GET, Vault_Search),
      (''/v1/vault/telemetry'', GET, Vault_Telemetry)]"

text \<open>The one route with a parameter takes a single non-empty segment.\<close>

definition timeline_prefix :: string where
  "timeline_prefix = ''/v1/admin/time_travel/timeline/''"

definition find_route :: "string \<Rightarrow> (http_method \<times> endpoint) option" where
  "find_route path =
     (case map_of routes path of
        Some r \<Rightarrow> Some r
      | None \<Rightarrow>
          (let hex = drop (length timeline_prefix) path in
           if starts_with path timeline_prefix \<and> hex \<noteq> [] \<and> CHR ''/'' \<notin> set hex
           then Some (GET, Timeline hex) else None))"

section \<open>Extractors\<close>

record enterprise_claim =
  ec_sub :: string
  ec_features :: "string list"
  ec_exp :: u64

text \<open>The extractor does not look at the request: every caller gets the standalone identity.\<close>

definition validated_identity :: "(string \<times> string) list \<Rightarrow> enterprise_claim res" where
  "validated_identity headers =
     Inr \<lparr>ec_sub = ''local_standalone'',
          ec_features = [''global_crdt'', ''global_a2a'', ''global_aegis'', ''time_travel'', ''aegis''],
          ec_exp = - 1\<rparr>"

text \<open>The endpoints that read a JSON body accept it only when it decodes to their request.\<close>

definition body_accepted :: "endpoint \<Rightarrow> json option \<Rightarrow> bool" where
  "body_accepted e body =
     (let reads = (\<lambda>ok. case body of None \<Rightarrow> False | Some v \<Rightarrow> ok v) in
      case e of
        Record_Effect \<Rightarrow> reads (\<lambda>v. read_record_effect v \<noteq> None)
      | Get_Effect \<Rightarrow> reads (\<lambda>v. read_get_effect v \<noteq> None)
      | Lift_Quarantine \<Rightarrow> reads (\<lambda>v. read_resurrect v \<noteq> None)
      | Ca_Mint \<Rightarrow> reads (\<lambda>v. read_mint v \<noteq> None)
      | Time_Travel \<Rightarrow> reads (\<lambda>v. read_time_travel v \<noteq> None)
      | _ \<Rightarrow> True)"

datatype fate = No_Route | Wrong_Method | Unprocessable | Reaches endpoint

definition request_fate :: "http_method \<Rightarrow> string \<Rightarrow> (string \<times> string) list \<Rightarrow> json option \<Rightarrow> fate" where
  "request_fate m path headers body =
     (case find_route path of
        None \<Rightarrow> No_Route
      | Some (m', e) \<Rightarrow>
          if m \<noteq> m' then Wrong_Method
          else if \<not> is_ok (validated_identity headers) then Unprocessable
          else if body_accepted e body then Reaches e
          else Unprocessable)"

fun fate_status :: "fate \<Rightarrow> nat option" where
  "fate_status No_Route = Some 404"
| "fate_status Wrong_Method = Some 405"
| "fate_status Unprocessable = Some 422"
| "fate_status (Reaches e) = None"

section \<open>Topology and streams\<close>

text \<open>
  One entry per shard: its namespace, the size of its root map and of its operation log, both
  read off the document.
\<close>

definition cluster_topology_endpoint ::
  "('d \<Rightarrow> nat) \<Rightarrow> ('d \<Rightarrow> nat) \<Rightarrow> 'd shard_registry \<Rightarrow> (string \<times> nat \<times> nat) list" where
  "cluster_topology_endpoint timelines len_ops rg =
     map (\<lambda>(ns, sh). (ns, timelines (sh_doc sh), len_ops (sh_doc sh))) (rg_shards rg)"

text \<open>A broadcast stream: \<open>None\<close> is a lagged receiver; what does not serialise is skipped.\<close>

definition sse_stream :: "('e \<Rightarrow> string option) \<Rightarrow> 'e option list \<Rightarrow> string list" where
  "sse_stream to_json msgs = List.map_filter (\<lambda>msg. Option.bind msg to_json) msgs"

definition sse_firehose_endpoint :: "(ui_event \<Rightarrow> string option) \<Rightarrow> ui_event option list \<Rightarrow> string list" where
  "sse_firehose_endpoint to_json msgs = sse_stream to_json msgs"

definition sse_phantom_endpoint :: "(ui_event \<Rightarrow> string option) \<Rightarrow> ui_event option list \<Rightarrow> string list" where
  "sse_phantom_endpoint to_json msgs = sse_stream to_json msgs"

definition sse_health_endpoint :: "('h \<Rightarrow> string option) \<Rightarrow> 'h option list \<Rightarrow> string list" where
  "sse_health_endpoint to_json msgs = sse_stream to_json msgs"

text \<open>A dashboard that keeps up sees every event once and in order; lag loses events silently.\<close>

lemma sse_stream_complete:
  "(\<And>e. to_json e = Some (f e)) \<Longrightarrow> sse_stream to_json msgs = map f (List.map_filter id msgs)"
  by (induction msgs) (auto simp: sse_stream_def List.map_filter_simps split: option.split)

section \<open>What the routing guarantees\<close>

lemma routes_distinct: "distinct (map fst routes)"
  by (simp add: routes_def)

text \<open>
  Nobody is asked who they are: the fate of a request does not depend on its headers, so every
  administrative endpoint is reached without a licence key.
\<close>

theorem no_request_is_authenticated:
  "request_fate m path headers body = request_fate m path [] body"
  by (simp add: request_fate_def validated_identity_def split: option.split)

text \<open>
  The two registrations of the same path prefix do not shadow each other: the timeline of an
  agent is reached by GET for every single segment, and a longer path has no route.
\<close>

theorem timeline_route:
  assumes "hex \<noteq> []"
  shows "request_fate GET (timeline_prefix @ hex) headers body
     = (if CHR ''/'' \<in> set hex then No_Route else Reaches (Timeline hex))"
proof -
  have "map_of routes (timeline_prefix @ hex) = None"
    by (simp add: routes_def timeline_prefix_def)
  then show ?thesis
    using assms by (simp add: request_fate_def find_route_def validated_identity_def body_accepted_def Let_def)
qed

end
