(* ===== verification/Ws_Broker.thy ===== *)
theory Ws_Broker
  imports Cascade
begin

text \<open>
  The WebSocket broker of src/raqim-core/src/api.rs: the messages between the daemon and a Python
  client, the questions a client asks the swarm, and the questions of the swarm that wait for the
  client's reply. A connection is its table of pending requests, the handlers that wait, the
  one-shot channels that were filled, and what was sent down. The JSON text of a message is the
  message; the mesh and the clock are parameters.
\<close>

section \<open>Messages and the connection\<close>

datatype ws_message =
    Register_Capability string
  | Ask_Question string string bytes string string bytes string
  | Incoming_Question string string bytes
  | Reply_To_Question string bytes string
  | Question_Answered string bytes
  | Ws_Error string

text \<open>
  \<open>br_pending\<close> maps a request id to the handler that waits for it, \<open>br_waiting\<close> a waiting
  handler to its request id; handlers are numbered. \<open>br_answers\<close> is what the handlers returned.
\<close>

record broker =
  br_pending :: "(string \<times> nat) list"
  br_waiting :: "(nat \<times> string) list"
  br_sent :: "(nat \<times> bytes) list"
  br_down :: "ws_message list"
  br_answers :: "(nat \<times> bytes) list"
  br_next :: nat

definition broker_new :: broker where
  "broker_new = \<lparr>br_pending = [], br_waiting = [], br_sent = [], br_down = [], br_answers = [], br_next = 0\<rparr>"

section \<open>Questions of the swarm\<close>

text \<open>A handler of a registered capability starts: it is stored under a new id and sent down.\<close>

definition incoming_question :: "string \<Rightarrow> bytes \<Rightarrow> string \<Rightarrow> broker \<Rightarrow> broker" where
  "incoming_question capability question request_id b =
     b\<lparr>br_pending := AList.update request_id (br_next b) (br_pending b),
       br_waiting := (br_next b, request_id) # br_waiting b,
       br_down := br_down b @ [Incoming_Question request_id capability question],
       br_next := br_next b + 1\<rparr>"

text \<open>The client's reply: the pipe is removed and fired; sending to a handler that is gone fails.\<close>

definition reply_to_question :: "string \<Rightarrow> bytes \<Rightarrow> broker \<Rightarrow> broker" where
  "reply_to_question request_id answer b =
     (case map_of (br_pending b) request_id of
        None \<Rightarrow> b
      | Some n \<Rightarrow>
          b\<lparr>br_pending := AList.delete request_id (br_pending b),
            br_sent := (if map_of (br_waiting b) n = None then br_sent b else (n, answer) # br_sent b)\<rparr>)"

text \<open>The handler gets the answer, or gives up after fifteen seconds and cleans up.\<close>

definition wake_handler :: "nat \<Rightarrow> bytes \<Rightarrow> broker \<Rightarrow> broker" where
  "wake_handler n answer b =
     b\<lparr>br_waiting := AList.delete n (br_waiting b), br_sent := AList.delete n (br_sent b),
       br_answers := (n, answer) # br_answers b\<rparr>"

definition timeout_answer :: bytes where
  "timeout_answer = as_bytes ''A2A_TIMEOUT_OR_CRASH''"

definition expire_handler :: "nat \<Rightarrow> string \<Rightarrow> broker \<Rightarrow> broker" where
  "expire_handler n request_id b =
     b\<lparr>br_waiting := AList.delete n (br_waiting b), br_pending := AList.delete request_id (br_pending b),
       br_answers := (n, timeout_answer) # br_answers b\<rparr>"

text \<open>
  The interleavings of the handlers and the client. The handler waits in
  \<open>Handle::current().block_on\<close>; \<open>can_block\<close> says whether the runtime lets it. Where it does not
  (tokio panics when a thread that drives asynchronous tasks is blocked), the handler ends in a
  panic after it has stored its pipe. A request id is a fresh UUID.
\<close>

inductive broker_step :: "bool \<Rightarrow> broker \<Rightarrow> broker \<Rightarrow> bool" for can_block where
  Question: "request_id \<notin> fst ` set (br_pending b) \<Longrightarrow> request_id \<notin> snd ` set (br_waiting b) \<Longrightarrow>
    broker_step can_block b (incoming_question capability question request_id b)"
| Reply: "broker_step can_block b (reply_to_question request_id answer b)"
| Wake: "can_block \<Longrightarrow> map_of (br_sent b) n = Some answer \<Longrightarrow> broker_step can_block b (wake_handler n answer b)"
| Expire: "can_block \<Longrightarrow> map_of (br_waiting b) n = Some request_id \<Longrightarrow> map_of (br_sent b) n = None \<Longrightarrow>
    broker_step can_block b (expire_handler n request_id b)"
| Crash: "\<not> can_block \<Longrightarrow> n \<in> fst ` set (br_waiting b) \<Longrightarrow>
    broker_step can_block b (b\<lparr>br_waiting := AList.delete n (br_waiting b)\<rparr>)"

inductive_cases broker_stepE: "broker_step can_block b b'"

inductive broker_reachable :: "bool \<Rightarrow> broker \<Rightarrow> bool" for can_block where
  Start: "broker_reachable can_block broker_new"
| Step: "broker_reachable can_block b \<Longrightarrow> broker_step can_block b b' \<Longrightarrow> broker_reachable can_block b'"

section \<open>Questions of the client\<close>

text \<open>\<open>hex::decode\<close> into an array that stays zero when the length is wrong.\<close>

definition hex_or_zeros :: "ext \<Rightarrow> nat \<Rightarrow> string \<Rightarrow> bytes" where
  "hex_or_zeros E n s =
     (case x_hex_decode E s of None \<Rightarrow> zeros n | Some b \<Rightarrow> if length b = n then b else zeros n)"

text \<open>
  \<open>AskQuestion\<close>: the lineage and the packet are checked here and once more inside the call. What
  is sent down to the client is a list, empty when the certificate is not hexadecimal.
\<close>

definition ask_question ::
  "ext \<Rightarrow> (bytes \<Rightarrow> (string option \<times> string option) option) \<Rightarrow> (bytes \<Rightarrow> string) \<Rightarrow> u64 \<Rightarrow> u64 \<Rightarrow> u32
   \<Rightarrow> (string \<Rightarrow> query_target \<Rightarrow> bytes \<Rightarrow> a2a_reply) \<Rightarrow> 'd node
   \<Rightarrow> string \<Rightarrow> string \<Rightarrow> bytes \<Rightarrow> string \<Rightarrow> string \<Rightarrow> bytes \<Rightarrow> string \<Rightarrow> 'd node \<times> ws_message list res" where
  "ask_question E parse lossy secs nanos latency mesh nd request_id capability question sender_hex public_key
     signature capability_cert =
     (case x_hex_decode E capability_cert of
        None \<Rightarrow> (nd, Inr [])
      | Some cert_bytes \<Rightarrow>
          (let public_key_bytes = hex_or_zeros E 32 public_key;
               sig_bytes = (if length signature = 64 then signature else zeros 64)
           in case verify_session_lineage E secs (nd_aegis nd) cert_bytes public_key_bytes of
                (ag1, Inl (Panic p)) \<Rightarrow> (nd\<lparr>nd_aegis := ag1\<rparr>, Inl (Panic p))
              | (ag1, Inl (Err e)) \<Rightarrow> (nd\<lparr>nd_aegis := ag1\<rparr>, Inr [Ws_Error (''[AEGIS LINEAGE FAILURE]: '' @ e)])
              | (ag1, Inr (agent_hex, group_name)) \<Rightarrow>
                  (case authorize_packet_fast E secs nanos ag1 agent_hex group_name public_key_bytes question
                          sig_bytes capability secs of
                     (ag2, Inl (Panic p)) \<Rightarrow> (nd\<lparr>nd_aegis := ag2\<rparr>, Inl (Panic p))
                   | (ag2, Inl (Err e)) \<Rightarrow> (nd\<lparr>nd_aegis := ag2\<rparr>, Inr [Ws_Error (''[AEGIS Gate block] '' @ e @ ''  '')])
                   | (ag2, Inr _) \<Rightarrow>
                       (case execute_a2a_rpc E parse secs nanos (nd_net nd) ag2
                               \<lparr>a2a_sender_id = hex_or_zeros E 16 sender_hex, a2a_sender_public_key = public_key_bytes,
                                a2a_target_capability = capability, a2a_payload = question, a2a_signature = sig_bytes,
                                a2a_sender_capability_cert = cert_bytes, a2a_timestamp = secs\<rparr> mesh of
                          (ag3, Inl (Panic p)) \<Rightarrow> (nd\<lparr>nd_aegis := ag3\<rparr>, Inl (Panic p))
                        | (ag3, Inl (Err e)) \<Rightarrow> (nd\<lparr>nd_aegis := ag3\<rparr>, Inr [Ws_Error e])
                        | (ag3, Inr (answer, responder_hex)) \<Rightarrow>
                            (nd\<lparr>nd_aegis := ag3,
                                nd_ui := nd_ui nd @ [UiA2aMessageRouted sender_hex responder_hex capability
                                           (lossy question) (lossy answer) latency]\<rparr>,
                             Inr [Question_Answered request_id answer])))))"

text \<open>
  \<open>process_ws_message\<close>. Registering spawns the mesh listener, whose queries are the
  \<open>Question\<close> steps; the messages that only the daemon sends are ignored.
\<close>

definition process_ws_message ::
  "ext \<Rightarrow> (bytes \<Rightarrow> (string option \<times> string option) option) \<Rightarrow> (bytes \<Rightarrow> string) \<Rightarrow> u64 \<Rightarrow> u64 \<Rightarrow> u32
   \<Rightarrow> (string \<Rightarrow> query_target \<Rightarrow> bytes \<Rightarrow> a2a_reply) \<Rightarrow> string list \<times> broker \<times> 'd node \<Rightarrow> ws_message
   \<Rightarrow> string list \<times> broker \<times> 'd node" where
  "process_ws_message E parse lossy secs nanos latency mesh s msg =
     (let (caps, b, nd) = s in
      case msg of
        Register_Capability capability \<Rightarrow> (caps @ [capability], b, nd)
      | Reply_To_Question request_id answer responder_hex \<Rightarrow> (caps, reply_to_question request_id answer b, nd)
      | Ask_Question request_id capability question sender_hex public_key signature capability_cert \<Rightarrow>
          (case ask_question E parse lossy secs nanos latency mesh nd request_id capability question sender_hex
                  public_key signature capability_cert of
             (nd1, Inr msgs) \<Rightarrow> (caps, b\<lparr>br_down := br_down b @ msgs\<rparr>, nd1)
           | (nd1, Inl e) \<Rightarrow> (caps, b, nd1))
      | _ \<Rightarrow> (caps, b, nd))"

section \<open>The broker invariant\<close>

text \<open>
  Every number below the next one is waiting or answered, never both; a pending request belongs to
  the handler that waits under its id and has not been sent anything.
\<close>

definition broker_inv :: "broker \<Rightarrow> bool" where
  "broker_inv b \<longleftrightarrow>
     wf_map (br_pending b) \<and> wf_map (br_waiting b) \<and> wf_map (br_sent b) \<and> wf_map (br_answers b)
   \<and> dom (map_of (br_waiting b)) \<union> dom (map_of (br_answers b)) = {..<br_next b}
   \<and> dom (map_of (br_waiting b)) \<inter> dom (map_of (br_answers b)) = {}
   \<and> dom (map_of (br_sent b)) \<subseteq> dom (map_of (br_waiting b))
   \<and> (\<forall>rid n. map_of (br_pending b) rid = Some n \<longrightarrow> map_of (br_waiting b) n = Some rid \<and> map_of (br_sent b) n = None)"

lemma broker_invD:
  assumes "broker_inv b"
  shows "wf_map (br_pending b)" "wf_map (br_waiting b)" "wf_map (br_sent b)" "wf_map (br_answers b)"
    and "dom (map_of (br_waiting b)) \<union> dom (map_of (br_answers b)) = {..<br_next b}"
    and "dom (map_of (br_waiting b)) \<inter> dom (map_of (br_answers b)) = {}"
    and "dom (map_of (br_sent b)) \<subseteq> dom (map_of (br_waiting b))"
    and "map_of (br_pending b) rid = Some n \<Longrightarrow> map_of (br_waiting b) n = Some rid \<and> map_of (br_sent b) n = None"
  using assms unfolding broker_inv_def by blast+

lemma not_in_keys: "k \<notin> dom (map_of m) \<Longrightarrow> wf_map m \<Longrightarrow> wf_map ((k, v) # m)"
  by (simp add: dom_map_of_conv_image_fst)

lemma broker_inv_question:
  assumes "broker_inv b" and "rid \<notin> fst ` set (br_pending b)" and "rid \<notin> snd ` set (br_waiting b)"
  shows "broker_inv (incoming_question cap q rid b)"
proof -
  note d = broker_invD [OF assms(1)]
  have n: "br_next b \<notin> dom (map_of (br_waiting b))" "br_next b \<notin> dom (map_of (br_answers b))" using d(5) by auto
  then have "br_next b \<notin> dom (map_of (br_sent b))" using d(7) by blast
  moreover have "map_of (br_pending b) r \<noteq> Some (br_next b)" for r using d(8) n(1) by blast
  ultimately show ?thesis
    unfolding broker_inv_def incoming_question_def using d n not_in_keys [OF n(1) d(2)]
    by (auto simp: update_conv' lessThan_Suc)
qed

lemma broker_inv_reply: "broker_inv b \<Longrightarrow> broker_inv (reply_to_question rid answer b)"
proof (cases "map_of (br_pending b) rid")
  case (Some n)
  assume i: "broker_inv b"
  note d = broker_invD [OF i]
  have w: "map_of (br_waiting b) n = Some rid" "n \<notin> dom (map_of (br_sent b))" using d(8) [OF Some] by auto
  have "m \<noteq> n" if "map_of (br_pending b) r = Some m" "r \<noteq> rid" for r m
    using d(8) [OF that(1)] w(1) that(2) by auto
  then show ?thesis
    unfolding broker_inv_def reply_to_question_def using Some d w not_in_keys [OF w(2) d(3)]
    by (auto simp: delete_conv' AList.distinct_delete)
qed (simp add: reply_to_question_def)

lemma broker_inv_wake: "broker_inv b \<Longrightarrow> map_of (br_sent b) n = Some answer \<Longrightarrow> broker_inv (wake_handler n answer b)"
proof -
  assume i: "broker_inv b" and s: "map_of (br_sent b) n = Some answer"
  note d = broker_invD [OF i]
  have w: "n \<in> dom (map_of (br_waiting b))" using d(7) s by blast
  then have a: "n \<notin> dom (map_of (br_answers b))" using d(6) by blast
  have "map_of (br_pending b) r \<noteq> Some n" for r using d(8) [of r n] s by auto
  then show ?thesis
    unfolding broker_inv_def wake_handler_def using d w a not_in_keys [OF a d(4)]
    by (auto simp: delete_conv' AList.distinct_delete)
qed

lemma broker_inv_expire:
  "broker_inv b \<Longrightarrow> map_of (br_waiting b) n = Some rid \<Longrightarrow> map_of (br_sent b) n = None \<Longrightarrow> broker_inv (expire_handler n rid b)"
proof -
  assume i: "broker_inv b" and w: "map_of (br_waiting b) n = Some rid" and s: "map_of (br_sent b) n = None"
  note d = broker_invD [OF i]
  have a: "n \<notin> dom (map_of (br_answers b))" using d(6) w by blast
  have p: "r = rid" if "map_of (br_pending b) r = Some n" for r using d(8) [OF that] w by simp
  have "dom (map_of (br_sent b)) \<subseteq> dom (map_of (br_waiting b)) - {n}" using d(7) s by blast
  then show ?thesis
    unfolding broker_inv_def expire_handler_def using d w p not_in_keys [OF a d(4)]
    by (auto simp: delete_conv' AList.distinct_delete)
qed

lemma broker_reachable_inv: "broker_reachable True b \<Longrightarrow> broker_inv b"
proof (induction rule: broker_reachable.induct)
  case Start
  then show ?case by (simp add: broker_inv_def broker_new_def)
next
  case (Step b b')
  from Step(2) Step.IH show ?case
    by (elim broker_stepE)
      (auto intro: broker_inv_question broker_inv_reply broker_inv_wake broker_inv_expire)
qed

lemma length_dom: "wf_map m \<Longrightarrow> length m = card (dom (map_of m))"
  by (metis distinct_card dom_map_of_conv_image_fst length_map list.set_map)

lemma pending_bounded: "broker_inv b \<Longrightarrow> length (br_pending b) \<le> length (br_waiting b)"
proof -
  assume i: "broker_inv b"
  note d = broker_invD [OF i]
  have "inj_on (\<lambda>r. the (map_of (br_pending b) r)) (dom (map_of (br_pending b)))"
  proof (rule inj_onI)
    fix r r'
    assume "r \<in> dom (map_of (br_pending b))" "r' \<in> dom (map_of (br_pending b))"
      "the (map_of (br_pending b) r) = the (map_of (br_pending b) r')"
    then obtain n where "map_of (br_pending b) r = Some n" "map_of (br_pending b) r' = Some n" by auto
    from d(8) [OF this(1)] d(8) [OF this(2)] show "r = r'" by simp
  qed
  moreover have "(\<lambda>r. the (map_of (br_pending b) r)) ` dom (map_of (br_pending b)) \<subseteq> dom (map_of (br_waiting b))"
    using d(8) by auto
  ultimately have "card (dom (map_of (br_pending b))) \<le> card (dom (map_of (br_waiting b)))"
    by (rule card_inj_on_le) (simp add: finite_dom_map_of)
  then show ?thesis unfolding length_dom [OF d(1)] length_dom [OF d(2)] .
qed



text \<open>
  Where the runtime does not let a handler block, no question of the swarm is ever answered, and a
  request whose handler crashed stays pending until the client replies to it.
\<close>

theorem blocked_handlers_never_answer:
  assumes "broker_reachable False b"
  shows "br_answers b = []"
  using assms
proof (induction rule: broker_reachable.induct)
  case (Step b b')
  from Step(2) Step.IH show ?case
    by (elim broker_stepE)
      (auto simp: incoming_question_def reply_to_question_def split: option.splits)
qed (simp add: broker_new_def)

lemma blocked_handlers_never_answer_witness:
  "br_answers (incoming_question ''c'' [1] ''r'' broker_new) = []"
  by (rule blocked_handlers_never_answer [OF broker_reachable.Step [OF broker_reachable.Start Question]])
    (simp_all add: broker_new_def)

section \<open>What a client's question gets\<close>

text \<open>
  A question of a client gets at most one message, and none exactly when its certificate is not
  hexadecimal; an answer comes back under the request id it was asked with, and only when the
  lineage was accepted and the packet was authorised, twice.
\<close>

theorem question_gets_one_message:
  assumes "ask_question E parse lossy secs nanos latency mesh nd rid cap q sender pub sig cert = (nd', Inr msgs)"
    and "key = hex_or_zeros E 32 pub" and "sg = (if length sig = 64 then sig else zeros 64)"
  shows "length msgs = (if x_hex_decode E cert = None then 0 else 1)
     \<and> (\<forall>r a. Question_Answered r a \<in> set msgs \<longrightarrow> r = rid
          \<and> (\<exists>cb ag1 hex grp grp2. x_hex_decode E cert = Some cb
               \<and> verify_session_lineage E secs (nd_aegis nd) cb key = (ag1, Inr (hex, grp))
               \<and> packet_admissible E secs nanos ag1 grp key q sg cap secs
               \<and> packet_admissible E secs nanos (fst (authorize_packet_fast E secs nanos ag1 hex grp key q sg cap secs))
                   grp2 key q sg cap secs))"
proof (cases "x_hex_decode E cert")
  case None
  then show ?thesis using assms(1) by (simp add: ask_question_def)
next
  case (Some cb)
  obtain ag1 v where v: "verify_session_lineage E secs (nd_aegis nd) cb key = (ag1, v)" by fastforce
  show ?thesis
  proof (cases "\<exists>hex grp ag2. v = Inr (hex, grp) \<and> authorize_packet_fast E secs nanos ag1 hex grp key q sg cap secs = (ag2, Inr ())")
    case False
    then show ?thesis using assms v Some
      by (auto simp: ask_question_def Let_def split: sum.splits prod.splits rust_fail.splits)
  next
    case True
    then obtain hex grp ag2 where a: "v = Inr (hex, grp)"
      "authorize_packet_fast E secs nanos ag1 hex grp key q sg cap secs = (ag2, Inr ())" by blast
    let ?env = "\<lparr>a2a_sender_id = hex_or_zeros E 16 sender, a2a_sender_public_key = key, a2a_target_capability = cap,
       a2a_payload = q, a2a_signature = sg, a2a_sender_capability_cert = cb, a2a_timestamp = secs\<rparr>"
    obtain ag3 r3 where x: "execute_a2a_rpc E parse secs nanos (nd_net nd) ag2 ?env mesh = (ag3, r3)" by fastforce
    have p: "packet_admissible E secs nanos ag1 grp key q sg cap secs" using authorize_split [OF a(2)] by simp
    have p2: "\<exists>grp2. packet_admissible E secs nanos ag2 grp2 key q sg cap secs" if "r3 = Inr ans" for ans
      using rpc_authorised [OF x [unfolded that]] by auto
    have m: "(\<exists>e. msgs = [Ws_Error e]) \<or> (\<exists>answer responder. r3 = Inr (answer, responder) \<and> msgs = [Question_Answered rid answer])"
      using assms v a x Some
      by (auto simp: ask_question_def Let_def split: sum.splits prod.splits rust_fail.splits)
    show ?thesis using m Some v a p p2 by auto
  qed
qed

lemma question_gets_one_message_witness:
  "\<exists>nd'. ask_question demo (\<lambda>_. None) (\<lambda>_. []) 100 0 1 (\<lambda>_ _ _. No_Reply) demo_node ''r'' ''/a/x'' [1] ''0a'' ''0b'' [] ''zz''
     = (nd', Inr [])"
proof -
  have z: "x_hex_decode demo ''zz'' = None" by (simp add: demo_def hexval_def)
  obtain nd' msgs where a: "ask_question demo (\<lambda>_. None) (\<lambda>_. []) 100 0 1 (\<lambda>_ _ _. No_Reply) demo_node ''r'' ''/a/x''
      [1] ''0a'' ''0b'' [] ''zz'' = (nd', Inr msgs)" using z by (simp add: ask_question_def)
  from question_gets_one_message [OF a refl refl] z a show ?thesis by simp
qed

end
