(* ===== verification/Mcp_Bridge.thy ===== *)
theory Mcp_Bridge
  imports Py_Client Control_Plane Ws_Broker
begin

text \<open>
  The MCP bridge, src/raqim-mcp/src/main.rs: a language model's tool calls turned into a signed
  frame for the TCP edge, a search of the REST interface and a question over the WebSocket. What
  the sockets do is a record of arguments; a missing argument of a tool call panics, as the
  unwraps of the source do. The lemmas follow the three tools into the daemon.
\<close>

section \<open>The handler and its tools\<close>

record mcp_handler =
  mh_signing_key :: bytes
  mh_pub_key_bytes :: bytes
  mh_capability_cert_bytes :: bytes
  mh_daemon_http_url :: string
  mh_license_key :: string

definition mcp_new ::
  "ext \<Rightarrow> (string \<Rightarrow> bytes option) \<Rightarrow> string \<Rightarrow> string \<Rightarrow> string \<Rightarrow> string \<Rightarrow> mcp_handler res" where
  "mcp_new E files private_key_path cert_path daemon_http_url license_key =
     (case files private_key_path of
        None \<Rightarrow> Inl (Panic '' FATAL: Missing Private Key. Aegis identity key required. '')
      | Some key_bytes \<Rightarrow>
          if length key_bytes \<noteq> 32 then Inl (Panic '' FATAL: Invalid Private Key length (32 bytes required) '')
          else Inr \<lparr>mh_signing_key = key_bytes, mh_pub_key_bytes = x_ed_public E key_bytes,
                    mh_capability_cert_bytes = (case files cert_path of None \<Rightarrow> [] | Some b \<Rightarrow> b),
                    mh_daemon_http_url = daemon_http_url, mh_license_key = license_key\<rparr>)"

text \<open>The four settings of the process, each with its default.\<close>

definition mcp_environment :: "(string \<Rightarrow> string option) \<Rightarrow> string \<times> string \<times> string \<times> string" where
  "mcp_environment env =
     (let get = (\<lambda>name d. case env name of None \<Rightarrow> d | Some v \<Rightarrow> v) in
      (get ''RQM_MCP_KEY_PATH'' ''./keys/mcp_private.pem'', get ''RQM_MCP_CERT_PATH'' ''./keys/mcp_cert.pem'',
       get ''RQM_DEAMON_URL'' ''http://127.0.0.1:8081'', get ''RQM_LICENSE_KEY'' []))"

record tool =
  to_name :: string
  to_properties :: "string list"
  to_required :: "string list"

definition mcp_tools :: "tool list" where
  "mcp_tools =
     [\<lparr>to_name = ''commit_thought'', to_properties = [''thought_text'', ''status'', ''intent_path''],
       to_required = [''thought_text'', ''status'', ''intent_path'', ''agent_id_hex'']\<rparr>,
      \<lparr>to_name = ''query_memory'', to_properties = [''query'', ''intent_path''],
       to_required = [''query'', ''intent_path'']\<rparr>,
      \<lparr>to_name = ''ask_swarm'', to_properties = [''target_capability'', ''question''],
       to_required = [''target_capability'', ''question'']\<rparr>]"

datatype mcp_error = Invalid_Params string | Method_Not_Found string | Other_Error string

datatype mcp_reply = Mcp_Tools "tool list" | Mcp_Text string | Mcp_Error mcp_error | Mcp_Panic string

section \<open>The world around a call\<close>

text \<open>
  The TCP edge: no connection, or a connection on which so many bytes get through. A search: a
  transport error, a refusal, or a body that may not be a list of texts. A WebSocket: no
  connection, a message that cannot be sent, or the messages that come back and whether the
  socket is closed behind them (otherwise nothing more comes within the fifteen seconds); a text
  that is no message of the protocol is \<open>None\<close>.
\<close>

datatype mcp_http = Http_Down string | Http_Refused | Http_Body "string list option"

datatype ws_session = Ws_Down string | Ws_Unsent string | Ws_Open "ws_message option list" bool

record mcp_world =
  mw_now :: u64
  mw_tx_id :: u128
  mw_request_id :: string
  mw_tcp :: "nat option"
  mw_http :: "string \<Rightarrow> mcp_http"
  mw_ws :: "string \<Rightarrow> ws_message \<Rightarrow> ws_session"

section \<open>The tool calls\<close>

text \<open>\<open>args.get(key).unwrap().as_str().unwrap()\<close>: \<open>None\<close> is the panic.\<close>

definition str_arg :: "json \<Rightarrow> string \<Rightarrow> string option" where
  "str_arg args key = Option.bind (json_object args) (\<lambda>kvs. Option.bind (map_of kvs key) json_string)"

definition unwrap_panic :: mcp_reply where
  "unwrap_panic = Mcp_Panic ''called Option::unwrap() on a None value''"

definition status_of_text :: "string \<Rightarrow> agent_status" where
  "status_of_text s =
     (if s = ''Reasoning'' then Reasoning else if s = ''ToolExecution'' then ToolExecution
      else if s = ''Halted'' then Halted else Idle)"

definition mcp_state :: "ext \<Rightarrow> mcp_world \<Rightarrow> mcp_handler \<Rightarrow> string \<Rightarrow> string \<Rightarrow> string \<Rightarrow> agent_state" where
  "mcp_state E w h intent_path msg status =
     \<lparr>st_agent_id = Some (derive_agent_id E (mh_pub_key_bytes h)), st_transaction_id = mw_tx_id w,
      st_timestamp = mw_now w, st_status = status_of_text status, st_text = msg, st_namespace = intent_path\<rparr>"

definition mcp_envelope :: "ext \<Rightarrow> mcp_handler \<Rightarrow> string \<Rightarrow> agent_state \<Rightarrow> ingress_envelope" where
  "mcp_envelope E h intent_path st =
     (let state_bytes = x_state_to E st in
      \<lparr>in_intent_path = intent_path, in_public_key = mh_pub_key_bytes h,
       in_signature = x_ed_sign E (mh_signing_key h) state_bytes, in_state_bytes = state_bytes,
       in_capability_cert = mh_capability_cert_bytes h\<rparr>)"

text \<open>What the daemon's socket receives, and the reply.\<close>

definition commit_thought :: "ext \<Rightarrow> mcp_world \<Rightarrow> mcp_handler \<Rightarrow> json \<Rightarrow> bytes option \<times> mcp_reply" where
  "commit_thought E w h args =
     (case (str_arg args ''intent_path'', str_arg args ''thought_text'', str_arg args ''status'') of
        (Some intent_path, Some msg, Some status) \<Rightarrow>
          (let frame = length_prefixed (x_ingress_to E (mcp_envelope E h intent_path (mcp_state E w h intent_path msg status)))
           in case mw_tcp w of
                None \<Rightarrow> (None, Mcp_Error (Other_Error ''Failed to connect to Raqim Deamon TCP''))
              | Some n \<Rightarrow> (Some (take n frame), Mcp_Text ''Thought securely committed.''))
      | _ \<Rightarrow> (None, unwrap_panic))"

definition join_lines :: "string list \<Rightarrow> string" where
  "join_lines xs = concat (case xs of [] \<Rightarrow> [] | x # r \<Rightarrow> x # map (\<lambda>y. CHR 0x0A # y) r)"

definition query_memory :: "mcp_world \<Rightarrow> mcp_handler \<Rightarrow> json \<Rightarrow> mcp_reply" where
  "query_memory w h args =
     (case (str_arg args ''intent_path'', str_arg args ''query'') of
        (Some intent_path, Some query) \<Rightarrow>
          (case mw_http w (mh_daemon_http_url h @ ''/v1/swarm/memory?namespace='' @ intent_path @ ''&query='' @ query) of
             Http_Down e \<Rightarrow> Mcp_Error (Other_Error e)
           | Http_Refused \<Rightarrow> Mcp_Error (Other_Error ''RAG Query Failed'')
           | Http_Body body \<Rightarrow>
               Mcp_Text (''Retrieved:'' @ [CHR 0x0A] @ join_lines (case body of None \<Rightarrow> [] | Some ms \<Rightarrow> ms)))
      | _ \<Rightarrow> unwrap_panic)"

text \<open>
  The loop over what comes back: an answer to this request ends it, an error message of any
  request ends it, everything else is passed over.
\<close>

fun await_answer :: "string \<Rightarrow> ws_message option list \<Rightarrow> bool \<Rightarrow> mcp_reply" where
  "await_answer request_id [] closed =
     (if closed then Mcp_Error (Other_Error ''WebSocket closed unexpectedly'')
      else Mcp_Error (Other_Error ''A2A Timeout exceeed 15s''))"
| "await_answer request_id (Some (Question_Answered incoming_id answer) # msgs) closed =
     (if incoming_id = request_id then
        (case from_utf8 answer of
           None \<Rightarrow> Mcp_Panic ''called Result::unwrap() on an Err value: FromUtf8Error''
         | Some text \<Rightarrow> Mcp_Text text)
      else await_answer request_id msgs closed)"
| "await_answer request_id (Some (Ws_Error message) # msgs) closed = Mcp_Error (Other_Error message)"
| "await_answer request_id (_ # msgs) closed = await_answer request_id msgs closed"

definition mcp_question :: "ext \<Rightarrow> mcp_world \<Rightarrow> mcp_handler \<Rightarrow> string \<Rightarrow> string \<Rightarrow> ws_message" where
  "mcp_question E w h target_capability question =
     Ask_Question (mw_request_id w) target_capability (as_bytes question)
       (x_hex_encode E (derive_agent_id E (mh_pub_key_bytes h))) (x_hex_encode E (mh_pub_key_bytes h))
       (x_ed_sign E (mh_signing_key h) (as_bytes question)) (x_hex_encode E (mh_capability_cert_bytes h))"

definition ask_swarm :: "ext \<Rightarrow> mcp_world \<Rightarrow> mcp_handler \<Rightarrow> json \<Rightarrow> mcp_reply" where
  "ask_swarm E w h args =
     (case (str_arg args ''target_capability'', str_arg args ''question'') of
        (Some target_capability, Some question) \<Rightarrow>
          (case mw_ws w (replace ''http'' ''ws'' (mh_daemon_http_url h) @ ''/v1/mcp/ws'')
                  (mcp_question E w h target_capability question) of
             Ws_Down e \<Rightarrow> Mcp_Error (Other_Error (''WS Connect Failed: '' @ e))
           | Ws_Unsent e \<Rightarrow> Mcp_Error (Other_Error e)
           | Ws_Open msgs closed \<Rightarrow> await_answer (mw_request_id w) msgs closed)
      | _ \<Rightarrow> unwrap_panic)"

definition handle_method ::
  "ext \<Rightarrow> mcp_world \<Rightarrow> mcp_handler \<Rightarrow> string \<Rightarrow> json option \<Rightarrow> bytes option \<times> mcp_reply" where
  "handle_method E w h meth params =
     (if meth = ''tools/list'' then (None, Mcp_Tools mcp_tools)
      else if meth = ''tools/call'' then
        (case params of
           None \<Rightarrow> (None, Mcp_Error (Invalid_Params ''Missing params''))
         | Some p \<Rightarrow>
             (let name = (case str_arg p ''name'' of None \<Rightarrow> [] | Some n \<Rightarrow> n) in
              case Option.bind (json_object p) (\<lambda>kvs. map_of kvs ''arguments'') of
                None \<Rightarrow> (None, Mcp_Error (Invalid_Params ''Missing args''))
              | Some args \<Rightarrow>
                  if name = ''commit_thought'' then commit_thought E w h args
                  else if name = ''query_memory'' then (None, query_memory w h args)
                  else if name = ''ask_swarm'' then (None, ask_swarm E w h args)
                  else (None, Mcp_Error (Method_Not_Found ''Unknown tool''))))
      else (None, Mcp_Error (Method_Not_Found ''Method not supported'')))"

section \<open>Committed thoughts\<close>

definition core_of :: "mcp_handler \<Rightarrow> py_crypto_core" where
  "core_of h = \<lparr>pc_signing_key = mh_signing_key h, pc_pub_key_bytes = mh_pub_key_bytes h,
     pc_capability_cert_bytes = mh_capability_cert_bytes h\<rparr>"

lemma mcp_envelope_signed: "mcp_envelope E h path st = signed_envelope E (core_of h) path st"
  by (simp add: mcp_envelope_def signed_envelope_def core_of_def Let_def)

text \<open>The call of the commit tool with its three arguments.\<close>

definition commit_call :: "string \<Rightarrow> string \<Rightarrow> string \<Rightarrow> json" where
  "commit_call path msg status =
     J_Object [(''name'', J_String ''commit_thought''),
       (''arguments'', J_Object [(''intent_path'', J_String path), (''thought_text'', J_String msg),
                                 (''status'', J_String status)])]"

lemma commit_call_handled:
  "handle_method E w h ''tools/call'' (Some (commit_call path msg status)) =
     (case mw_tcp w of
        None \<Rightarrow> (None, Mcp_Error (Other_Error ''Failed to connect to Raqim Deamon TCP''))
      | Some n \<Rightarrow> (Some (take n (length_prefixed (x_ingress_to E (mcp_envelope E h path (mcp_state E w h path msg status))))),
                  Mcp_Text ''Thought securely committed.''))"
  by (simp add: handle_method_def commit_call_def str_arg_def commit_thought_def Let_def split: option.split)

text \<open>
  The commit tool reports success before anything is committed: the reply is the same however
  many bytes of the frame got through, even none, and whatever the firewall says of them.
\<close>

theorem commit_success_means_nothing:
  assumes "mw_tcp w = Some n"
  shows "handle_method E w h ''tools/call'' (Some (commit_call path msg status))
     = (Some (take n (length_prefixed (x_ingress_to E (mcp_envelope E h path (mcp_state E w h path msg status))))),
        Mcp_Text ''Thought securely committed.'')
     \<and> (n = 0 \<longrightarrow> tcp_connection E L nd tcp_session_new
          (take n (length_prefixed (x_ingress_to E (mcp_envelope E h path (mcp_state E w h path msg status))))) [ck]
          = (nd, Drop_Socket))"
  using assms by (simp add: commit_call_handled read_frame_def)

text \<open>
  From the model to the ledger: when the whole frame gets through and the certificate of the
  bridge opens a session whose group admits the path, the thought is committed under the identity
  of the bridge's own key, whatever the caller says, with the path as its namespace.
\<close>

theorem mcp_thought_is_committed_under_its_key:
  assumes "crdt_ok L" and "rkyv_ok E" and "ed_ok E" and "mcp_new E files key_path cert_path url lic = Inr h"
    and "verify_session_lineage E (fc_secs ck) (nd_aegis nd) (mh_capability_cert_bytes h) (mh_pub_key_bytes h)
           = (nd_aegis nd, Inr (hex, grp))"
    and "group_admits (fc_nanos ck) (nd_aegis nd) grp path" and "\<not> stale (fc_secs ck) (mw_now w)"
    and "path \<noteq> ''/system/handshake''" and "derive_agent_id E (mh_pub_key_bytes h) \<noteq> zeros 16"
    and "handle_method E w h ''tools/call'' (Some (commit_call path msg status)) = (Some wire, r)"
    and "mw_tcp w = Some (length wire)"
    and "wire = length_prefixed (x_ingress_to E (mcp_envelope E h path (mcp_state E w h path msg status)))"
    and "length wire \<le> max_frame"
  shows "\<exists>nd' log. tcp_connection E L nd tcp_session_new (wire @ rest) [ck] = (nd', Next_Frame)
     \<and> wal_queue (nd_wal nd') = wal_queue (nd_wal nd) @ [log]
     \<and> ol_agent_id log = derive_agent_id E (mh_pub_key_bytes h) \<and> ol_namespace log = path
     \<and> st_text (ol_state log) = msg \<and> r = Mcp_Text ''Thought securely committed.''"
proof -
  let ?st = "mcp_state E w h path msg status"
  have k: "pc_pub_key_bytes (core_of h) = x_ed_public E (pc_signing_key (core_of h))"
    using assms(4) by (auto simp: core_of_def mcp_new_def split: option.splits if_splits)
  have n: "named_agent ?st (derive_agent_id E (mh_pub_key_bytes h))"
    using assms(9) by (simp add: named_agent_def mcp_state_def)
  have len: "length (x_ingress_to E (signed_envelope E (core_of h) path ?st)) \<le> max_frame"
    using assms(12,13) by (simp add: mcp_envelope_signed length_prefixed_def)
  have "\<exists>nd' log. tcp_connection E L nd tcp_session_new
        (length_prefixed (x_ingress_to E (signed_envelope E (core_of h) path ?st)) @ rest) [ck] = (nd', Next_Frame)
     \<and> wal_queue (nd_wal nd') = wal_queue (nd_wal nd) @ [log] \<and> ol_agent_id log = derive_agent_id E (mh_pub_key_bytes h)
     \<and> ol_namespace log = st_namespace ?st \<and> st_text (ol_state log) = st_text ?st"
    by (rule signed_envelope_commits [OF assms(1-3) k _ assms(6) _ assms(8) n len])
      (use assms(5,7) in \<open>simp_all add: core_of_def mcp_state_def\<close>)
  moreover have "r = Mcp_Text ''Thought securely committed.''"
    using assms(10,11) by (simp add: commit_call_handled)
  ultimately show ?thesis using assms(12) by (simp add: mcp_envelope_signed mcp_state_def)
qed

section \<open>Questions\<close>

text \<open>
  What the broker decodes of a question of the bridge is what the bridge holds: its key, its
  identity, its certificate and a signature of its key over the question.
\<close>

lemma mcp_question_decoded:
  assumes "hex_ok E" and "hash_ok E" and "ed_ok E" and "mcp_new E files key_path cert_path url lic = Inr h"
  shows "hex_or_zeros E 32 (x_hex_encode E (mh_pub_key_bytes h)) = mh_pub_key_bytes h"
    and "hex_or_zeros E 16 (x_hex_encode E (derive_agent_id E (mh_pub_key_bytes h))) = derive_agent_id E (mh_pub_key_bytes h)"
    and "x_hex_decode E (x_hex_encode E (mh_capability_cert_bytes h)) = Some (mh_capability_cert_bytes h)"
    and "length (x_ed_sign E (mh_signing_key h) (as_bytes q)) = 64"
    and "x_ed_verify E (mh_pub_key_bytes h) (as_bytes q) (x_ed_sign E (mh_signing_key h) (as_bytes q))"
proof -
  have "mh_pub_key_bytes h = x_ed_public E (mh_signing_key h)"
    using assms(4) by (auto simp: mcp_new_def split: option.splits if_splits)
  then show "hex_or_zeros E 32 (x_hex_encode E (mh_pub_key_bytes h)) = mh_pub_key_bytes h"
    "length (x_ed_sign E (mh_signing_key h) (as_bytes q)) = 64"
    "x_ed_verify E (mh_pub_key_bytes h) (as_bytes q) (x_ed_sign E (mh_signing_key h) (as_bytes q))"
    using assms(1) ed_ok_simps [OF assms(3)] by (simp_all add: hex_or_zeros_def)
qed (use assms in \<open>simp_all add: hex_or_zeros_def derive_agent_id_def\<close>)

text \<open>
  A question of the bridge gets exactly what the broker made of it: the broker sends one message
  for it, the bridge passes over the messages of other requests that come before, and turns an
  answer into its text and an error into an error; a timeout is only reported when the daemon
  panicked over the question.
\<close>

definition not_ours :: "string \<Rightarrow> ws_message option \<Rightarrow> bool" where
  "not_ours request_id m \<longleftrightarrow>
     (case m of Some (Question_Answered i a) \<Rightarrow> i \<noteq> request_id | Some (Ws_Error e) \<Rightarrow> False | _ \<Rightarrow> True)"

lemma await_skips:
  "list_all (not_ours rid) before \<Longrightarrow> await_answer rid (before @ msgs) closed = await_answer rid msgs closed"
proof (induction before)
  case (Cons m before)
  then show ?case by (cases m; cases "the m") (auto simp: not_ours_def)
qed simp

theorem mcp_question_is_reported:
  assumes "hex_ok E" and "list_all (not_ours (mw_request_id w)) before"
    and "mcp_question E w h cap q = Ask_Question rid cap' qb sender pub sig cert"
    and "ask_question E parse lossy secs nanos latency mesh nd rid cap' qb sender pub sig cert = (nd', Inr msgs)"
    and "mw_ws w = (\<lambda>url msg. Ws_Open (before @ map Some msgs @ after) closed)"
  shows "ask_swarm E w h (J_Object [(''target_capability'', J_String cap), (''question'', J_String q)]) =
     (case hd msgs of
        Question_Answered _ a \<Rightarrow>
          (case from_utf8 a of
             None \<Rightarrow> Mcp_Panic ''called Result::unwrap() on an Err value: FromUtf8Error''
           | Some answer \<Rightarrow> Mcp_Text answer)
      | Ws_Error e \<Rightarrow> Mcp_Error (Other_Error e)
      | _ \<Rightarrow> Mcp_Error (Other_Error []))
     \<and> (\<exists>m. msgs = [m] \<and> ((\<exists>a. m = Question_Answered (mw_request_id w) a) \<or> (\<exists>e. m = Ws_Error e)))"
proof -
  have q: "rid = mw_request_id w" "x_hex_decode E cert \<noteq> None"
    using assms(1,3) by (auto simp: mcp_question_def)
  then have m: "(\<exists>a. msgs = [Question_Answered rid a]) \<or> (\<exists>e. msgs = [Ws_Error e])"
    using assms(4) by (auto simp: ask_question_def Let_def split: option.splits sum.splits prod.splits rust_fail.splits)
  have "ask_swarm E w h (J_Object [(''target_capability'', J_String cap), (''question'', J_String q)]) =
      await_answer (mw_request_id w) (before @ map Some msgs @ after) closed"
    using assms(5) by (simp add: ask_swarm_def str_arg_def)
  then show ?thesis using m q(1) await_skips [OF assms(2)] by (auto split: option.split)
qed

end
