(* ===== verification/Config.thy ===== *)
theory Config
  imports Codec
begin

text \<open>
  The settings of the daemon, src/raqim-core/src/config.rs: the sections the file raqim.toml is
  read into, the flat record the daemon works with, the bootstrap of a missing file and the
  override by the command line. The toml crate is a parameter, a parser and a printer between
  text and documents; what the derived readers accept of a document is written out.
\<close>

section \<open>Documents and their typed reading\<close>

datatype toml =
    Toml_String string
  | Toml_Integer int
  | Toml_Boolean bool
  | Toml_Array "toml list"
  | Toml_Table "(string \<times> toml) list"

type_synonym toml_doc = "(string \<times> toml) list"

record toml_crate =
  tc_parse :: "string \<Rightarrow> toml_doc option"
  tc_print :: "toml_doc \<Rightarrow> string"

text \<open>
  A required field, an optional one, and the integer types: serde refuses a missing required
  field and a value of another type, and ignores the keys it does not know.
\<close>

definition req :: "(toml \<Rightarrow> 'a option) \<Rightarrow> toml_doc \<Rightarrow> string \<Rightarrow> 'a option" where
  "req rd d key = (case map_of d key of None \<Rightarrow> None | Some v \<Rightarrow> rd v)"

definition opt :: "(toml \<Rightarrow> 'a option) \<Rightarrow> toml_doc \<Rightarrow> string \<Rightarrow> 'a option option" where
  "opt rd d key = (case map_of d key of None \<Rightarrow> Some None | Some v \<Rightarrow> map_option Some (rd v))"

fun as_string :: "toml \<Rightarrow> string option" where
  "as_string (Toml_String s) = Some s"
| "as_string _ = None"

fun as_table :: "toml \<Rightarrow> toml_doc option" where
  "as_table (Toml_Table t) = Some t"
| "as_table _ = None"

fun as_u16 :: "toml \<Rightarrow> u16 option" where
  "as_u16 (Toml_Integer i) = (if 0 \<le> i \<and> i < 2 ^ 16 then Some (word_of_int i) else None)"
| "as_u16 _ = None"

fun as_i32 :: "toml \<Rightarrow> i32 option" where
  "as_i32 (Toml_Integer i) = (if - (2 ^ 31) \<le> i \<and> i < 2 ^ 31 then Some (word_of_int i) else None)"
| "as_i32 _ = None"

fun as_usize_value :: "toml \<Rightarrow> nat option" where
  "as_usize_value (Toml_Integer i) = (if 0 \<le> i then Some (nat i) else None)"
| "as_usize_value _ = None"

section \<open>The sections of the file\<close>

record daemon_section =
  da_topic :: string
  da_wal_path :: string
  da_witness_path :: string
  da_aegis_path :: string
  da_port :: "u16 option"
  da_dims :: "i32 option"
  da_limit :: "nat option"
  da_embedder_type :: "string option"

record storage_section =
  sg_lance_path :: "string option"
  sg_table_name :: "string option"

record identity_section =
  id_tenant_id :: string
  id_node_pub_key_hex :: string
  id_license_key :: string
  id_openai_api_key :: "string option"

record raqim_toml_proxy =
  rp_daemon :: daemon_section
  rp_storage :: storage_section
  rp_identity :: identity_section

definition read_daemon :: "toml_doc \<Rightarrow> daemon_section option" where
  "read_daemon d =
     (case (req as_string d ''topic'', req as_string d ''wal_path'', req as_string d ''witness_path'',
            req as_string d ''aegis_path'', opt as_u16 d ''port'', opt as_i32 d ''dims'',
            opt as_usize_value d ''limit'', opt as_string d ''embedder_type'') of
        (Some t, Some w, Some ws, Some a, Some p, Some di, Some l, Some e) \<Rightarrow>
          Some \<lparr>da_topic = t, da_wal_path = w, da_witness_path = ws, da_aegis_path = a, da_port = p,
                da_dims = di, da_limit = l, da_embedder_type = e\<rparr>
      | _ \<Rightarrow> None)"

definition read_storage :: "toml_doc \<Rightarrow> storage_section option" where
  "read_storage d =
     (case (opt as_string d ''lance_path'', opt as_string d ''table_name'') of
        (Some l, Some t) \<Rightarrow> Some \<lparr>sg_lance_path = l, sg_table_name = t\<rparr>
      | _ \<Rightarrow> None)"

definition read_identity :: "toml_doc \<Rightarrow> identity_section option" where
  "read_identity d =
     (case (req as_string d ''tenant_id'', req as_string d ''node_pub_key_hex'',
            req as_string d ''license_key'', opt as_string d ''openai_api_key'') of
        (Some t, Some n, Some l, Some k) \<Rightarrow>
          Some \<lparr>id_tenant_id = t, id_node_pub_key_hex = n, id_license_key = l, id_openai_api_key = k\<rparr>
      | _ \<Rightarrow> None)"

definition read_proxy :: "toml_doc \<Rightarrow> raqim_toml_proxy option" where
  "read_proxy d =
     (case (Option.bind (req as_table d ''daemon'') read_daemon,
            Option.bind (req as_table d ''storage'') read_storage,
            Option.bind (req as_table d ''identity'') read_identity) of
        (Some da, Some sg, Some ident) \<Rightarrow> Some \<lparr>rp_daemon = da, rp_storage = sg, rp_identity = ident\<rparr>
      | _ \<Rightarrow> None)"

section \<open>The settings\<close>

record raqim_config =
  cf_topic :: string
  cf_wal_path :: string
  cf_lance_path :: string
  cf_witness_path :: string
  cf_aegis_path :: string
  cf_table_name :: string
  cf_tenant_id :: string
  cf_license_key :: string
  cf_node_public_key_hex :: string
  cf_embedder_type :: string
  cf_openai_api_key :: string
  cf_dims :: i32
  cf_limit :: nat
  cf_port :: u16

definition default_config :: raqim_config where
  "default_config =
     \<lparr>cf_topic = ''raqim_default'', cf_wal_path = ''./production.wal'',
      cf_lance_path = ''./production_semantic.lancedb'', cf_witness_path = ''./vault/witnesses'',
      cf_aegis_path = ''./aegis.toml'', cf_table_name = ''agent_history'',
      cf_tenant_id = ''open_core_local'', cf_license_key = ''dev_move'',
      cf_node_public_key_hex = replicate 64 (CHR ''0''), cf_embedder_type = ''bge'',
      cf_openai_api_key = [], cf_dims = 384, cf_limit = 5, cf_port = 8080\<rparr>"

text \<open>The derived writer of the settings: one flat table in the order of the fields.\<close>

definition config_doc :: "raqim_config \<Rightarrow> toml_doc" where
  "config_doc c =
     [(''topic'', Toml_String (cf_topic c)), (''wal_path'', Toml_String (cf_wal_path c)),
      (''lance_path'', Toml_String (cf_lance_path c)), (''witness_path'', Toml_String (cf_witness_path c)),
      (''aegis_path'', Toml_String (cf_aegis_path c)), (''table_name'', Toml_String (cf_table_name c)),
      (''tenant_id'', Toml_String (cf_tenant_id c)), (''license_key'', Toml_String (cf_license_key c)),
      (''node_public_key_hex'', Toml_String (cf_node_public_key_hex c)),
      (''embedder_type'', Toml_String (cf_embedder_type c)),
      (''openai_api_key'', Toml_String (cf_openai_api_key c)), (''dims'', Toml_Integer (sint (cf_dims c))),
      (''limit'', Toml_Integer (int (cf_limit c))), (''port'', Toml_Integer (uint (cf_port c)))]"

definition unwrap_or :: "'a option \<Rightarrow> 'a \<Rightarrow> 'a" where
  "unwrap_or v d = (case v of None \<Rightarrow> d | Some x \<Rightarrow> x)"

lemma unwrap_or_simps [simp]: "unwrap_or None d = d" "unwrap_or (Some x) d = x"
  by (simp_all add: unwrap_or_def)

definition config_of_proxy :: "raqim_toml_proxy \<Rightarrow> raqim_config" where
  "config_of_proxy p =
     (let da = rp_daemon p; sg = rp_storage p; ident = rp_identity p in
      \<lparr>cf_topic = da_topic da, cf_wal_path = da_wal_path da,
       cf_lance_path = unwrap_or (sg_lance_path sg) ''./production_semantic.lancedb'',
       cf_witness_path = da_witness_path da, cf_aegis_path = da_aegis_path da,
       cf_table_name = unwrap_or (sg_table_name sg) ''agent_history'',
       cf_tenant_id = id_tenant_id ident, cf_license_key = id_license_key ident,
       cf_node_public_key_hex = id_node_pub_key_hex ident,
       cf_embedder_type = unwrap_or (da_embedder_type da) ''bge'',
       cf_openai_api_key = unwrap_or (id_openai_api_key ident) [],
       cf_dims = unwrap_or (da_dims da) 384, cf_limit = unwrap_or (da_limit da) 5,
       cf_port = unwrap_or (da_port da) 8080\<rparr>)"

text \<open>The arguments as clap parsed them.\<close>

record cli_args =
  ca_topic :: "string option"
  ca_wal_path :: "string option"
  ca_witnes_path :: "string option"
  ca_lance_path :: "string option"
  ca_aegis_path :: "string option"
  ca_node_public_key_hex :: "string option"
  ca_embedder_type :: "string option"
  ca_openai_api_key :: "string option"
  ca_tenant_id :: "string option"
  ca_license_key :: "string option"
  ca_dims :: "i32 option"
  ca_limit :: "nat option"
  ca_port :: "u16 option"

text \<open>\<open>if let Some(x) = arg { config.field = x }\<close>, one after the other.\<close>

fun if_some :: "'a option \<Rightarrow> ('a \<Rightarrow> 'c \<Rightarrow> 'c) \<Rightarrow> 'c \<Rightarrow> 'c" where
  "if_some None assign c = c"
| "if_some (Some x) assign c = assign x c"

definition override_config :: "cli_args \<Rightarrow> raqim_config \<Rightarrow> raqim_config" where
  "override_config a c =
     foldl (\<lambda>c step. step c) c
       [if_some (ca_topic a) (\<lambda>x c. c\<lparr>cf_topic := x\<rparr>),
        if_some (ca_wal_path a) (\<lambda>x c. c\<lparr>cf_wal_path := x\<rparr>),
        if_some (ca_witnes_path a) (\<lambda>x c. c\<lparr>cf_witness_path := x\<rparr>),
        if_some (ca_node_public_key_hex a) (\<lambda>x c. c\<lparr>cf_node_public_key_hex := x\<rparr>),
        if_some (ca_embedder_type a) (\<lambda>x c. c\<lparr>cf_embedder_type := x\<rparr>),
        if_some (ca_openai_api_key a) (\<lambda>x c. c\<lparr>cf_openai_api_key := x\<rparr>),
        if_some (ca_lance_path a) (\<lambda>x c. c\<lparr>cf_lance_path := x\<rparr>),
        if_some (ca_dims a) (\<lambda>x c. c\<lparr>cf_dims := x\<rparr>),
        if_some (ca_tenant_id a) (\<lambda>x c. c\<lparr>cf_tenant_id := x\<rparr>),
        if_some (ca_aegis_path a) (\<lambda>x c. c\<lparr>cf_aegis_path := x\<rparr>),
        if_some (ca_license_key a) (\<lambda>x c. c\<lparr>cf_license_key := x\<rparr>),
        if_some (ca_limit a) (\<lambda>x c. c\<lparr>cf_limit := x\<rparr>),
        if_some (ca_port a) (\<lambda>x c. c\<lparr>cf_port := x\<rparr>)]"

text \<open>
  The file raqim.toml: absent, present and unreadable, or a text. The result is the file after
  the call and the settings; every failure is a panic at boot.
\<close>

datatype toml_file = Absent | Unreadable | Content string

definition load_or_bootstrap ::
  "toml_crate \<Rightarrow> bool \<Rightarrow> cli_args \<Rightarrow> toml_file \<Rightarrow> toml_file \<times> raqim_config res" where
  "load_or_bootstrap T write_ok args src =
     (case src of
        Unreadable \<Rightarrow> (src, Inl (Panic ''[FATAL] Failed to read raqim.toml''))
      | Content content \<Rightarrow>
          (case Option.bind (tc_parse T content) read_proxy of
             None \<Rightarrow> (src, Inl (Panic ''[FATAL] Invalid TOML structural layout in raqim.toml ''))
           | Some proxy \<Rightarrow> (src, Inr (override_config args (config_of_proxy proxy))))
      | Absent \<Rightarrow>
          if write_ok then
            (Content (tc_print T (config_doc default_config)), Inr (override_config args default_config))
          else (Absent, Inl (Panic ''Failed to bootstap raqim.toml'')))"

section \<open>What a start sees\<close>

text \<open>Every argument replaces its own setting and nothing else; the table name has no argument.\<close>

lemma if_some_assign:
  "if_some v (\<lambda>x c. c\<lparr>cf_topic := x\<rparr>) c = c\<lparr>cf_topic := unwrap_or v (cf_topic c)\<rparr>"
  "if_some v (\<lambda>x c. c\<lparr>cf_wal_path := x\<rparr>) c = c\<lparr>cf_wal_path := unwrap_or v (cf_wal_path c)\<rparr>"
  "if_some v (\<lambda>x c. c\<lparr>cf_witness_path := x\<rparr>) c = c\<lparr>cf_witness_path := unwrap_or v (cf_witness_path c)\<rparr>"
  "if_some v (\<lambda>x c. c\<lparr>cf_node_public_key_hex := x\<rparr>) c =
     c\<lparr>cf_node_public_key_hex := unwrap_or v (cf_node_public_key_hex c)\<rparr>"
  "if_some v (\<lambda>x c. c\<lparr>cf_embedder_type := x\<rparr>) c = c\<lparr>cf_embedder_type := unwrap_or v (cf_embedder_type c)\<rparr>"
  "if_some v (\<lambda>x c. c\<lparr>cf_openai_api_key := x\<rparr>) c = c\<lparr>cf_openai_api_key := unwrap_or v (cf_openai_api_key c)\<rparr>"
  "if_some v (\<lambda>x c. c\<lparr>cf_lance_path := x\<rparr>) c = c\<lparr>cf_lance_path := unwrap_or v (cf_lance_path c)\<rparr>"
  "if_some d (\<lambda>x c. c\<lparr>cf_dims := x\<rparr>) c = c\<lparr>cf_dims := unwrap_or d (cf_dims c)\<rparr>"
  "if_some v (\<lambda>x c. c\<lparr>cf_tenant_id := x\<rparr>) c = c\<lparr>cf_tenant_id := unwrap_or v (cf_tenant_id c)\<rparr>"
  "if_some v (\<lambda>x c. c\<lparr>cf_aegis_path := x\<rparr>) c = c\<lparr>cf_aegis_path := unwrap_or v (cf_aegis_path c)\<rparr>"
  "if_some v (\<lambda>x c. c\<lparr>cf_license_key := x\<rparr>) c = c\<lparr>cf_license_key := unwrap_or v (cf_license_key c)\<rparr>"
  "if_some n (\<lambda>x c. c\<lparr>cf_limit := x\<rparr>) c = c\<lparr>cf_limit := unwrap_or n (cf_limit c)\<rparr>"
  "if_some p (\<lambda>x c. c\<lparr>cf_port := x\<rparr>) c = c\<lparr>cf_port := unwrap_or p (cf_port c)\<rparr>"
  by (cases v; cases d; cases n; cases p; simp)+

lemma override_config_fields:
  "cf_topic (override_config a c) = unwrap_or (ca_topic a) (cf_topic c)"
  "cf_wal_path (override_config a c) = unwrap_or (ca_wal_path a) (cf_wal_path c)"
  "cf_witness_path (override_config a c) = unwrap_or (ca_witnes_path a) (cf_witness_path c)"
  "cf_lance_path (override_config a c) = unwrap_or (ca_lance_path a) (cf_lance_path c)"
  "cf_aegis_path (override_config a c) = unwrap_or (ca_aegis_path a) (cf_aegis_path c)"
  "cf_node_public_key_hex (override_config a c) = unwrap_or (ca_node_public_key_hex a) (cf_node_public_key_hex c)"
  "cf_embedder_type (override_config a c) = unwrap_or (ca_embedder_type a) (cf_embedder_type c)"
  "cf_openai_api_key (override_config a c) = unwrap_or (ca_openai_api_key a) (cf_openai_api_key c)"
  "cf_tenant_id (override_config a c) = unwrap_or (ca_tenant_id a) (cf_tenant_id c)"
  "cf_license_key (override_config a c) = unwrap_or (ca_license_key a) (cf_license_key c)"
  "cf_dims (override_config a c) = unwrap_or (ca_dims a) (cf_dims c)"
  "cf_limit (override_config a c) = unwrap_or (ca_limit a) (cf_limit c)"
  "cf_port (override_config a c) = unwrap_or (ca_port a) (cf_port c)"
  "cf_table_name (override_config a c) = cf_table_name c"
  by (simp_all add: override_config_def if_some_assign)

text \<open>Applying the arguments a second time changes nothing.\<close>

lemma unwrap_or_twice [simp]: "unwrap_or v (unwrap_or v d) = unwrap_or v d"
  by (cases v) simp_all

lemma override_config_idem: "override_config a (override_config a c) = override_config a c"
  by (rule raqim_config.equality) (simp_all add: override_config_fields)

lemma bootstrap_has_no_sections: "read_proxy (config_doc c) = None"
  by (simp add: read_proxy_def req_def config_doc_def)

text \<open>
  C39. The bootstrapped file locks the daemon out: the first start writes the flat table of the
  defaults and runs with the defaults and the arguments; the next start reads the file into
  sections, which it does not have, and panics whatever the arguments are.
\<close>

theorem bootstrapped_config_is_refused:
  assumes "tc_parse T (tc_print T (config_doc default_config)) = Some (config_doc default_config)"
    and "load_or_bootstrap T True args Absent = (src, r)"
  shows "r = Inr (override_config args default_config)
     \<and> load_or_bootstrap T ok args' src =
         (src, Inl (Panic ''[FATAL] Invalid TOML structural layout in raqim.toml ''))"
  using assms by (auto simp: load_or_bootstrap_def bootstrap_has_no_sections)

definition no_args :: cli_args where
  "no_args = \<lparr>ca_topic = None, ca_wal_path = None, ca_witnes_path = None, ca_lance_path = None,
     ca_aegis_path = None, ca_node_public_key_hex = None, ca_embedder_type = None, ca_openai_api_key = None,
     ca_tenant_id = None, ca_license_key = None, ca_dims = None, ca_limit = None, ca_port = None\<rparr>"

lemma bootstrapped_config_is_refused_witness:
  "\<exists>T src. snd (load_or_bootstrap T True no_args Absent) = Inr (override_config no_args default_config)
     \<and> fst (load_or_bootstrap T True no_args Absent) = src
     \<and> load_or_bootstrap T True no_args src =
         (src, Inl (Panic ''[FATAL] Invalid TOML structural layout in raqim.toml ''))"
proof -
  let ?T = "\<lparr>tc_parse = \<lambda>s. if s = ''c'' then Some (config_doc default_config) else None, tc_print = \<lambda>d. ''c''\<rparr>"
  obtain src r where l: "load_or_bootstrap ?T True no_args Absent = (src, r)" by fastforce
  from bootstrapped_config_is_refused [OF _ l, of True no_args] l
  show ?thesis by (intro exI [of _ ?T] exI [of _ src]) simp
qed

text \<open>
  A file with the sections loads, whatever it leaves out of the optional settings and whatever
  other keys it has; the arguments win over the file and the file over the defaults.
\<close>

theorem sectioned_file_loads:
  assumes "tc_parse T content = Some d"
    and "map_of d ''daemon'' = Some (Toml_Table da)" and "map_of d ''storage'' = Some (Toml_Table sg)"
    and "map_of d ''identity'' = Some (Toml_Table ident)"
    and "\<And>k. k \<in> {''topic'', ''wal_path'', ''witness_path'', ''aegis_path''} \<Longrightarrow> map_of da k = Some (Toml_String (val k))"
    and "\<And>k. k \<in> {''port'', ''dims'', ''limit'', ''embedder_type''} \<Longrightarrow> map_of da k = None"
    and "\<And>k. k \<in> {''lance_path'', ''table_name''} \<Longrightarrow> map_of sg k = Some (Toml_String (val k))"
    and "\<And>k. k \<in> {''tenant_id'', ''node_pub_key_hex'', ''license_key''} \<Longrightarrow> map_of ident k = Some (Toml_String (val k))"
    and "map_of ident ''openai_api_key'' = None"
  shows "\<exists>c. load_or_bootstrap T ok args (Content content) = (Content content, Inr c)
     \<and> cf_topic c = unwrap_or (ca_topic args) (val ''topic'') \<and> cf_wal_path c = unwrap_or (ca_wal_path args) (val ''wal_path'')
     \<and> cf_tenant_id c = unwrap_or (ca_tenant_id args) (val ''tenant_id'') \<and> cf_table_name c = val ''table_name''
     \<and> cf_port c = unwrap_or (ca_port args) 8080 \<and> cf_dims c = unwrap_or (ca_dims args) 384
     \<and> cf_embedder_type c = unwrap_or (ca_embedder_type args) ''bge'' \<and> cf_limit c = unwrap_or (ca_limit args) 5"
proof -
  have m: "map_of da ''topic'' = Some (Toml_String (val ''topic''))"
    "map_of da ''wal_path'' = Some (Toml_String (val ''wal_path''))"
    "map_of da ''witness_path'' = Some (Toml_String (val ''witness_path''))"
    "map_of da ''aegis_path'' = Some (Toml_String (val ''aegis_path''))"
    "map_of da ''port'' = None" "map_of da ''dims'' = None" "map_of da ''limit'' = None"
    "map_of da ''embedder_type'' = None"
    "map_of sg ''lance_path'' = Some (Toml_String (val ''lance_path''))"
    "map_of sg ''table_name'' = Some (Toml_String (val ''table_name''))"
    "map_of ident ''tenant_id'' = Some (Toml_String (val ''tenant_id''))"
    "map_of ident ''node_pub_key_hex'' = Some (Toml_String (val ''node_pub_key_hex''))"
    "map_of ident ''license_key'' = Some (Toml_String (val ''license_key''))"
    by (rule assms(5-8), simp)+
  show ?thesis
    by (simp add: load_or_bootstrap_def read_proxy_def read_daemon_def read_storage_def read_identity_def
        req_def opt_def m assms(1-4,9) config_of_proxy_def Let_def override_config_fields)
qed

text \<open>The file raqim.toml of the repository is such a file.\<close>

definition shipped_doc :: toml_doc where
  "shipped_doc =
     [(''daemon'', Toml_Table [(''topic'', Toml_String ''seige_swarm_mesh''), (''wal_path'', Toml_String ''production.wal''),
        (''witness_path'', Toml_String ''witness.json''), (''aegis_path'', Toml_String ''aegis.toml'')]),
      (''storage'', Toml_Table [(''lance_path'', Toml_String ''./production_semantic.lancedb''),
        (''table_name'', Toml_String ''agent_history'')]),
      (''identity'', Toml_Table [(''tenant_id'', Toml_String ''tenant_unilorin_optometry_01''),
        (''node_pub_key_hex'', Toml_String ''f9a2''), (''license_key'', Toml_String ''k'')])]"

lemma sectioned_file_loads_witness:
  "\<exists>T c. load_or_bootstrap T True no_args (Content ''f'') = (Content ''f'', Inr c) \<and> cf_port c = 8080
     \<and> cf_tenant_id c = ''tenant_unilorin_optometry_01''"
proof -
  let ?T = "\<lparr>tc_parse = \<lambda>s. Some shipped_doc, tc_print = \<lambda>d. []\<rparr>"
  let ?tab = "\<lambda>n. the (as_table (the (map_of shipped_doc n)))"
  let ?val = "\<lambda>k. the (as_string (the (map_of (?tab ''daemon'' @ ?tab ''storage'' @ ?tab ''identity'') k)))"
  have "\<exists>c. load_or_bootstrap ?T True no_args (Content ''f'') = (Content ''f'', Inr c)
     \<and> cf_topic c = unwrap_or (ca_topic no_args) (?val ''topic'') \<and> cf_wal_path c = unwrap_or (ca_wal_path no_args) (?val ''wal_path'')
     \<and> cf_tenant_id c = unwrap_or (ca_tenant_id no_args) (?val ''tenant_id'') \<and> cf_table_name c = ?val ''table_name''
     \<and> cf_port c = unwrap_or (ca_port no_args) 8080 \<and> cf_dims c = unwrap_or (ca_dims no_args) 384
     \<and> cf_embedder_type c = unwrap_or (ca_embedder_type no_args) ''bge'' \<and> cf_limit c = unwrap_or (ca_limit no_args) 5"
    by (rule sectioned_file_loads [where d = shipped_doc and da = "?tab ''daemon''" and sg = "?tab ''storage''"
          and ident = "?tab ''identity''" and val = ?val])
      (auto simp: shipped_doc_def)
  then show ?thesis by (intro exI [of _ ?T]) (auto simp: no_args_def shipped_doc_def)
qed

end
