(* ===== verification/Orchestrator.thy ===== *)
theory Orchestrator
  imports Config Boot Memory_Router Witness
begin

text \<open>
  What src/raqim-core/src/main.rs does around the engines: the master key of the swarm, the choice
  of the embedder, the port of the control plane, and the orchestrator that watches the plugin
  directory, deploys certified plugins into cells and moves their files into the archive from
  which the memory router resurrects them. The directories are association lists from file name
  to content, the faults of the file system are arguments.
\<close>

section \<open>The master key of the swarm\<close>

record key_io =
  ki_dir_ok :: bool
  ki_write_ok :: bool
  ki_permissions_ok :: bool
  ki_read_ok :: bool

definition key_io_ok :: key_io where
  "key_io_ok = \<lparr>ki_dir_ok = True, ki_write_ok = True, ki_permissions_ok = True, ki_read_ok = True\<rparr>"

text \<open>\<open>fresh\<close> is what the random source gives on the first boot; the result carries the key file.\<close>

definition load_master_key :: "key_io \<Rightarrow> bytes \<Rightarrow> bytes option \<Rightarrow> bytes option \<times> bytes res" where
  "load_master_key io fresh key_file =
     (case (case key_file of
              Some b \<Rightarrow> (key_file, None)
            | None \<Rightarrow>
                if \<not> ki_dir_ok io then (None, Some ''Failed to create keys directory'')
                else if \<not> ki_write_ok io then (None, Some ''Failed to write Master Key'')
                else if \<not> ki_permissions_ok io then (Some fresh, Some ''Failed to secure Master Key Permissions'')
                else (Some fresh, None)) of
        (f, Some msg) \<Rightarrow> (f, Inl (Panic msg))
      | (None, None) \<Rightarrow> (None, Inl (Panic ''FATAL: Failed to read master_key from disk''))
      | (Some b, None) \<Rightarrow>
          if \<not> ki_read_ok io then (Some b, Inl (Panic ''FATAL: Failed to read master_key from disk''))
          else if length b \<noteq> 32 then
            (Some b, Inl (Panic ''FATAL: Master key bytes is corruped (not 32 bytes)''))
          else (Some b, Inr b))"

lemma load_master_key_stable:
  assumes "load_master_key io fresh f = (f', Inr k)"
  shows "f' = Some k \<and> length k = 32 \<and> load_master_key key_io_ok other f' = (f', Inr k)"
  using assms by (auto simp: load_master_key_def key_io_ok_def split: option.splits if_splits)

text \<open>
  C17. Certificates survive a restart: a certificate minted by a node opens a session for its agent
  on the firewall of every later boot of the same key directory, whatever the random source
  gives then, until it expires.
\<close>

theorem certificates_survive_a_restart:
  assumes "ed_ok E" and "hex_ok E" and "postcard_ok E"
    and "load_master_key io fresh f = (f', Inr master)" and "load_master_key key_io_ok other f' = (f'', Inr master')"
    and "ag_master ag = x_ed_public E master'" and "\<not> is_quarantined ag (x_hex_encode E (derive_agent_id E pub))"
    and "now \<le> minted_at + 365 * 24 * 60 * 60"
    and "x_hex_decode E (handle_ca_mint E master minted_at (x_hex_encode E (derive_agent_id E pub)) grp) = Some cert"
  shows "verify_session_lineage E now ag cert pub = (ag, Inr (x_hex_encode E (derive_agent_id E pub), grp))"
proof -
  have "master' = master" using load_master_key_stable [OF assms(4), of other] assms(5) by simp
  then show ?thesis using minted_certificate_session [OF assms(1-3) _ refl assms(7-9)] assms(6) by simp
qed

section \<open>Embedder and port\<close>

datatype embedder_choice = Openai_Provider string | Local_Bge_Provider

definition select_embedder :: "string option \<Rightarrow> raqim_config \<Rightarrow> embedder_choice res" where
  "select_embedder env_key c =
     (if cf_embedder_type c = ''openai'' then
        (let key = unwrap_or env_key (cf_openai_api_key c) in
         if key = [] then Inl (Panic ''OPENAI_API_KEY environment variable or config entry is required'')
         else Inr (Openai_Provider key))
      else Inr Local_Bge_Provider)"

text \<open>The control plane listens one port above the ingress; the sum wraps in 16 bits.\<close>

definition api_port :: "raqim_config \<Rightarrow> u16" where
  "api_port c = cf_port c + 1"

section \<open>Plugins\<close>

text \<open>\<open>Path::file_stem\<close> and \<open>with_extension\<close> of a file that has an extension.\<close>

definition file_stem :: "string \<Rightarrow> string" where
  "file_stem name = rev (tl (dropWhile (\<lambda>c. c \<noteq> CHR ''.'') (rev name)))"

definition with_extension :: "string \<Rightarrow> string \<Rightarrow> string" where
  "with_extension name e = file_stem name @ ''.'' @ e"

definition archive_name :: "string \<Rightarrow> string \<Rightarrow> string" where
  "archive_name hex e = hex @ ''.'' @ e @ ''.running''"

record 'd plugin_job =
  pj_wasm :: bytes
  pj_cell :: "'d sandbox"
  pj_tracker :: checkpoint_tracker
  pj_tx :: u128

record 'd orchestrator =
  or_plugins :: "(string \<times> bytes) list"
  or_archive :: "(string \<times> bytes) list"
  or_trackers :: "(string \<times> checkpoint_tracker) list"
  or_bus :: "system_event list"
  or_jobs :: "'d plugin_job list"
  or_alive :: bool

text \<open>Which files can be read and which can be moved; a file that cannot be read panics the task.\<close>

record orchestrator_io =
  oi_read_ok :: "string \<Rightarrow> bool"
  oi_rename_ok :: "string \<Rightarrow> bool"

definition rename_file :: "orchestrator_io \<Rightarrow> string \<Rightarrow> string \<Rightarrow> 'd orchestrator \<Rightarrow> 'd orchestrator" where
  "rename_file io src dst st =
     (case map_of (or_plugins st) src of
        None \<Rightarrow> st
      | Some b \<Rightarrow>
          if oi_rename_ok io src
          then st\<lparr>or_plugins := AList.delete src (or_plugins st), or_archive := AList.update dst b (or_archive st)\<rparr>
          else st)"

definition blank_tracker :: checkpoint_tracker where
  "blank_tracker = \<lparr>ct_last_tx = 0, ct_last_time = 0\<rparr>"

text \<open>The entry of the table is created when it is missing; the run gets a copy of it.\<close>

definition take_tracker ::
  "(string \<times> checkpoint_tracker) list \<Rightarrow> string \<Rightarrow> (string \<times> checkpoint_tracker) list \<times> checkpoint_tracker" where
  "take_tracker tab hex =
     (case map_of tab hex of
        None \<Rightarrow> (AList.update hex blank_tracker tab, blank_tracker)
      | Some t \<Rightarrow> (tab, t))"

definition plugin_cell :: "'d node \<Rightarrow> string \<Rightarrow> bytes \<Rightarrow> bytes \<Rightarrow> 'd sandbox" where
  "plugin_cell nd agent_hex key cert =
     \<lparr>sb_node = nd, sb_agent_hex = agent_hex, sb_private_key = key, sb_cert = cert,
      sb_live_seeds = [], sb_live_responses = [], sb_live_timestamps = [], sb_replay_seeds = [],
      sb_replay_responses = [], sb_replay_timestamps = [], sb_incoming_cache = [],
      sb_response_cache = [], sb_http_cache = [], sb_receiver = False, sb_reply_channel = None,
      sb_replies = [], sb_jobs = [], sb_mem = []\<rparr>"

definition plugin_identity :: "ext \<Rightarrow> bytes \<Rightarrow> string" where
  "plugin_identity E key = x_hex_encode E (derive_agent_id E (x_ed_public E key))"

text \<open>
  One entry of the directory: skipped without the extension, the two credentials or a whole key;
  otherwise deployed into a cell of its own and moved into the archive.
\<close>

definition deploy_plugin ::
  "ext \<Rightarrow> orchestrator_io \<Rightarrow> 'd node \<Rightarrow> 'd orchestrator \<Rightarrow> string \<times> u128 \<Rightarrow> 'd orchestrator" where
  "deploy_plugin E io nd st entry =
     (let (name, current_tx) = entry;
          key_name = with_extension name ''key''; cert_name = with_extension name ''cert'';
          dead = st\<lparr>or_alive := False\<rparr>
      in if \<not> or_alive st \<or> path_extension name \<noteq> Some ''wasm'' then st
         else if \<not> utf8_valid (as_bytes (file_stem name)) then dead
         else
           (case (map_of (or_plugins st) key_name, map_of (or_plugins st) cert_name) of
              (Some private_key, Some cert) \<Rightarrow>
                (case map_of (or_plugins st) name of
                   None \<Rightarrow> dead
                 | Some wasm \<Rightarrow>
                     if \<not> (oi_read_ok io name \<and> oi_read_ok io key_name \<and> oi_read_ok io cert_name) then dead
                     else if length private_key \<noteq> 32 then st
                     else
                       (let agent_hex = plugin_identity E private_key;
                            (trackers, tracker) = take_tracker (or_trackers st) agent_hex;
                            st1 = st\<lparr>or_bus := or_bus st @ [PluginLoaded name], or_trackers := trackers,
                                    or_jobs := or_jobs st @
                                      [\<lparr>pj_wasm = wasm, pj_cell = plugin_cell nd agent_hex private_key cert,
                                        pj_tracker = tracker, pj_tx = current_tx\<rparr>]\<rparr>
                        in rename_file io name (archive_name agent_hex ''wasm'')
                             (rename_file io cert_name (archive_name agent_hex ''cert'')
                               (rename_file io key_name (archive_name agent_hex ''key'') st1))))
            | _ \<Rightarrow> st))"

text \<open>One tick of the interval: the entries the directory lists, each with the id drawn for it.\<close>

definition orchestrator_tick ::
  "ext \<Rightarrow> orchestrator_io \<Rightarrow> 'd node \<Rightarrow> 'd orchestrator \<Rightarrow> (string \<times> u128) list \<Rightarrow> 'd orchestrator" where
  "orchestrator_tick E io nd st entries = foldl (deploy_plugin E io nd) st entries"

section \<open>Names\<close>

lemma with_extension_inj [simp]: "with_extension name e = with_extension name f \<longleftrightarrow> e = f"
  by (simp add: with_extension_def)

lemma name_of_extension: "path_extension name = Some e \<Longrightarrow> name = with_extension name e"
proof -
  assume a: "path_extension name = Some e"
  let ?p = "\<lambda>c. c \<noteq> CHR ''.''"
  have nonempty: "dropWhile ?p (rev name) \<noteq> []" and e: "e = rev (takeWhile ?p (rev name))"
    using a by (auto simp: path_extension_def Let_def split: if_splits)
  have "hd (dropWhile ?p (rev name)) = CHR ''.''" using hd_dropWhile [OF nonempty] by simp
  then have "dropWhile ?p (rev name) = CHR ''.'' # tl (dropWhile ?p (rev name))"
    using nonempty by (metis list.collapse)
  then have "rev name = takeWhile ?p (rev name) @ CHR ''.'' # tl (dropWhile ?p (rev name))"
    by (metis takeWhile_dropWhile_id)
  then have "name = rev (tl (dropWhile ?p (rev name))) @ CHR ''.'' # rev (takeWhile ?p (rev name))"
    by (metis rev_append rev_rev_ident rev.simps(2) append_Cons append_Nil append_assoc)
  then show ?thesis using e by (simp add: with_extension_def file_stem_def)
qed

lemma archive_name_inj [simp]: "archive_name hex e = archive_name hex f \<longleftrightarrow> e = f"
  by (simp add: archive_name_def)

section \<open>A deployed plugin\<close>

text \<open>What a directory entry needs to be deployed.\<close>

definition deployable :: "'d orchestrator \<Rightarrow> string \<Rightarrow> bool" where
  "deployable st name \<longleftrightarrow> path_extension name = Some ''wasm'' \<and> map_of (or_plugins st) name \<noteq> None
     \<and> (\<exists>key. map_of (or_plugins st) (with_extension name ''key'') = Some key \<and> length key = 32)
     \<and> map_of (or_plugins st) (with_extension name ''cert'') \<noteq> None"

definition io_all_ok :: orchestrator_io where
  "io_all_ok = \<lparr>oi_read_ok = \<lambda>_. True, oi_rename_ok = \<lambda>_. True\<rparr>"

lemma rename_file_simps [simp]:
  "or_trackers (rename_file io a b st) = or_trackers st" "or_bus (rename_file io a b st) = or_bus st"
  "or_jobs (rename_file io a b st) = or_jobs st" "or_alive (rename_file io a b st) = or_alive st"
  by (simp_all add: rename_file_def split: option.split)

lemma rename_file_ok:
  assumes "map_of (or_plugins st) a = Some b" and "oi_rename_ok io a"
  shows "map_of (or_plugins (rename_file io a d st)) = (map_of (or_plugins st))(a := None)"
    and "map_of (or_archive (rename_file io a d st)) = (map_of (or_archive st))(d \<mapsto> b)"
  using assms by (simp_all add: rename_file_def delete_conv' update_conv')

text \<open>The directory only loses files in a tick.\<close>

lemma rename_file_shrinks: "map_of (or_plugins (rename_file io a d st)) n \<in> {map_of (or_plugins st) n, None}"
  by (simp add: rename_file_def delete_conv' split: option.split)

lemma deploy_shrinks: "map_of (or_plugins (deploy_plugin E io nd st entry)) n \<in> {map_of (or_plugins st) n, None}"
proof -
  have r: "map_of (or_plugins (rename_file io a d s)) n = x \<Longrightarrow> x \<noteq> None \<Longrightarrow> map_of (or_plugins s) n = x" for a d x and s :: "'a orchestrator"
    using rename_file_shrinks [of io a d s n] by auto
  show ?thesis
    by (cases "map_of (or_plugins (deploy_plugin E io nd st entry)) n")
      (auto simp: deploy_plugin_def Let_def split: if_splits option.splits prod.splits dest!: r)
qed

lemma deploy_not_deployable:
  "\<not> deployable st n \<Longrightarrow> \<not> deployable (deploy_plugin E io nd st entry) n"
  using deploy_shrinks [of E io nd st entry n] deploy_shrinks [of E io nd st entry "with_extension n ''key''"]
    deploy_shrinks [of E io nd st entry "with_extension n ''cert''"]
  by (auto simp: deployable_def)

lemma tick_not_deployable:
  "\<not> deployable st n \<Longrightarrow> \<not> deployable (orchestrator_tick E io nd st entries) n"
  by (induction entries arbitrary: st) (auto simp: orchestrator_tick_def deploy_not_deployable)

lemma deploy_dead: "\<not> or_alive st \<Longrightarrow> deploy_plugin E io nd st entry = st"
  by (simp add: deploy_plugin_def Let_def split: prod.split)

lemma tick_dead: "\<not> or_alive st \<Longrightarrow> orchestrator_tick E io nd st entries = st"
  by (induction entries) (simp_all add: orchestrator_tick_def deploy_dead)

lemma deploy_skips:
  "\<not> deployable st (fst entry) \<Longrightarrow> or_jobs (deploy_plugin E io nd st entry) = or_jobs st"
  by (auto simp: deploy_plugin_def deployable_def Let_def split: prod.splits option.splits)

lemma deploy_moves:
  assumes "or_alive st" and "path_extension name = Some ''wasm''" and "utf8_valid (as_bytes (file_stem name))"
    and "map_of (or_plugins st) name = Some wasm" and "map_of (or_plugins st) (with_extension name ''key'') = Some key"
    and "map_of (or_plugins st) (with_extension name ''cert'') = Some cert" and "length key = 32"
    and "oi_read_ok io = (\<lambda>_. True)" and "oi_rename_ok io = (\<lambda>_. True)"
    and "deploy_plugin E io nd st (name, tx) = st'" and "hex = plugin_identity E key"
  shows "or_alive st'" and "map_of (or_plugins st') name = None"
    and "map_of (or_plugins st') (with_extension name ''key'') = None"
    and "map_of (or_archive st') (archive_name hex ''key'') = Some key"
    and "map_of (or_archive st') (archive_name hex ''cert'') = Some cert"
    and "map_of (or_archive st') (archive_name hex ''wasm'') = Some wasm"
    and "or_jobs st' = or_jobs st @ [\<lparr>pj_wasm = wasm, pj_cell = plugin_cell nd hex key cert,
           pj_tracker = snd (take_tracker (or_trackers st) hex), pj_tx = tx\<rparr>]"
    and "or_bus st' = or_bus st @ [PluginLoaded name]"
proof -
  have n: "with_extension name ''wasm'' = name" using name_of_extension [OF assms(2)] by simp
  have ne: "name \<noteq> with_extension name ''key''" "name \<noteq> with_extension name ''cert''"
    using with_extension_inj [of name "''wasm''"] n by auto
  obtain tr t where t: "take_tracker (or_trackers st) hex = (tr, t)" by fastforce
  let ?st1 = "st\<lparr>or_bus := or_bus st @ [PluginLoaded name], or_trackers := tr,
      or_jobs := or_jobs st @ [\<lparr>pj_wasm = wasm, pj_cell = plugin_cell nd hex key cert, pj_tracker = t, pj_tx = tx\<rparr>]\<rparr>"
  let ?st2 = "rename_file io (with_extension name ''key'') (archive_name hex ''key'') ?st1"
  let ?st3 = "rename_file io (with_extension name ''cert'') (archive_name hex ''cert'') ?st2"
  have st': "st' = rename_file io name (archive_name hex ''wasm'') ?st3"
    using assms(1-9,11) t by (simp add: assms(10) [symmetric] deploy_plugin_def Let_def)
  have p2: "map_of (or_plugins ?st2) = (map_of (or_plugins st))(with_extension name ''key'' := None)"
    "map_of (or_archive ?st2) = (map_of (or_archive st))(archive_name hex ''key'' \<mapsto> key)"
    using rename_file_ok [of ?st1 "with_extension name ''key''" key io] assms(5,9) by simp_all
  have p3: "map_of (or_plugins ?st3) = (map_of (or_plugins ?st2))(with_extension name ''cert'' := None)"
    "map_of (or_archive ?st3) = (map_of (or_archive ?st2))(archive_name hex ''cert'' \<mapsto> cert)"
    using rename_file_ok [of ?st2 "with_extension name ''cert''" cert io] assms(6,9) p2 by simp_all
  have p4: "map_of (or_plugins st') = (map_of (or_plugins ?st3))(name := None)"
    "map_of (or_archive st') = (map_of (or_archive ?st3))(archive_name hex ''wasm'' \<mapsto> wasm)"
    using rename_file_ok [of ?st3 name wasm io] assms(4,9) p2 p3 ne st' by simp_all
  show "or_alive st'" "map_of (or_plugins st') name = None"
    "map_of (or_plugins st') (with_extension name ''key'') = None"
    "map_of (or_archive st') (archive_name hex ''key'') = Some key"
    "map_of (or_archive st') (archive_name hex ''cert'') = Some cert"
    "map_of (or_archive st') (archive_name hex ''wasm'') = Some wasm"
    using p2 p3 p4 assms(1) by (simp_all add: st')
  show "or_jobs st' = or_jobs st @ [\<lparr>pj_wasm = wasm, pj_cell = plugin_cell nd hex key cert,
           pj_tracker = snd (take_tracker (or_trackers st) hex), pj_tx = tx\<rparr>]"
    and "or_bus st' = or_bus st @ [PluginLoaded name]"
    using t by (simp_all add: st')
qed

text \<open>What the memory router reads of an agent from the archive.\<close>

definition vault_env :: "'d orchestrator \<Rightarrow> string \<Rightarrow> boot_env \<Rightarrow> boot_env" where
  "vault_env st hex env =
     env\<lparr>be_key := map_of (or_archive st) (archive_name hex ''key''),
         be_cert := map_of (or_archive st) (archive_name hex ''cert''),
         be_wasm := map_of (or_archive st) (archive_name hex ''wasm'')\<rparr>"


lemma deploy_once:
  assumes "or_alive (deploy_plugin E io nd st (name, tx))" and "oi_read_ok io = (\<lambda>_. True)"
    and "oi_rename_ok io = (\<lambda>_. True)"
  shows "\<not> deployable (deploy_plugin E io nd st (name, tx)) name"
proof (cases "deployable st name")
  case True
  then obtain wasm key cert where f: "path_extension name = Some ''wasm''" "map_of (or_plugins st) name = Some wasm"
    "map_of (or_plugins st) (with_extension name ''key'') = Some key"
    "map_of (or_plugins st) (with_extension name ''cert'') = Some cert" "length key = 32"
    by (auto simp: deployable_def)
  have a: "or_alive st" using assms(1) by (cases "or_alive st") (simp_all add: deploy_dead)
  have u: "utf8_valid (as_bytes (file_stem name))"
    using assms(1) a f(1) by (cases "utf8_valid (as_bytes (file_stem name))") (simp_all add: deploy_plugin_def)
  show ?thesis using deploy_moves(2) [OF a f(1) u f(2-5) assms(2,3) refl refl] by (simp add: deployable_def)
qed (rule deploy_not_deployable)

lemma tick_alive_before: "or_alive (orchestrator_tick E io nd st entries) \<Longrightarrow> or_alive st"
  using tick_dead [of st] by fastforce

lemma tick_clears:
  assumes "or_alive (orchestrator_tick E io nd st entries)" and "oi_read_ok io = (\<lambda>_. True)"
    and "oi_rename_ok io = (\<lambda>_. True)" and "n \<in> fst ` set entries"
  shows "\<not> deployable (orchestrator_tick E io nd st entries) n"
  using assms(1,4)
proof (induction entries arbitrary: st)
  case (Cons e entries)
  let ?st = "deploy_plugin E io nd st e"
  have r: "orchestrator_tick E io nd st (e # entries) = orchestrator_tick E io nd ?st entries"
    by (simp add: orchestrator_tick_def)
  have a: "or_alive ?st" using Cons.prems(1) tick_alive_before r by metis
  show ?case
  proof (cases "n = fst e")
    case True
    then have "\<not> deployable ?st n" using deploy_once [OF _ assms(2,3), of E nd st "fst e" "snd e"] a by simp
    then show ?thesis using tick_not_deployable r by metis
  next
    case False
    then show ?thesis using Cons r by simp
  qed
qed simp

lemma tick_idle: "\<forall>n \<in> fst ` set entries. \<not> deployable st n \<Longrightarrow> or_jobs (orchestrator_tick E io nd st entries) = or_jobs st"
proof (induction entries arbitrary: st)
  case (Cons e entries)
  have "or_jobs (orchestrator_tick E io nd (deploy_plugin E io nd st e) entries) = or_jobs (deploy_plugin E io nd st e)"
    using Cons by (simp add: deploy_not_deployable)
  then show ?case using Cons.prems by (simp add: orchestrator_tick_def deploy_skips)
qed (simp add: orchestrator_tick_def)

text \<open>
  C24. A plugin runs once: after a tick that went through, every file it listed is moved away or was
  refused, so later ticks over those files start no cell.
\<close>

theorem each_plugin_runs_once:
  assumes "or_alive (orchestrator_tick E io_all_ok nd st entries)"
    and "fst ` set later \<subseteq> fst ` set entries"
  shows "or_jobs (orchestrator_tick E io nd2 (orchestrator_tick E io_all_ok nd st entries) later)
     = or_jobs (orchestrator_tick E io_all_ok nd st entries)"
proof (rule tick_idle)
  have "\<not> deployable (orchestrator_tick E io_all_ok nd st entries) n" if "n \<in> fst ` set entries" for n
    by (rule tick_clears [OF assms(1) _ _ that]) (simp_all add: io_all_ok_def)
  then show "\<forall>n \<in> fst ` set later. \<not> deployable (orchestrator_tick E io_all_ok nd st entries) n"
    using assms(2) by blast
qed

section \<open>Trackers\<close>

definition trackers_blank :: "'d orchestrator \<Rightarrow> bool" where
  "trackers_blank st \<longleftrightarrow> (\<forall>t \<in> snd ` set (or_trackers st). t = blank_tracker)"

lemma take_tracker_blank:
  "\<forall>t \<in> snd ` set tab. t = blank_tracker \<Longrightarrow> take_tracker tab hex = (tab', t) \<Longrightarrow>
   t = blank_tracker \<and> (\<forall>t \<in> snd ` set tab'. t = blank_tracker)"
proof (cases "map_of tab hex")
  case None
  assume "\<forall>t \<in> snd ` set tab. t = blank_tracker" and "take_tracker tab hex = (tab', t)"
  moreover have "set (AList.update hex blank_tracker tab) \<subseteq> insert (hex, blank_tracker) (set tab)"
    by (induction tab) auto
  ultimately show ?thesis using None by (auto simp: take_tracker_def)
next
  case (Some t0)
  assume "\<forall>t \<in> snd ` set tab. t = blank_tracker" and "take_tracker tab hex = (tab', t)"
  then show ?thesis using Some map_of_SomeD [OF Some] by (force simp: take_tracker_def)
qed

lemma deploy_jobs_trackers:
  fixes st :: "'d orchestrator"
  defines "D \<equiv> deploy_plugin"
  shows "(or_jobs (D E io nd st entry) = or_jobs st \<and> or_trackers (D E io nd st entry) = or_trackers st)
     \<or> (\<exists>hex j. or_jobs (D E io nd st entry) = or_jobs st @ [j] \<and> pj_tracker j = snd (take_tracker (or_trackers st) hex)
          \<and> or_trackers (D E io nd st entry) = fst (take_tracker (or_trackers st) hex))"
  unfolding D_def
  by (auto simp: deploy_plugin_def Let_def case_prod_beta split: option.split)

lemma deploy_trackers:
  assumes "trackers_blank st"
  shows "trackers_blank (deploy_plugin E io nd st entry)
     \<and> (\<exists>js. or_jobs (deploy_plugin E io nd st entry) = or_jobs st @ js \<and> (\<forall>j \<in> set js. pj_tracker j = blank_tracker))"
  using deploy_jobs_trackers [of E io nd st entry]
proof (elim disjE exE conjE)
  fix hex and j :: "'a plugin_job"
  assume j: "or_jobs (deploy_plugin E io nd st entry) = or_jobs st @ [j]"
    "pj_tracker j = snd (take_tracker (or_trackers st) hex)"
    "or_trackers (deploy_plugin E io nd st entry) = fst (take_tracker (or_trackers st) hex)"
  have "snd (take_tracker (or_trackers st) hex) = blank_tracker
     \<and> (\<forall>t \<in> snd ` set (fst (take_tracker (or_trackers st) hex)). t = blank_tracker)"
    by (rule take_tracker_blank) (use assms in \<open>simp_all add: trackers_blank_def\<close>)
  then show ?thesis using j by (auto simp: trackers_blank_def)
qed (use assms in \<open>simp add: trackers_blank_def\<close>)

lemma tick_trackers:
  assumes "trackers_blank st"
  shows "trackers_blank (orchestrator_tick E io nd st entries)
     \<and> (\<exists>js. or_jobs (orchestrator_tick E io nd st entries) = or_jobs st @ js \<and> (\<forall>j \<in> set js. pj_tracker j = blank_tracker))"
  using assms
proof (induction entries arbitrary: st)
  case Nil
  then show ?case by (simp add: orchestrator_tick_def)
next
  case (Cons e entries)
  let ?st = "deploy_plugin E io nd st e"
  obtain js where js: "trackers_blank ?st" "or_jobs ?st = or_jobs st @ js" "\<forall>j \<in> set js. pj_tracker j = blank_tracker"
    using deploy_trackers [OF Cons.prems] by metis
  obtain js2 where js2: "trackers_blank (orchestrator_tick E io nd ?st entries)"
    "or_jobs (orchestrator_tick E io nd ?st entries) = or_jobs ?st @ js2" "\<forall>j \<in> set js2. pj_tracker j = blank_tracker"
    using Cons.IH [OF js(1)] by metis
  then show ?case using js by (auto simp: orchestrator_tick_def)
qed

text \<open>
  Trackers never advance: the run of a plugin works on a copy of its tracker, so the table keeps
  the blank entries it was given and every run of a plugin takes a checkpoint, however recent the
  last one of the agent is.
\<close>

theorem every_plugin_run_is_checkpointed:
  assumes "trackers_blank st" and "job \<in> set (or_jobs (orchestrator_tick E io nd st entries))" and "job \<notin> set (or_jobs st)"
    and "wa_module W (pj_wasm job)" and "wa_instantiate W engine_async (pj_wasm job) = Inr mem" and "86400 \<le> now"
    and "execute_agent W (pj_wasm job) (pj_cell job) (pj_tracker job) (pj_tx job) now None calls = (sb, tr, snapshot, r)"
  shows "snapshot = Some (ucast (pj_tx job), now, sb_agent_hex (pj_cell job), mem)
     \<and> trackers_blank (orchestrator_tick E io nd st entries)"
proof -
  have b: "pj_tracker job = blank_tracker" using tick_trackers [OF assms(1), of E io nd entries] assms(2,3) by auto
  have "time_threshold_met (pj_tracker job) now" using assms(6) by (simp add: b time_threshold_met_def blank_tracker_def)
  then show ?thesis
    using assms(4,5,7) tick_trackers [OF assms(1), of E io nd entries]
    by (auto simp: execute_agent_def checkpoint_def create_checkpoint_def Let_def split: if_splits prod.splits sum.splits rust_fail.splits)
qed

section \<open>A concrete directory\<close>

definition demo_plugins :: "'d orchestrator" where
  "demo_plugins =
     \<lparr>or_plugins = [(''p.wasm'', [7]), (''p.key'', zeros 32), (''p.cert'', [8])], or_archive = [],
      or_trackers = [], or_bus = [], or_jobs = [], or_alive = True\<rparr>"

lemma demo_plugin_names:
  "with_extension ''p.wasm'' e = ''p.'' @ e" "path_extension ''p.wasm'' = Some ''wasm''"
  "utf8_valid (as_bytes (file_stem ''p.wasm''))"
  by (simp_all add: with_extension_def file_stem_def path_extension_def as_bytes_def)

lemma demo_deployable: "deployable demo_plugins ''p.wasm''"
  by (simp add: deployable_def demo_plugin_names demo_plugins_def)

lemma demo_deploy_alive: "or_alive (deploy_plugin demo io_all_ok nd demo_plugins (''p.wasm'', 3))"
  using deploy_moves(1) [of demo_plugins "''p.wasm''" "[7]" "zeros 32" "[8]" io_all_ok demo nd 3] demo_plugin_names
  by (simp add: demo_plugins_def io_all_ok_def)


lemma each_plugin_runs_once_witness:
  "or_jobs (orchestrator_tick demo io_all_ok demo_node
       (orchestrator_tick demo io_all_ok demo_node demo_plugins [(''p.wasm'', 3)]) [(''p.wasm'', 4)])
     = or_jobs (orchestrator_tick demo io_all_ok demo_node demo_plugins [(''p.wasm'', 3)])"
  by (rule each_plugin_runs_once) (simp_all add: orchestrator_tick_def demo_deploy_alive)

lemma certificates_survive_a_restart_witness:
  "\<exists>f master' cert. load_master_key key_io_ok (zeros 32) None = (f, Inr (zeros 32))
     \<and> load_master_key key_io_ok [] f = (f, Inr master')
     \<and> verify_session_lineage demo 100 \<lparr>ag_policies = [], ag_quarantine = [], ag_master = x_ed_public demo master',
           ag_bus = [], ag_ui = []\<rparr> cert demo_agent_pub
         = (\<lparr>ag_policies = [], ag_quarantine = [], ag_master = x_ed_public demo master', ag_bus = [], ag_ui = []\<rparr>,
            Inr (x_hex_encode demo (derive_agent_id demo demo_agent_pub), ''g''))"
proof -
  let ?ag = "\<lparr>ag_policies = [], ag_quarantine = [], ag_master = x_ed_public demo (zeros 32), ag_bus = [], ag_ui = []\<rparr>"
  have k: "load_master_key key_io_ok (zeros 32) None = (Some (zeros 32), Inr (zeros 32))"
    "load_master_key key_io_ok [] (Some (zeros 32)) = (Some (zeros 32), Inr (zeros 32))"
    by (simp_all add: load_master_key_def key_io_ok_def)
  obtain cb where cb: "x_hex_decode demo (handle_ca_mint demo (zeros 32) 5
      (x_hex_encode demo (derive_agent_id demo demo_agent_pub)) ''g'') = Some cb"
    by (simp add: handle_ca_mint_def Let_def demo_hex_ok)
  have "verify_session_lineage demo 100 ?ag cb demo_agent_pub
      = (?ag, Inr (x_hex_encode demo (derive_agent_id demo demo_agent_pub), ''g''))"
    by (rule certificates_survive_a_restart [OF demo_ed_ok demo_hex_ok demo_postcard_ok k _ _ _ cb])
      (simp_all add: is_quarantined_def)
  then show ?thesis using k by blast
qed

end
