(* ===== verification/Cli.thy ===== *)
theory Cli
  imports Control_Plane Orchestrator
begin

text \<open>
  The operator's command line, src/raqim-cli/src/main.rs: the requests its commands send to the
  control plane, the forging of agent identities and what it prints of the replies. Files are an
  association list from path to content; the replies of the daemon are arguments. The lemmas
  follow the requests into the route table of the daemon and the forged files into its plugin
  directory.
\<close>

section \<open>Commands and their requests\<close>

datatype command =
    Keys_Forge string string nat string string
  | Aegis_List
  | Aegis_Lift string
  | Travel string u64 "json option"
  | Show_Info
  | Show_Topology

text \<open>
  The request of a command; the forge sends one per agent, with the identity it derived. The
  fork configuration replaces the null of the template.
\<close>

definition mint_request :: "string \<Rightarrow> string \<Rightarrow> http_method \<times> string \<times> json option" where
  "mint_request agent_hex grp =
     (POST, ''/v1/admin/ca/mint'',
      Some (J_Object [(''agent_hex'', J_String agent_hex), (''group'', J_String grp)]))"

definition cli_request :: "command \<Rightarrow> (http_method \<times> string \<times> json option) option" where
  "cli_request c =
     (case c of
        Keys_Forge _ _ _ _ _ \<Rightarrow> None
      | Aegis_List \<Rightarrow> Some (GET, ''/v1/admin/quarantine'', None)
      | Aegis_Lift agent_id \<Rightarrow>
          Some (POST, ''/v1/admin/quarantine/lift'', Some (J_Object [(''agent_id'', J_String agent_id)]))
      | Travel agent_id tx_id fork \<Rightarrow>
          Some (POST, ''/v1/admin/time_travel'',
            Some (J_Object [(''agent_id'', J_String agent_id), (''target_tx_id'', J_Number (uint tx_id)),
                            (''fork_config'', case fork of None \<Rightarrow> J_Null | Some v \<Rightarrow> v)]))
      | Show_Info \<Rightarrow> Some (GET, ''/v1/admin/cluster/info'', None)
      | Show_Topology \<Rightarrow> Some (GET, ''/v1/admin/cluster/topology'', None))"

text \<open>
  Every command needs the licence key, from its argument or the environment; a request carries it
  in its header.
\<close>

definition get_auth :: "string option \<Rightarrow> string res" where
  "get_auth license_key =
     (case license_key of
        None \<Rightarrow> Inl (Panic ''FATAL: --license_key or RAQIM_LICENSE_KEY env variable required'')
      | Some k \<Rightarrow> Inr k)"

definition send_command ::
  "string option \<Rightarrow> command \<Rightarrow> ((http_method \<times> string \<times> json option) option \<times> (string \<times> string) list) res" where
  "send_command license_key c =
     and_then (get_auth license_key) (\<lambda>k. Inr (cli_request c, [(''Authorization'', ''Bearer '' @ k)]))"

text \<open>\<open>value[key]\<close> of serde_json: null when the value is not an object or has no such key.\<close>

definition json_index :: "json \<Rightarrow> string \<Rightarrow> json" where
  "json_index v key =
     (case json_object v of None \<Rightarrow> J_Null | Some kvs \<Rightarrow> (case map_of kvs key of None \<Rightarrow> J_Null | Some x \<Rightarrow> x))"

definition info_fields :: "json \<Rightarrow> json list" where
  "info_fields info =
     [json_index info ''node_id'', json_index info ''highest_tx_buffer'', json_index info ''buffer_load'',
      json_index info ''wal_bytes'']"

definition topology_fields :: "json \<Rightarrow> json list" where
  "topology_fields shard =
     [json_index shard ''namespace'', json_index shard ''active_timelines'', json_index shard ''memory_footprint'']"

text \<open>The bodies the daemon sends for these two commands.\<close>

definition info_json :: "string \<times> nat \<times> nat \<Rightarrow> json" where
  "info_json i =
     (let (node_id, wal_bytes, buffer_load) = i in
      J_Object [(''node_id'', J_String node_id), (''wal_bytes'', J_Number (int wal_bytes)),
                (''buffer_load'', J_Number (int buffer_load))])"

definition topology_json :: "string \<times> nat \<times> nat \<Rightarrow> json" where
  "topology_json s =
     (let (namespace, active_timelines, ops) = s in
      J_Object [(''namespace'', J_String namespace), (''active_timelines'', J_Number (int active_timelines)),
                (''total_crdt_operation'', J_Number (int ops))])"

section \<open>Forging identities\<close>

text \<open>\<open>format!("{}_{:02}", name, i)\<close> when more than one agent is asked for.\<close>

definition fmt_02 :: "nat \<Rightarrow> string" where
  "fmt_02 i = (if i < 10 then ''0'' @ fmt_nat i else fmt_nat i)"

definition agent_alias :: "string \<Rightarrow> nat \<Rightarrow> nat \<Rightarrow> string" where
  "agent_alias name how_many i = (if 1 < how_many then name @ ''_'' @ fmt_02 i else name)"

text \<open>
  What one agent meets: the key drawn for it, and the reply to its mint request: a transport
  error, a refusal, or the hexadecimal certificate of a success.
\<close>

datatype mint_reply = Disrupted string | Refused nat | Minted string

type_synonym cli_disk = "(string \<times> bytes) list"

definition artifact :: "string \<Rightarrow> string \<Rightarrow> string \<Rightarrow> string" where
  "artifact out_dir alias e = out_dir @ ''/'' @ alias @ ''.'' @ e"

definition scaffold :: bytes where
  "scaffold = as_bytes ''// Raqim WASM Plugin Scaffold''"

definition write_bundle :: "string \<Rightarrow> string \<Rightarrow> string \<Rightarrow> bytes \<Rightarrow> bytes \<Rightarrow> cli_disk \<Rightarrow> cli_disk" where
  "write_bundle out_dir env alias key cert dk =
     (let dk1 = AList.update (artifact out_dir alias ''pem'') key dk;
          dk2 = AList.update (artifact out_dir alias ''cert'') cert dk1
      in if env = ''internal'' \<and> map_of dk2 (artifact out_dir alias ''wasm'') = None
         then AList.update (artifact out_dir alias ''wasm'') scaffold dk2 else dk2)"

definition forge_one ::
  "ext \<Rightarrow> string option \<Rightarrow> string \<Rightarrow> string \<Rightarrow> string \<Rightarrow> cli_disk \<times> nat \<Rightarrow> bytes \<times> mint_reply
   \<Rightarrow> (cli_disk \<times> nat) res" where
  "forge_one E lic out_dir env alias s draw =
     and_then (get_auth lic) (\<lambda>_.
     let (dk, success_count) = s; (key, reply) = draw in
      case reply of
        Disrupted e \<Rightarrow> Inr (dk, success_count)
      | Refused code \<Rightarrow> Inr (dk, success_count)
      | Minted cert_hex \<Rightarrow>
          (case x_hex_decode E cert_hex of
             None \<Rightarrow> Inl (Err ''invalid hexadecimal text'')
           | Some cert \<Rightarrow> Inr (write_bundle out_dir env alias key cert dk, success_count + 1)))"

text \<open>The loop over \<open>1..=count\<close>; an error of one agent ends the command.\<close>

fun forge_loop ::
  "ext \<Rightarrow> string option \<Rightarrow> string \<Rightarrow> nat \<Rightarrow> string \<Rightarrow> string \<Rightarrow> nat \<Rightarrow> cli_disk \<times> nat \<Rightarrow> (bytes \<times> mint_reply) list \<Rightarrow> (cli_disk \<times> nat) res" where
  "forge_loop E lic name how_many out_dir env i s [] = Inr s"
| "forge_loop E lic name how_many out_dir env i s (d # ds) =
     and_then (forge_one E lic out_dir env (agent_alias name how_many i) s d)
       (\<lambda>s'. forge_loop E lic name how_many out_dir env (i + 1) s' ds)"

definition forge ::
  "ext \<Rightarrow> string option \<Rightarrow> string \<Rightarrow> nat \<Rightarrow> string \<Rightarrow> string \<Rightarrow> cli_disk \<Rightarrow> (bytes \<times> mint_reply) list \<Rightarrow> (cli_disk \<times> nat) res" where
  "forge E lic name how_many out_dir env dk draws = forge_loop E lic name how_many out_dir env 1 (dk, 0) (take how_many draws)"

text \<open>The identity an agent's mint request carries.\<close>

definition forged_identity :: "ext \<Rightarrow> bytes \<Rightarrow> string" where
  "forged_identity E key = x_hex_encode E (derive_agent_id E (x_ed_public E key))"

section \<open>What the daemon makes of the requests\<close>

lemma cli_routes:
  "find_route ''/v1/admin/quarantine'' = None"
  "find_route ''/v1/admin/quarantine/lift'' = Some (POST, Lift_Quarantine)"
  "find_route ''/v1/admin/time_travel'' = Some (POST, Time_Travel)"
  "find_route ''/v1/admin/cluster/info'' = Some (GET, Cluster_Info)"
  "find_route ''/v1/admin/cluster/topology'' = Some (GET, Cluster_Topology)"
  "find_route ''/v1/admin/ca/mint'' = Some (POST, Ca_Mint)"
  by (simp_all add: find_route_def routes_def timeline_prefix_def)

lemma cli_bodies:
  "\<not> body_accepted Lift_Quarantine (Some (J_Object [(''agent_id'', v)]))"
  "\<not> body_accepted Time_Travel (Some (J_Object [(''agent_id'', v), (''target_tx_id'', t), (''fork_config'', f)]))"
  "body_accepted Cluster_Info None" "body_accepted Cluster_Topology None"
  by (simp_all add: body_accepted_def read_resurrect_def read_time_travel_def field_def)

lemma known_fate:
  "find_route path = None \<Longrightarrow> request_fate m path headers body = No_Route"
  "find_route path = Some (m, e) \<Longrightarrow> request_fate m path headers body =
     (if body_accepted e body then Reaches e else Unprocessable)"
  by (simp_all add: request_fate_def validated_identity_def)

text \<open>
  Half of the command line cannot work: the listing asks for a path without a route, and the
  bodies of lift and time travel name the agent by a key their requests do not have, so they are
  refused before a handler runs, with or without a fork configuration. The other commands reach
  their endpoints.
\<close>

theorem fate_of_the_commands:
  "cli_request c = Some (m, path, body) \<Longrightarrow>
   request_fate m path headers body =
     (case c of
        Aegis_List \<Rightarrow> No_Route
      | Aegis_Lift _ \<Rightarrow> Unprocessable
      | Travel _ _ _ \<Rightarrow> Unprocessable
      | Show_Info \<Rightarrow> Reaches Cluster_Info
      | Show_Topology \<Rightarrow> Reaches Cluster_Topology
      | Keys_Forge _ _ _ _ _ \<Rightarrow> No_Route)"
  by (cases c) (auto simp only: cli_request_def command.case option.inject prod.inject option.distinct
      known_fate(1) [OF cli_routes(1)] known_fate(2) [OF cli_routes(2)] known_fate(2) [OF cli_routes(3)]
      known_fate(2) [OF cli_routes(4)] known_fate(2) [OF cli_routes(5)] cli_bodies if_True if_False not_True_eq_False)

lemma fate_of_the_commands_witness:
  "request_fate POST ''/v1/admin/quarantine/lift'' [] (Some (J_Object [(''agent_id'', J_String ''0a'')])) = Unprocessable"
  using fate_of_the_commands [of "Aegis_Lift ''0a''"] by (simp add: cli_request_def)

lemma mint_request_served:
  "mint_request hex grp = (m, path, body) \<Longrightarrow>
   request_fate m path headers body = Reaches Ca_Mint \<and> Option.bind body read_mint = Some (hex, grp)"
  by (auto simp: mint_request_def known_fate(2) [OF cli_routes(6)] body_accepted_def read_mint_def field_def)

text \<open>Two of the printed figures are keys the replies do not have: they print as null.\<close>

lemma missing_figures:
  "info_fields (info_json i) ! 1 = J_Null" "topology_fields (topology_json s) ! 2 = J_Null"
  by (auto simp: info_fields_def info_json_def topology_fields_def topology_json_def json_index_def split: prod.split)

section \<open>What becomes of forged identities\<close>

text \<open>
  A forged identity is a session: when the daemon answers the mint request, the bundle on disk
  is a key and a certificate which opens a session for that key until it expires.
\<close>

theorem forged_identity_opens_a_session:
  assumes "ed_ok E" and "hex_ok E" and "postcard_ok E"
    and "forge E (Some lic) name 1 out_dir env dk
           [(key, Minted (handle_ca_mint E master minted_at (forged_identity E key) grp))] = Inr (dk', n)"
    and "ag_master ag = x_ed_public E master" and "\<not> is_quarantined ag (forged_identity E key)"
    and "now \<le> minted_at + 365 * 24 * 60 * 60"
  shows "n = 1 \<and> map_of dk' (artifact out_dir name ''pem'') = Some key
     \<and> (\<exists>cert. map_of dk' (artifact out_dir name ''cert'') = Some cert
          \<and> verify_session_lineage E now ag cert (x_ed_public E key) = (ag, Inr (forged_identity E key, grp)))"
proof -
  obtain cert where c: "x_hex_decode E (handle_ca_mint E master minted_at (forged_identity E key) grp) = Some cert"
    using assms(2) by (simp add: handle_ca_mint_def Let_def)
  have d: "dk' = write_bundle out_dir env name key cert dk" "n = 1"
    using assms(4) c by (simp_all add: forge_def forge_one_def get_auth_def agent_alias_def)
  have "verify_session_lineage E now ag cert (x_ed_public E key) = (ag, Inr (forged_identity E key, grp))"
    by (rule minted_certificate_session [OF assms(1-3,5) _ _ assms(7) c]) (simp_all add: forged_identity_def assms(6) [unfolded forged_identity_def])
  then show ?thesis by (auto simp: d write_bundle_def Let_def artifact_def update_conv')
qed

text \<open>The plugin directory of the daemon, read off the disk by path.\<close>

definition plugins_on_disk :: "cli_disk \<Rightarrow> 'd orchestrator \<Rightarrow> bool" where
  "plugins_on_disk dk st \<longleftrightarrow> (\<forall>n. map_of (or_plugins st) n = map_of dk (plugin_path n))"

lemma write_bundle_other:
  "p \<noteq> artifact d a ''pem'' \<Longrightarrow> p \<noteq> artifact d a ''cert'' \<Longrightarrow> p \<noteq> artifact d a ''wasm'' \<Longrightarrow>
   map_of (write_bundle d env a key cert dk) p = map_of dk p"
  by (simp add: write_bundle_def Let_def update_conv')

text \<open>
  A forged plugin is never deployed: the forge writes the private key as .pem, the orchestrator
  asks for .key, so the files of an internal agent forged into the plugin directory lie there
  through every tick unless a key of that name was there before.
\<close>

theorem forged_plugin_is_never_deployed:
  assumes "forge E (Some lic) name 1 ''./plugins'' ''internal'' dk [(key, Minted cert_hex)] = Inr (dk', n)"
    and "plugins_on_disk dk' st" and "map_of dk (plugin_path (name @ ''.key'')) = None"
  shows "or_jobs (orchestrator_tick E2 io nd st [(name @ ''.wasm'', tx)]) = or_jobs st"
proof -
  obtain cert where "dk' = write_bundle ''./plugins'' ''internal'' name key cert dk"
    using assms(1) by (auto simp: forge_def forge_one_def get_auth_def agent_alias_def split: option.splits)
  moreover have "plugin_path (name @ ''.key'') \<noteq> artifact ''./plugins'' name e" if "length e = 3 \<longrightarrow> e \<noteq> ''key''" for e
    using that by (auto simp: plugin_path_def artifact_def)
  ultimately have k: "map_of dk' (plugin_path (name @ ''.key'')) = None"
    using assms(3) by (simp add: write_bundle_other)
  have "\<not> deployable st (name @ ''.wasm'')"
  proof (cases "path_extension (name @ ''.wasm'') = Some ''wasm''")
    case True
    have "with_extension (name @ ''.wasm'') ''key'' = name @ ''.key''"
      by (simp add: with_extension_def file_stem_def)
    then show ?thesis using k assms(2) by (simp add: deployable_def plugins_on_disk_def)
  qed (simp add: deployable_def)
  then show ?thesis by (intro tick_idle) simp
qed

lemma forged_plugin_is_never_deployed_witness:
  "\<exists>dk' n. forge demo (Some ''k'') ''bot'' 1 ''./plugins'' ''internal'' [] [(zeros 32, Minted (x_hex_encode demo [8]))] = Inr (dk', n)
     \<and> or_jobs (orchestrator_tick demo io_all_ok demo_node
          \<lparr>or_plugins = [(''bot.pem'', zeros 32), (''bot.cert'', [8]), (''bot.wasm'', scaffold)], or_archive = [],
           or_trackers = [], or_bus = [], or_jobs = [], or_alive = True\<rparr> [(''bot'' @ ''.wasm'', 5)]) = []"
proof -
  obtain dk' n where f: "forge demo (Some ''k'') ''bot'' 1 ''./plugins'' ''internal'' [] [(zeros 32, Minted (x_hex_encode demo [8]))] = Inr (dk', n)"
    by (simp add: forge_def forge_one_def get_auth_def demo_hex_ok)
  have dk: "dk' = [(''./plugins/bot.pem'', zeros 32), (''./plugins/bot.cert'', [8]), (''./plugins/bot.wasm'', scaffold)]"
    using f by (simp add: forge_def forge_one_def get_auth_def demo_hex_ok agent_alias_def write_bundle_def artifact_def Let_def)
  let ?st = "\<lparr>or_plugins = [(''bot.pem'', zeros 32), (''bot.cert'', [8]), (''bot.wasm'', scaffold)], or_archive = [],
        or_trackers = [], or_bus = [], or_jobs = [], or_alive = True\<rparr>"
  have "plugins_on_disk dk' ?st"
    by (simp add: plugins_on_disk_def plugin_path_def dk split: if_split)
  from forged_plugin_is_never_deployed [OF f this, of demo io_all_ok demo_node 5] f show ?thesis by auto
qed

end
