(* ===== verification/Siege.thy ===== *)
theory Siege
  imports Cli Py_Client
begin

text \<open>
  The load generator, src/raqim-siege/src/main.rs and the copies of the wire structs in
  src/raqim-siege/src/lib.rs: the choice of the master key, the certified agents it forges, the
  frames its workers send and the barrier they start at. Keys, clocks and transaction ids are
  arguments, and so is the floating-point product that picks a percentile; the throughput and the mean
  of the report are floating-point figures of it and are left out. The
  lemmas show that the daemon takes the frames, and what a worker that cannot connect does to the
  whole run.
\<close>

section \<open>Credentials\<close>

definition total_rounds :: nat where
  "total_rounds = 500000"

definition concurrency :: nat where
  "concurrency = 32"

definition num_agents :: nat where
  "num_agents = 50"

definition rounds_per_worker :: nat where
  "rounds_per_worker = total_rounds div concurrency"

definition key_paths :: "string list" where
  "key_paths = [''./keys/master_private.pem'', ''./ca-keys/swarm_master.key'']"

text \<open>The first path that exists, can be read and holds 32 bytes; otherwise a fresh key is written.\<close>

fun first_master_key :: "(string \<Rightarrow> bytes option) \<Rightarrow> string list \<Rightarrow> bytes option" where
  "first_master_key files [] = None"
| "first_master_key files (p # ps) =
     (case files p of
        Some b \<Rightarrow> if length b = 32 then Some b else first_master_key files ps
      | None \<Rightarrow> first_master_key files ps)"

definition siege_master_key :: "bytes \<Rightarrow> (string \<Rightarrow> bytes option) \<Rightarrow> bytes \<times> (string \<Rightarrow> bytes option)" where
  "siege_master_key fresh files =
     (case first_master_key files key_paths of
        Some b \<Rightarrow> (b, files)
      | None \<Rightarrow> (fresh, files(''./keys/master_private.pem'' \<mapsto> fresh)))"

record virtual_agent =
  va_agent_id :: bytes
  va_core :: py_crypto_core
  va_namespace :: string

definition mint_virtual_agent :: "ext \<Rightarrow> bytes \<Rightarrow> bytes \<Rightarrow> nat \<Rightarrow> virtual_agent" where
  "mint_virtual_agent E master agent_key i =
     (let pub = x_ed_public E agent_key;
          agent_id = derive_agent_id E pub;
          cert = \<lparr>cc_agent_hex = x_hex_encode E agent_id, cc_group_name = ''admin_group'',
                  cc_expiration_timestamp = - 1, cc_master_signature = []\<rparr>;
          signed = cert\<lparr>cc_master_signature := x_ed_sign E master (x_cert_to E cert)\<rparr>
      in \<lparr>va_agent_id = agent_id,
          va_core = \<lparr>pc_signing_key = agent_key, pc_pub_key_bytes = pub, pc_capability_cert_bytes = x_cert_to E signed\<rparr>,
          va_namespace = ''/siege/shard_'' @ fmt_02 i\<rparr>)"

definition mint_fleet :: "ext \<Rightarrow> bytes \<Rightarrow> bytes list \<Rightarrow> virtual_agent list" where
  "mint_fleet E master keys = map (\<lambda>(i, k). mint_virtual_agent E master k i) (enumerate 0 (take num_agents keys))"

section \<open>The frames of a worker\<close>

definition siege_text :: "nat \<Rightarrow> nat \<Rightarrow> string" where
  "siege_text global_idx worker_id = ''Siege Payload #'' @ fmt_nat global_idx @ '' [Worker '' @ fmt_nat worker_id @ '']''"

definition siege_state :: "virtual_agent \<Rightarrow> u64 \<Rightarrow> u128 \<Rightarrow> nat \<Rightarrow> nat \<Rightarrow> agent_state" where
  "siege_state a now tx global_idx worker_id =
     \<lparr>st_agent_id = Some (va_agent_id a), st_transaction_id = tx, st_timestamp = now, st_status = Idle,
      st_text = siege_text global_idx worker_id, st_namespace = va_namespace a\<rparr>"

definition siege_frame ::
  "ext \<Rightarrow> virtual_agent list \<Rightarrow> nat \<Rightarrow> nat \<Rightarrow> u64 \<times> u128 \<Rightarrow> bytes" where
  "siege_frame E fleet worker_id round_idx draw =
     (let global_idx = worker_id * rounds_per_worker + round_idx;
          a = fleet ! (global_idx mod length fleet)
      in length_prefixed (x_ingress_to E (signed_envelope E (va_core a) (va_namespace a)
           (siege_state a (fst draw) (snd draw) global_idx worker_id))))"

text \<open>
  What a connected worker puts on its socket: one frame per round, stopping at the first write
  that fails; \<open>None\<close> is a write that fails.
\<close>

fun siege_stream ::
  "ext \<Rightarrow> virtual_agent list \<Rightarrow> nat \<Rightarrow> nat \<Rightarrow> (u64 \<times> u128) option list \<Rightarrow> bytes" where
  "siege_stream E fleet worker_id round_idx [] = []"
| "siege_stream E fleet worker_id round_idx (None # draws) = []"
| "siege_stream E fleet worker_id round_idx (Some d # draws) =
     siege_frame E fleet worker_id round_idx d @ siege_stream E fleet worker_id (round_idx + 1) draws"

text \<open>A certificate of the fleet opens a session at any time, for the group of the administrators.\<close>

lemma fleet_lineage:
  assumes "ed_ok E" and "postcard_ok E" and "a = mint_virtual_agent E master key i"
    and "ag_master ag = x_ed_public E master" and "\<not> is_quarantined ag (x_hex_encode E (va_agent_id a))"
  shows "verify_session_lineage E now ag (pc_capability_cert_bytes (va_core a)) (pc_pub_key_bytes (va_core a))
     = (ag, Inr (x_hex_encode E (va_agent_id a), ''admin_group''))"
proof -
  have "\<not> (- 1 :: u64) < now" using word_order.extremum [of now] by (simp add: not_less)
  then show ?thesis
    using assms ed_ok_simps(2,3) [OF assms(1)] postcard_ok_cert [OF assms(2)]
    by (simp add: verify_session_lineage_def mint_virtual_agent_def unsigned_cert_def Let_def)
qed

text \<open>
  The first frame of a worker is committed: signed with the key of the daemon's authority, it opens
  a session for ever, and when the administrators' policy admits the shard's path the daemon
  commits the thought for the agent that signed it.
\<close>

theorem siege_frame_is_committed:
  assumes "crdt_ok L" and "rkyv_ok E" and "ed_ok E" and "postcard_ok E"
    and "length keys = num_agents" and "fleet = mint_fleet E master keys" and "idx = (wid * rounds_per_worker + rnd) mod num_agents"
    and "ag_master (nd_aegis nd) = x_ed_public E master"
    and "\<not> is_quarantined (nd_aegis nd) (x_hex_encode E (va_agent_id (fleet ! idx)))"
    and "group_admits (fc_nanos ck) (nd_aegis nd) ''admin_group'' (va_namespace (fleet ! idx))"
    and "\<not> stale (fc_secs ck) now" and "va_agent_id (fleet ! idx) \<noteq> zeros 16"
    and "length (siege_frame E fleet wid rnd (now, tx)) \<le> max_frame"
  shows "\<exists>nd' log. tcp_connection E L nd tcp_session_new (siege_frame E fleet wid rnd (now, tx) @ rest) [ck] = (nd', Next_Frame)
     \<and> wal_queue (nd_wal nd') = wal_queue (nd_wal nd) @ [log]
     \<and> ol_agent_id log = va_agent_id (fleet ! idx) \<and> ol_namespace log = ''/siege/shard_'' @ fmt_02 idx
     \<and> st_text (ol_state log) = siege_text (wid * rounds_per_worker + rnd) wid"
proof -
  have len: "length fleet = num_agents" using assms(5,6) by (simp add: mint_fleet_def)
  have i: "idx < num_agents" using assms(7) by (simp add: num_agents_def)
  define a where "a = fleet ! idx"
  have a: "a = mint_virtual_agent E master (keys ! idx) idx"
    using i assms(5) by (simp add: a_def assms(6) mint_fleet_def nth_enumerate_eq)
  let ?st = "siege_state a now tx (wid * rounds_per_worker + rnd) wid"
  have f: "siege_frame E fleet wid rnd (now, tx) =
      length_prefixed (x_ingress_to E (signed_envelope E (va_core a) (va_namespace a) ?st))"
    using assms(7) len by (simp add: siege_frame_def a_def Let_def)
  have k: "pc_pub_key_bytes (va_core a) = x_ed_public E (pc_signing_key (va_core a))"
    and ns: "va_namespace a = ''/siege/shard_'' @ fmt_02 idx"
    by (simp_all add: a mint_virtual_agent_def Let_def)
  have n: "named_agent ?st (va_agent_id a)" using assms(12) by (simp add: named_agent_def siege_state_def a_def)
  have ln: "length (x_ingress_to E (signed_envelope E (va_core a) (va_namespace a) ?st)) \<le> max_frame"
    using assms(13) f by (simp add: length_prefixed_def)
  have v: "verify_session_lineage E (fc_secs ck) (nd_aegis nd) (pc_capability_cert_bytes (va_core a))
      (pc_pub_key_bytes (va_core a)) = (nd_aegis nd, Inr (x_hex_encode E (va_agent_id a), ''admin_group''))"
    by (rule fleet_lineage [OF assms(3,4) a assms(8)]) (use assms(9) in \<open>simp add: a_def\<close>)
  have "\<exists>nd' log. tcp_connection E L nd tcp_session_new
        (length_prefixed (x_ingress_to E (signed_envelope E (va_core a) (va_namespace a) ?st)) @ rest) [ck] = (nd', Next_Frame)
     \<and> wal_queue (nd_wal nd') = wal_queue (nd_wal nd) @ [log]
     \<and> ol_agent_id log = va_agent_id a \<and> ol_namespace log = st_namespace ?st \<and> st_text (ol_state log) = st_text ?st"
    by (rule signed_envelope_commits [OF assms(1-3) k v _ _ _ n ln])
      (use assms(10,11) ns in \<open>simp_all add: a_def siege_state_def\<close>)
  then show ?thesis using f ns by (simp add: siege_state_def a_def)
qed

text \<open>
  The session that first frame opened is bound to one key: the next round signs with the next
  agent of the fleet, so its frame is dropped with the connection, whatever it says.
\<close>

theorem second_round_drops_the_connection:
  assumes "rkyv_ok E" and "ts_established ss" and "ts_pub_key ss = pc_pub_key_bytes (va_core (fleet ! (g mod length fleet)))"
    and "g = wid * rounds_per_worker + rnd"
    and "pc_pub_key_bytes (va_core (fleet ! (Suc g mod length fleet))) \<noteq> pc_pub_key_bytes (va_core (fleet ! (g mod length fleet)))"
    and "length (siege_frame E fleet wid (Suc rnd) d) \<le> max_frame"
  shows "tcp_connection E L nd ss (siege_frame E fleet wid (Suc rnd) d @ rest) [ck] = (nd, Drop_Socket)"
proof -
  let ?a = "fleet ! (Suc g mod length fleet)"
  let ?env = "signed_envelope E (va_core ?a) (va_namespace ?a) (siege_state ?a (fst d) (snd d) (Suc g) wid)"
  have f: "siege_frame E fleet wid (Suc rnd) d = length_prefixed (x_ingress_to E ?env)"
    using assms(4) by (simp add: siege_frame_def Let_def)
  have "read_frame (siege_frame E fleet wid (Suc rnd) d @ rest) = Got_Frame (x_ingress_to E ?env) rest"
    unfolding f by (rule read_length_prefixed) (use assms(6) f in \<open>simp add: length_prefixed_def\<close>)
  moreover have "tcp_frame E L ck nd ss (x_ingress_to E ?env) = (nd, ss, Drop_Socket)"
    using assms(1-3,5) by (simp add: tcp_frame_def establish_def)
  ultimately show ?thesis by simp
qed

section \<open>The starting gate\<close>

text \<open>
  A worker connects or gives up, waits at the barrier, is released, and returns its samples; main
  waits at the same barrier, which opens when as many wait as it was made for.
\<close>

definition siege_address :: string where
  "siege_address = ''127.0.0::8080''"

datatype siege_worker = Connecting | At_Gate | Released | Returned nat

datatype siege_main = Spawning | Main_At_Gate | Timing

record siege =
  sg_workers :: "siege_worker list"
  sg_main :: siege_main

definition siege_start :: siege where
  "siege_start = \<lparr>sg_workers = replicate concurrency Connecting, sg_main = Spawning\<rparr>"

definition at_gate :: "siege \<Rightarrow> nat" where
  "at_gate s = length (filter (\<lambda>w. w = At_Gate) (sg_workers s)) + (if sg_main s = Main_At_Gate then 1 else 0)"

definition open_gate :: "siege \<Rightarrow> siege" where
  "open_gate s = s\<lparr>sg_workers := map (\<lambda>w. if w = At_Gate then Released else w) (sg_workers s),
     sg_main := (if sg_main s = Main_At_Gate then Timing else sg_main s)\<rparr>"

text \<open>\<open>connects i\<close> says whether worker \<open>i\<close> reaches the address.\<close>

inductive siege_step :: "(nat \<Rightarrow> bool) \<Rightarrow> siege \<Rightarrow> siege \<Rightarrow> bool" for connects where
  Connect: "i < length (sg_workers s) \<Longrightarrow> sg_workers s ! i = Connecting \<Longrightarrow> connects i \<Longrightarrow>
    siege_step connects s (s\<lparr>sg_workers := (sg_workers s)[i := At_Gate]\<rparr>)"
| Give_Up: "i < length (sg_workers s) \<Longrightarrow> sg_workers s ! i = Connecting \<Longrightarrow> \<not> connects i \<Longrightarrow>
    siege_step connects s (s\<lparr>sg_workers := (sg_workers s)[i := Returned 0]\<rparr>)"
| Main_Waits: "sg_main s = Spawning \<Longrightarrow> siege_step connects s (s\<lparr>sg_main := Main_At_Gate\<rparr>)"
| Open: "at_gate s = concurrency + 1 \<Longrightarrow> siege_step connects s (open_gate s)"
| Finish: "i < length (sg_workers s) \<Longrightarrow> sg_workers s ! i = Released \<Longrightarrow> k \<le> rounds_per_worker \<Longrightarrow>
    siege_step connects s (s\<lparr>sg_workers := (sg_workers s)[i := Returned k]\<rparr>)"

inductive siege_reachable :: "(nat \<Rightarrow> bool) \<Rightarrow> siege \<Rightarrow> bool" for connects where
  Siege_Start: "siege_reachable connects siege_start"
| Siege_Next: "siege_reachable connects s \<Longrightarrow> siege_step connects s s' \<Longrightarrow> siege_reachable connects s'"

definition gate_closed :: "nat \<Rightarrow> siege \<Rightarrow> bool" where
  "gate_closed i s \<longleftrightarrow> length (sg_workers s) = concurrency \<and> sg_workers s ! i \<in> {Connecting, Returned 0}
     \<and> Released \<notin> set (sg_workers s) \<and> sg_main s \<noteq> Timing"

lemma gate_short:
  assumes "gate_closed i s" and "i < concurrency"
  shows "at_gate s < concurrency + 1"
proof -
  have "length (filter (\<lambda>w. w = At_Gate) (sg_workers s)) < length (sg_workers s)"
    using assms by (intro length_filter_less [of "sg_workers s ! i"]) (auto simp: gate_closed_def)
  then show ?thesis using assms by (simp add: at_gate_def gate_closed_def)
qed

lemma gate_closed_step:
  assumes "siege_step connects s s'" and "gate_closed i s" and "i < concurrency" and "\<not> connects i"
  shows "gate_closed i s'"
  using assms(1)
proof cases
  case (Connect j)
  then have "j \<noteq> i" using assms(4) by auto
  then show ?thesis using Connect assms(2) set_update_subset_insert [of "sg_workers s" j At_Gate]
    by (auto simp: gate_closed_def)
next
  case (Give_Up j)
  then show ?thesis using assms(2,3) set_update_subset_insert [of "sg_workers s" j "Returned 0"]
    by (cases "j = i") (auto simp: gate_closed_def)
next
  case Open
  then show ?thesis using gate_short [OF assms(2,3)] by simp
next
  case (Finish j k)
  then show ?thesis using assms(2) nth_mem [of j "sg_workers s"] by (auto simp: gate_closed_def)
qed (use assms(2) in \<open>auto simp: gate_closed_def\<close>)

text \<open>
  One worker that cannot connect stalls the siege: it returns without waiting at the barrier, which
  then never opens, so no worker is released and main never starts its clock. The address of the
  source does not parse, so this is every run.
\<close>

theorem failed_connection_stalls_the_siege:
  assumes "siege_reachable connects s" and "i < concurrency" and "\<not> connects i"
  shows "sg_main s \<noteq> Timing \<and> Released \<notin> set (sg_workers s) \<and> at_gate s < concurrency + 1"
proof -
  have "gate_closed i s" using assms(1)
  proof (induction rule: siege_reachable.induct)
    case Siege_Start
    show ?case using assms(2) by (simp add: gate_closed_def siege_start_def)
  qed (use gate_closed_step assms(2,3) in blast)
  then show ?thesis using gate_short [OF _ assms(2)] by (auto simp: gate_closed_def)
qed

lemma failed_connection_stalls_the_siege_witness:
  "\<exists>s. siege_reachable (\<lambda>_. False) s \<and> sg_main s = Main_At_Gate \<and> at_gate s < concurrency + 1"
proof -
  let ?s = "siege_start\<lparr>sg_main := Main_At_Gate\<rparr>"
  have r: "siege_reachable (\<lambda>_. False) ?s"
    by (rule Siege_Next [OF Siege_Start siege_step.Main_Waits]) (simp add: siege_start_def)
  have "at_gate ?s < concurrency + 1"
    using failed_connection_stalls_the_siege [OF r, of 0] by (simp add: concurrency_def)
  then show ?thesis using r by (intro exI [of _ ?s]) simp
qed

section \<open>The report\<close>

record siege_report =
  sr_processed :: nat
  sr_min :: u64
  sr_p50 :: u64
  sr_p90 :: u64
  sr_p95 :: u64
  sr_p99 :: u64
  sr_p999 :: u64
  sr_max :: u64

definition sample_at :: "u64 list \<Rightarrow> nat \<Rightarrow> u64 res" where
  "sample_at xs i = (if i < length xs then Inr (xs ! i) else Inl (Panic ''index out of bounds''))"

text \<open>\<open>scale k n\<close> is the product of \<open>n\<close> with k thousandths, truncated; no report without a sample.\<close>

definition latency_report :: "(nat \<Rightarrow> nat \<Rightarrow> nat) \<Rightarrow> u64 list list \<Rightarrow> siege_report option res" where
  "latency_report scale worker_samples =
     (let samples = sort (concat worker_samples); total = length samples in
      if total = 0 then Inr None
      else
        and_then (sample_at samples (scale 500 total)) (\<lambda>p50.
        and_then (sample_at samples (scale 900 total)) (\<lambda>p90.
        and_then (sample_at samples (scale 950 total)) (\<lambda>p95.
        and_then (sample_at samples (scale 990 total)) (\<lambda>p99.
        and_then (sample_at samples (min (scale 999 total) (total - 1))) (\<lambda>p999.
        and_then (sample_at samples (total - 1)) (\<lambda>max_lat.
        and_then (sample_at samples 0) (\<lambda>min_lat.
          Inr (Some \<lparr>sr_processed = total, sr_min = min_lat, sr_p50 = p50, sr_p90 = p90, sr_p95 = p95, sr_p99 = p99,
                     sr_p999 = p999, sr_max = max_lat\<rparr>)))))))))"

lemma sorted_ends:
  fixes xs :: "u64 list"
  assumes "sorted xs" and "0 < length xs"
  shows "xs ! 0 = Min (set xs)" and "xs ! (length xs - 1) = Max (set xs)"
proof -
  have m: "xs ! a \<le> xs ! b" if "a \<le> b" "b < length xs" for a b using that assms(1) by (simp add: sorted_nth_mono)
  show "xs ! 0 = Min (set xs)"
    by (intro Min_eqI [symmetric]) (use assms(2) m in \<open>auto simp: in_set_conv_nth\<close>)
  have l: "length xs - 1 < length xs" using assms(2) by simp
  show "xs ! (length xs - 1) = Max (set xs)"
    by (intro Max_eqI [symmetric]) (use m l in \<open>auto simp: in_set_conv_nth intro!: exI [of _ "length xs - 1"]\<close>)
qed

text \<open>
  The report is ordered whatever the order in which the workers delivered their samples: with a product that
  is monotone and stays below its argument, no index is out of range and each figure is at most the
  next. A run without a sample has no report.
\<close>

theorem report_is_ordered:
  assumes "\<And>k n. k \<le> 990 \<Longrightarrow> 0 < n \<Longrightarrow> scale k n < n" and "\<And>k l n. k \<le> l \<Longrightarrow> scale k n \<le> scale l n"
    and "concat worker_samples \<noteq> []"
  shows "\<exists>r. latency_report scale worker_samples = Inr (Some r)
     \<and> sorted [sr_min r, sr_p50 r, sr_p90 r, sr_p95 r, sr_p99 r, sr_p999 r, sr_max r]
     \<and> sr_min r = Min (set (concat worker_samples)) \<and> sr_max r = Max (set (concat worker_samples))"
proof -
  define s where "s = sort (concat worker_samples)"
  define n where "n = length s"
  have s: "sorted s" "set s = set (concat worker_samples)" by (simp_all add: s_def)
  have n: "0 < n" using assms(3) by (simp add: n_def s_def)
  have i: "scale 500 n < n" "scale 900 n < n" "scale 950 n < n" "scale 990 n < n"
    using assms(1) n by simp_all
  have j: "scale 500 n \<le> scale 900 n" "scale 900 n \<le> scale 950 n" "scale 950 n \<le> scale 990 n"
    "scale 990 n \<le> min (scale 999 n) (n - 1)" "min (scale 999 n) (n - 1) \<le> n - 1"
    using assms(2) i(4) by simp_all
  have m: "s ! a \<le> s ! b" if "a \<le> b" "b < n" for a b using that s(1) by (simp add: n_def sorted_nth_mono)
  define r where "r = \<lparr>sr_processed = n, sr_min = s ! 0, sr_p50 = s ! scale 500 n, sr_p90 = s ! scale 900 n,
    sr_p95 = s ! scale 950 n, sr_p99 = s ! scale 990 n, sr_p999 = s ! min (scale 999 n) (n - 1), sr_max = s ! (n - 1)\<rparr>"
  have at: "sample_at s k = Inr (s ! k)" if "k < n" for k using that by (simp add: sample_at_def n_def)
  have "latency_report scale worker_samples = Inr (Some r)"
    unfolding latency_report_def Let_def s_def [symmetric] n_def [symmetric] r_def
    using n i by (simp add: at)
  moreover have "sr_min r \<le> sr_p50 r" "sr_p50 r \<le> sr_p90 r" "sr_p90 r \<le> sr_p95 r" "sr_p95 r \<le> sr_p99 r"
    "sr_p99 r \<le> sr_p999 r" "sr_p999 r \<le> sr_max r"
    unfolding r_def siege_report.simps using n i j by (intro m; linarith)+
  moreover have "sr_min r = Min (set s)" "sr_max r = Max (set s)"
    using sorted_ends [OF s(1)] n by (simp_all add: r_def n_def)
  ultimately show ?thesis unfolding s(2) [symmetric] by (intro exI [of _ r]) auto
qed

lemma report_is_ordered_witness:
  "\<exists>r. latency_report (\<lambda>k n. k * n div 1000) [[30, 10], [], [20]] = Inr (Some r) \<and> sr_min r = 10 \<and> sr_p50 r \<le> sr_p90 r"
proof -
  have a: "k * n div 1000 < n" if "k \<le> 990" "0 < n" for k n :: nat
    using that by (intro less_mult_imp_div_less) (simp add: mult.commute)
  have b: "k * n div 1000 \<le> l * n div 1000" if "k \<le> l" for k l n :: nat using that by (simp add: div_le_mono)
  from report_is_ordered [of "\<lambda>k n. k * n div 1000" "[[30, 10], [], [20]]", OF a b]
  show ?thesis by auto
qed

end
