(* ===== verification/Runs.thy ===== *)
theory Runs
  imports Prelude
begin

text \<open>
  The interface of the step relations whose runs carry their labels: a run is empty or a run followed by
  a step. The lemmas are the rules the life of the daemon and its shutdown are reasoned with: runs
  compose and split, an invariant of the steps holds along a run, and a measure that productive steps bring
  down bounds their number.
\<close>

locale labelled_runs =
  fixes step :: "'s \<Rightarrow> 'l \<Rightarrow> 's \<Rightarrow> bool" and run :: "'s \<Rightarrow> 'l list \<Rightarrow> 's \<Rightarrow> bool"
  assumes run_unfold: "run s labs s' \<longleftrightarrow>
    (labs = [] \<and> s' = s) \<or> (\<exists>ls l t. labs = ls @ [l] \<and> run s ls t \<and> step t l s')"
begin

lemma run_Nil [simp]: "run s [] s' \<longleftrightarrow> s' = s"
  by (subst run_unfold) simp

lemma run_snoc: "run s (labs @ [l]) s' \<longleftrightarrow> (\<exists>t. run s labs t \<and> step t l s')"
  by (subst run_unfold) simp

lemma run_append: "run s (as @ bs) u \<longleftrightarrow> (\<exists>t. run s as t \<and> run t bs u)"
  by (induction bs arbitrary: u rule: rev_induct) (auto simp: run_snoc simp flip: append_assoc)

lemma run_step: "step s l s' \<Longrightarrow> run s [l] s'"
  using run_snoc [of s "[]" l s'] by simp

lemma run_invariant:
  assumes "run s labs s'" and "keeps s" and "\<And>t l t'. step t l t' \<Longrightarrow> keeps t \<Longrightarrow> keeps t' \<and> ok l"
  shows "keeps s' \<and> (\<forall>l \<in> set labs. ok l)"
  using assms(1)
proof (induction labs arbitrary: s' rule: rev_induct)
  case (snoc l labs)
  then obtain t where "run s labs t" "step t l s'" by (auto simp: run_snoc)
  then show ?case using snoc.IH [of t] assms(3) [of t l s'] by auto
qed (simp add: assms(2))

lemma run_progress:
  fixes m :: "'s \<Rightarrow> nat"
  assumes "run s labs s'" and "keeps s"
    and "\<And>t l t'. step t l t' \<Longrightarrow> keeps t \<Longrightarrow> keeps t' \<and> m t' + (if productive l then 1 else 0) \<le> m t"
  shows "keeps s' \<and> length (filter productive labs) + m s' \<le> m s"
  using assms(1)
proof (induction labs arbitrary: s' rule: rev_induct)
  case (snoc l labs)
  then obtain t where "run s labs t" "step t l s'" by (auto simp: run_snoc)
  then show ?case using snoc.IH [of t] assms(3) [of t l s'] by (auto split: if_splits)
qed (simp add: assms(2))

end

end
