(* ===== verification/Shutdown.thy ===== *)
theory Shutdown
  imports Wal Runs
begin

text \<open>
  The end of the daemon: the graceful drain at the end of src/raqim-core/src/main.rs and the exits
  of the worker loop of src/raqim-core/src/nucleus.rs. The worker ends when a channel it reads is
  closed, that is when every clone of the engine is gone; main waits for the TCP workers, closes
  the mesh, drops its own clone and waits for the worker. The lemmas show what keeps the worker
  alive, what it still writes once it may end, and what it may leave unwritten.
\<close>

section \<open>The accept loop\<close>

text \<open>
  What the select of the accept loop sees: the cancellation, a connection or a failed accept. Every
  connection becomes a worker of the join set, where it stays when it has ended: only the drain takes workers
  out. The result is the join set the drain finds, \<open>None\<close> while the loop still runs.
\<close>

datatype accept_event = Cancelled | Accepted nat | Accept_Failed

fun accept_loop :: "nat list \<Rightarrow> accept_event list \<Rightarrow> nat list option" where
  "accept_loop workers [] = None"
| "accept_loop workers (Cancelled # es) = Some workers"
| "accept_loop workers (Accepted conn # es) = accept_loop (workers @ [conn]) es"
| "accept_loop workers (Accept_Failed # es) = accept_loop workers es"

lemma accept_loop_collects:
  "accept_loop ws (es @ Cancelled # rs) = Some joined \<Longrightarrow> Cancelled \<notin> set es \<Longrightarrow>
   joined = ws @ concat (map (\<lambda>e. case e of Accepted c \<Rightarrow> [c] | _ \<Rightarrow> []) es)"
  by (induction ws es rule: accept_loop.induct) auto

lemma accept_loop_ends: "accept_loop ws es \<noteq> None \<longleftrightarrow> Cancelled \<in> set es"
  by (induction ws es rule: accept_loop.induct) auto

section \<open>The state of a shutdown\<close>

text \<open>
  Who holds a clone of the engine: main itself, the memory router, the orchestrator task, the
  state of the control plane, and one TCP worker per open connection. The compactor holds a clone
  of the command sender only. Running cells hold clones too, which come on top of these.
\<close>

datatype holder = Main_Fn | Mem_Router | Orchestrator_Task | Api_Server | Tcp_Worker nat

datatype stage = Draining | Closing | Awaiting_Worker | Terminated

record shutdown =
  sd_wal :: wal
  sd_holders :: "holder list"
  sd_compactor :: bool
  sd_alive :: bool
  sd_stage :: stage

text \<open>The daemon when the signal comes: the long-lived holders and the open connections.\<close>

definition shutdown_start :: "wal \<Rightarrow> nat list \<Rightarrow> shutdown" where
  "shutdown_start w connections =
     \<lparr>sd_wal = w, sd_holders = [Main_Fn, Mem_Router, Orchestrator_Task, Api_Server] @ map Tcp_Worker connections,
      sd_compactor = True, sd_alive = True, sd_stage = Draining\<rparr>"

definition tcp_workers :: "shutdown \<Rightarrow> nat list" where
  "tcp_workers s = List.map_filter (\<lambda>h. case h of Tcp_Worker n \<Rightarrow> Some n | _ \<Rightarrow> None) (sd_holders s)"

datatype shutdown_label = Worked wal_label | Hung_Up nat | Joined | Mesh_Closed | Worker_Exit | Main_Returns

text \<open>
  A holder may append as long as it is there, and the worker works as long as it lives. Without
  any holder it ends on the empty log channel, or on the command channel when the compactor's
  sender is gone too, whatever the log channel still holds: the select takes any ready branch.
\<close>

inductive shutdown_step :: "ext \<Rightarrow> string \<Rightarrow> shutdown \<Rightarrow> shutdown_label \<Rightarrow> shutdown \<Rightarrow> bool" for E fp where
  Appending: "sd_holders s \<noteq> [] \<Longrightarrow> wal_step E fp (sd_wal s) (Appended log) w \<Longrightarrow>
    shutdown_step E fp s (Worked (Appended log)) (s\<lparr>sd_wal := w\<rparr>)"
| Working: "sd_alive s \<Longrightarrow> wal_step E fp (sd_wal s) lab w \<Longrightarrow> \<forall>log. lab \<noteq> Appended log \<Longrightarrow>
    shutdown_step E fp s (Worked lab) (s\<lparr>sd_wal := w\<rparr>)"
| Connection_Ends: "Tcp_Worker n \<in> set (sd_holders s) \<Longrightarrow>
    shutdown_step E fp s (Hung_Up n) (s\<lparr>sd_holders := removeAll (Tcp_Worker n) (sd_holders s)\<rparr>)"
| Join_Workers: "sd_stage s = Draining \<Longrightarrow> tcp_workers s = [] \<Longrightarrow>
    shutdown_step E fp s Joined (s\<lparr>sd_stage := Closing\<rparr>)"
| Close_Mesh: "sd_stage s = Closing \<Longrightarrow>
    shutdown_step E fp s Mesh_Closed
      (s\<lparr>sd_holders := removeAll Main_Fn (sd_holders s), sd_stage := Awaiting_Worker\<rparr>)"
| Exit_Empty: "sd_alive s \<Longrightarrow> sd_holders s = [] \<Longrightarrow> wal_queue (sd_wal s) = [] \<Longrightarrow>
    shutdown_step E fp s Worker_Exit (s\<lparr>sd_alive := False\<rparr>)"
| Exit_Command: "sd_alive s \<Longrightarrow> sd_holders s = [] \<Longrightarrow> \<not> sd_compactor s \<Longrightarrow>
    shutdown_step E fp s Worker_Exit (s\<lparr>sd_alive := False\<rparr>)"
| Return: "sd_stage s = Awaiting_Worker \<Longrightarrow> \<not> sd_alive s \<Longrightarrow>
    shutdown_step E fp s Main_Returns (s\<lparr>sd_stage := Terminated\<rparr>)"

inductive_cases shutdown_stepE: "shutdown_step E fp s lab s'"

inductive shutdown_run :: "ext \<Rightarrow> string \<Rightarrow> shutdown \<Rightarrow> shutdown_label list \<Rightarrow> shutdown \<Rightarrow> bool" for E fp s where
  Sd_Nil: "shutdown_run E fp s [] s"
| Sd_Step: "shutdown_run E fp s labs s' \<Longrightarrow> shutdown_step E fp s' lab s'' \<Longrightarrow> shutdown_run E fp s (labs @ [lab]) s''"

interpretation shutdown_runs: labelled_runs "shutdown_step E fp" "shutdown_run E fp" for E fp
  by unfold_locales (subst shutdown_run.simps, blast)

section \<open>The drain never ends\<close>

definition held_forever :: "shutdown \<Rightarrow> bool" where
  "held_forever s \<longleftrightarrow> {Mem_Router, Orchestrator_Task, Api_Server} \<subseteq> set (sd_holders s) \<and> sd_alive s \<and> sd_stage s \<noteq> Terminated"

lemma held_step:
  "shutdown_step E fp s lab s' \<Longrightarrow> held_forever s \<Longrightarrow> held_forever s' \<and> lab \<noteq> Worker_Exit \<and> lab \<noteq> Main_Returns"
  by (induction rule: shutdown_step.induct) (auto simp: held_forever_def)



text \<open>While a connection is open, main does not even get past the first stage.\<close>

lemma open_connection_blocks:
  "shutdown_step E fp s Joined s' \<Longrightarrow> Tcp_Worker n \<notin> set (sd_holders s)"
  by (erule shutdown_stepE) (force simp: tcp_workers_def List.map_filter_def filter_empty_conv)+

section \<open>A worker without holders\<close>

text \<open>The labels that make progress: everything but the flush tick and a rotation.\<close>

fun productive :: "shutdown_label \<Rightarrow> bool" where
  "productive (Worked (Wrote b f)) = True"
| "productive (Worked _) = False"
| "productive Worker_Exit = True"
| "productive _ = False"

definition remaining_work :: "shutdown \<Rightarrow> nat" where
  "remaining_work s = (if sd_alive s then Suc (length (wal_queue (sd_wal s))) else 0)"

definition orphaned :: "shutdown \<Rightarrow> bool" where
  "orphaned s \<longleftrightarrow> sd_holders s = []"

lemma orphaned_step:
  assumes "shutdown_step E fp s lab s'" and "orphaned s"
  shows "orphaned s' \<and> remaining_work s' + (if productive lab then 1 else 0) \<le> remaining_work s"
  using assms
proof (cases rule: shutdown_step.cases)
  case (Working wlab w)
  then show ?thesis using assms(2)
  proof (cases rule: wal_step.cases [OF Working(4)])
    case (2 w0 fault)
    then show ?thesis using assms(2) Working
      by (cases "wal_queue (sd_wal s)") (auto simp: remaining_work_def orphaned_def drain_and_write_def batch_limit_def)
  qed (auto simp: remaining_work_def orphaned_def rotate_segment_def Let_def split: if_splits)
qed (auto simp: remaining_work_def orphaned_def)


text \<open>
  The exit on the command channel loses what is queued: without holders and without the
  compactor's sender the worker may end at once, and the queued logs are in no file.
\<close>

theorem command_exit_loses_the_queue:
  assumes "sd_alive s" and "orphaned s" and "\<not> sd_compactor s"
  shows "\<exists>s'. shutdown_step E fp s Worker_Exit s' \<and> \<not> sd_alive s' \<and> sd_wal s' = sd_wal s
     \<and> wal_queue (sd_wal s') = wal_queue (sd_wal s)"
  using shutdown_step.Exit_Command [of s E fp] assms by (auto simp: orphaned_def)

text \<open>While the compactor lives the exit is clean: it comes only after everything was written.\<close>

lemma clean_exit:
  "shutdown_step E fp s Worker_Exit s' \<Longrightarrow> sd_compactor s \<Longrightarrow> wal_queue (sd_wal s) = []"
  by (erule shutdown_stepE) auto


end
