(* ===== verification/Lifecycle.thy ===== *)
theory Lifecycle
  imports Cascade Runs "HOL-Library.Multiset"
begin

text \<open>
  The node at work: the cascade of src/raqim-core/src/lib.rs taken apart where another task can run,
  between the sealing of a thought and its hand-over to the WAL, interleaved with the steps of the
  WAL worker of src/raqim-core/src/nucleus.rs. The lemmas say where every sealed thought is, when the
  log is the history of the ledger, and what a crash in the middle of a write leaves of it.
\<close>

section \<open>The two halves of a cascade\<close>

text \<open>A thought in flight: sealed by the gatekeeper and not yet handed to the WAL.\<close>

record flight =
  fl_hex :: string
  fl_tx :: u128
  fl_log :: op_log
  fl_batch :: "markle_batch option"

definition cascade_seal ::
  "ext \<Rightarrow> ('d, 'v) crdt \<Rightarrow> u64 \<Rightarrow> u128 \<Rightarrow> 'd node \<Rightarrow> agent_state \<Rightarrow> u64 list \<Rightarrow> string list
   \<Rightarrow> 'd node \<times> flight res" where
  "cascade_seal E L now tx_id nd st seeds responses =
     (let anonymous = (nd, Inl (Err ''Agent ID is required to merge thought'')) in
      case st_agent_id st of
        None \<Rightarrow> anonymous
      | Some final_agent_id \<Rightarrow>
          if final_agent_id = zeros 16 then anonymous
          else
            (let agent_hex = x_hex_encode E final_agent_id;
                 enriched = enriched_state now tx_id final_agent_id st;
                 ns = st_namespace enriched;
                 (rg1, brain) = get_or_create_brain L (nd_shards nd) ns;
                 (doc, r) = append_agent_thought L (sh_doc brain) agent_hex enriched;
                 nd1 = nd\<lparr>nd_shards := drop_clone (update_doc rg1 ns doc) ns\<rparr>
             in case r of
                  Inl e \<Rightarrow> (nd1, Inl (Panic ''called Result::unwrap() on an Err value''))
                | Inr delta \<Rightarrow>
                    (let (ax, sealed_log, optional_batch) =
                           seal_thought E (nd_axon nd1) (raw_log final_agent_id enriched delta seeds responses)
                     in (nd1\<lparr>nd_axon := ax\<rparr>,
                         Inr \<lparr>fl_hex = agent_hex, fl_tx = tx_id, fl_log = sealed_log, fl_batch = optional_batch\<rparr>))))"

definition cascade_publish :: "ext \<Rightarrow> 'd node \<Rightarrow> flight \<Rightarrow> 'd node" where
  "cascade_publish E nd f = publish_sealed E nd (fl_hex f) (fl_tx f) (fl_log f) (fl_batch f)"

text \<open>A cascade that nothing interrupts is its two halves in a row.\<close>

lemma cascade_halves:
  "execute_raqim_cascade E L now tx nd st seeds resp =
     (case cascade_seal E L now tx nd st seeds resp of
        (nd1, Inl e) \<Rightarrow> (nd1, Inl e)
      | (nd1, Inr f) \<Rightarrow> (cascade_publish E nd1 f, Inr tx))"
  by (auto simp: execute_raqim_cascade_def cascade_seal_def cascade_publish_def Let_def
      split: option.splits sum.splits prod.splits)

lemma cascade_seal_node:
  assumes "cascade_seal E L now tx nd st seeds resp = (nd', r)"
  shows "nd_wal nd' = nd_wal nd
     \<and> (case r of
          Inl e \<Rightarrow> nd_axon nd' = nd_axon nd
        | Inr f \<Rightarrow> \<exists>raw. seal_thought E (nd_axon nd) raw = (nd_axon nd', fl_log f, fl_batch f))"
  using assms
  by (auto simp: cascade_seal_def Let_def split: option.splits if_splits sum.splits prod.splits)

section \<open>The daemon at work\<close>

record 'd daemon =
  dm_node :: "'d node"
  dm_flights :: "flight list"

datatype life_label = Sealed op_log | Refused | Published nat | Persisted wal_label

text \<open>
  Any task may seal a thought at any time, and any thought in flight may be the next to reach the
  WAL: the tasks run in parallel and only the gatekeeper's buffer and the channel serialise them.
\<close>

inductive life_step ::
  "ext \<Rightarrow> ('d, 'v) crdt \<Rightarrow> string \<Rightarrow> 'd daemon \<Rightarrow> life_label \<Rightarrow> 'd daemon \<Rightarrow> bool" for E L fp where
  Seal: "cascade_seal E L now tx (dm_node s) st seeds resp = (nd, Inr f) \<Longrightarrow>
    life_step E L fp s (Sealed (fl_log f)) (s\<lparr>dm_node := nd, dm_flights := dm_flights s @ [f]\<rparr>)"
| Refuse: "cascade_seal E L now tx (dm_node s) st seeds resp = (nd, Inl e) \<Longrightarrow>
    life_step E L fp s Refused (s\<lparr>dm_node := nd\<rparr>)"
| Publish: "i < length (dm_flights s) \<Longrightarrow> length (wal_queue (nd_wal (dm_node s))) < channel_capacity \<Longrightarrow>
    life_step E L fp s (Published i)
      (s\<lparr>dm_node := cascade_publish E (dm_node s) (dm_flights s ! i),
         dm_flights := take i (dm_flights s) @ drop (Suc i) (dm_flights s)\<rparr>)"
| Persist: "wal_step E fp (nd_wal (dm_node s)) lab w \<Longrightarrow> \<forall>log. lab \<noteq> Appended log \<Longrightarrow>
    life_step E L fp s (Persisted lab) (s\<lparr>dm_node := (dm_node s)\<lparr>nd_wal := w\<rparr>\<rparr>)"

inductive life_run ::
  "ext \<Rightarrow> ('d, 'v) crdt \<Rightarrow> string \<Rightarrow> 'd daemon \<Rightarrow> life_label list \<Rightarrow> 'd daemon \<Rightarrow> bool" for E L fp s where
  Life_Nil: "life_run E L fp s [] s"
| Life_Step: "life_run E L fp s labs s' \<Longrightarrow> life_step E L fp s' lab s'' \<Longrightarrow>
    life_run E L fp s (labs @ [lab]) s''"

interpretation life_runs: labelled_runs "life_step E L fp" "life_run E L fp" for E L fp
  by unfold_locales (subst life_run.simps, blast)

text \<open>What a run sealed, what the worker did, and where the sealed thoughts are.\<close>

definition sealed_by :: "life_label list \<Rightarrow> op_log list" where
  "sealed_by labs = concat (map (\<lambda>l. case l of Sealed log \<Rightarrow> [log] | _ \<Rightarrow> []) labs)"

definition worker_labels :: "life_label list \<Rightarrow> wal_label list" where
  "worker_labels labs = concat (map (\<lambda>l. case l of Persisted w \<Rightarrow> [w] | _ \<Rightarrow> []) labs)"

definition unwritten :: "'d daemon \<Rightarrow> op_log list" where
  "unwritten s = wal_queue (nd_wal (dm_node s)) @ map fl_log (dm_flights s)"

lemma life_labels [simp]:
  "sealed_by [] = []" "worker_labels [] = []"
  "sealed_by (a @ b) = sealed_by a @ sealed_by b" "worker_labels (a @ b) = worker_labels a @ worker_labels b"
  "sealed_by [Sealed log] = [log]" "sealed_by [Refused] = []" "sealed_by [Published i] = []" "sealed_by [Persisted w] = []"
  "worker_labels [Sealed log] = []" "worker_labels [Refused] = []" "worker_labels [Published i] = []"
  "worker_labels [Persisted w] = [w]"
  by (simp_all add: sealed_by_def worker_labels_def)

lemma written_logs_simps [simp]: "written_logs [] = []" "written_logs [Wrote b f] = b"
  "written_logs [Ticked] = []" "written_logs [Rotated n] = []" "written_logs [Appended l] = []"
  by (simp_all add: written_logs_def)

lemma publish_wal [simp]:
  "nd_wal (cascade_publish E nd f) = wal_append (nd_wal nd) (fl_log f)"
  "nd_axon (cascade_publish E nd f) = nd_axon nd"
  by (simp_all add: cascade_publish_def publish_sealed_def)

text \<open>The step on the logs: what was unwritten and is now sealed is written or still unwritten.\<close>

lemma nth_in_mset_split: "i < length xs \<Longrightarrow> mset xs = add_mset (xs ! i) (mset (take i xs @ drop (Suc i) xs))"
  by (metis id_take_nth_drop mset.simps(2) mset_append union_mset_add_mset_right)

lemma life_step_logs:
  assumes "life_step E L fp s lab s'"
  shows "mset (unwritten s @ sealed_by [lab]) = mset (written_logs (worker_labels [lab]) @ unwritten s')"
  using assms
proof (cases rule: life_step.cases)
  case (Seal now tx st seeds resp nd f)
  then show ?thesis using cascade_seal_node [OF Seal(3)] by (simp add: unwritten_def)
next
  case (Refuse now tx st seeds resp nd e)
  then show ?thesis using cascade_seal_node [OF Refuse(3)] by (simp add: unwritten_def)
next
  case (Publish i)
  have "mset (map fl_log (dm_flights s)) =
      add_mset (fl_log (dm_flights s ! i)) (mset (map fl_log (take i (dm_flights s) @ drop (Suc i) (dm_flights s))))"
    using nth_in_mset_split [OF Publish(3)] by (metis image_mset_add_mset mset_map)
  then show ?thesis using Publish by (simp add: unwritten_def wal_append_def)
next
  case (Persist wlab w)
  have "wal_queue (nd_wal (dm_node s)) @ appended_logs [wlab] = written_logs [wlab] @ wal_queue w"
    by (rule step_queue [OF Persist(3)])
  moreover have "appended_logs [wlab] = []" using Persist(4) by (cases wlab) (simp_all add: appended_logs_def)
  ultimately show ?thesis using Persist by (simp add: unwritten_def)
qed

lemma life_step_axon:
  assumes "life_step E L fp s lab s'"
  shows "\<exists>raws bs. seal_run E (nd_axon (dm_node s)) raws = (nd_axon (dm_node s'), sealed_by [lab], bs)"
  using assms
proof (cases rule: life_step.cases)
  case (Seal now tx st seeds resp nd f)
  obtain raw where "seal_thought E (nd_axon (dm_node s)) raw = (nd_axon nd, fl_log f, fl_batch f)"
    using cascade_seal_node [OF Seal(3)] by auto
  then show ?thesis using Seal by (intro exI [of _ "[raw]"]) (simp split: option.split)
next
  case (Refuse now tx st seeds resp nd e)
  then show ?thesis using cascade_seal_node [OF Refuse(3)] by (intro exI [of _ "[]"]) simp
qed (auto intro!: exI [of _ "[]"])

lemma seal_run_append:
  "seal_run E ax a = (ax1, la, ba) \<Longrightarrow> seal_run E ax1 b = (ax2, lb, bb) \<Longrightarrow>
   \<exists>bs. seal_run E ax (a @ b) = (ax2, la @ lb, bs)"
proof (induction a arbitrary: ax la ba)
  case (Cons l ls)
  obtain ax0 l' bo where s: "seal_thought E ax l = (ax0, l', bo)" by (metis prod.exhaust)
  obtain ax1' ls' bs' where r: "seal_run E ax0 ls = (ax1', ls', bs')" by (metis prod.exhaust)
  have "ax1' = ax1" "la = l' # ls'" using Cons.prems(1) s r by simp_all
  then show ?case using Cons.IH [of ax0 ls' bs'] Cons.prems(2) s r by auto
qed simp

lemma seal_run_take:
  "seal_run E ax logs = (ax', sealed, bs) \<Longrightarrow> \<exists>ax1 bs1. seal_run E ax (take m logs) = (ax1, take m sealed, bs1)"
proof (induction logs arbitrary: ax ax' sealed bs m)
  case (Cons l ls)
  obtain ax0 l' bo where s: "seal_thought E ax l = (ax0, l', bo)" by (metis prod.exhaust)
  obtain ax1' ls' bs' where r: "seal_run E ax0 ls = (ax1', ls', bs')" by (metis prod.exhaust)
  show ?case
  proof (cases m)
    case (Suc k)
    then show ?thesis using Cons.IH [OF r, of k] Cons.prems s r by auto
  qed simp
qed simp

lemma seal_run_keeps:
  "seal_run E ax logs = (ax', sealed, bs) \<Longrightarrow>
   map (\<lambda>l. (ol_txid l, ol_delta l, ol_agent_id l)) sealed = map (\<lambda>l. (ol_txid l, ol_delta l, ol_agent_id l)) logs"
proof (induction logs arbitrary: ax ax' sealed bs)
  case (Cons l ls)
  obtain ax0 l' bo where s: "seal_thought E ax l = (ax0, l', bo)" by (metis prod.exhaust)
  obtain ax1' ls' bs' where r: "seal_run E ax0 ls = (ax1', ls', bs')" by (metis prod.exhaust)
  show ?case using Cons.IH [OF r] Cons.prems s r seal_thought_sealed [OF s] by auto
qed simp

lemma life_run_logs:
  "life_run E L fp s labs s' \<Longrightarrow>
   mset (unwritten s @ sealed_by labs) = mset (written_logs (worker_labels labs) @ unwritten s')"
proof (induction rule: life_run.induct)
  case (Life_Step labs s' lab s'')
  have "mset (unwritten s @ sealed_by (labs @ [lab])) =
      mset (written_logs (worker_labels labs)) + mset (unwritten s' @ sealed_by [lab])"
    using Life_Step.IH by (metis append.assoc life_labels(3) mset_append)
  also have "\<dots> = mset (written_logs (worker_labels (labs @ [lab])) @ unwritten s'')"
    unfolding life_step_logs [OF Life_Step.hyps(2)] by (simp add: labels_append)
  finally show ?case .
qed simp

lemma life_run_axon:
  "life_run E L fp s labs s' \<Longrightarrow>
   \<exists>raws bs. seal_run E (nd_axon (dm_node s)) raws = (nd_axon (dm_node s'), sealed_by labs, bs)"
proof (induction rule: life_run.induct)
  case Life_Nil
  show ?case by (intro exI [of _ "[]"]) simp
next
  case (Life_Step labs s' lab s'')
  obtain raws bs where a: "seal_run E (nd_axon (dm_node s)) raws = (nd_axon (dm_node s'), sealed_by labs, bs)"
    using Life_Step.IH by blast
  obtain raws2 bs2 where b: "seal_run E (nd_axon (dm_node s')) raws2 = (nd_axon (dm_node s''), sealed_by [lab], bs2)"
    using life_step_axon [OF Life_Step.hyps(2)] by blast
  show ?case using seal_run_append [OF a b] by (intro exI [of _ "raws @ raws2"]) simp
qed


section \<open>The order of the log\<close>

text \<open>When thoughts reach the WAL in the order of their sealing, the log is the ledger's history.\<close>

definition in_order :: "life_label list \<Rightarrow> bool" where
  "in_order labs \<longleftrightarrow> (\<forall>i. Published i \<in> set labs \<longrightarrow> i = 0)"

lemma life_step_fifo:
  assumes "life_step E L fp s lab s'" and "in_order [lab]"
  shows "unwritten s @ sealed_by [lab] = written_logs (worker_labels [lab]) @ unwritten s'"
  using assms(1)
proof (cases rule: life_step.cases)
  case (Seal now tx st seeds resp nd f)
  then show ?thesis using cascade_seal_node [OF Seal(3)] by (simp add: unwritten_def)
next
  case (Refuse now tx st seeds resp nd e)
  then show ?thesis using cascade_seal_node [OF Refuse(3)] by (simp add: unwritten_def)
next
  case (Publish i)
  then have "i = 0" using assms(2) by (simp add: in_order_def)
  then show ?thesis using Publish by (cases "dm_flights s") (simp_all add: unwritten_def wal_append_def)
next
  case (Persist wlab w)
  have "wal_queue (nd_wal (dm_node s)) @ appended_logs [wlab] = written_logs [wlab] @ wal_queue w"
    by (rule step_queue [OF Persist(3)])
  moreover have "appended_logs [wlab] = []" using Persist(4) by (cases wlab) (simp_all add: appended_logs_def)
  ultimately show ?thesis using Persist by (simp add: unwritten_def)
qed

lemma life_run_fifo:
  "life_run E L fp s labs s' \<Longrightarrow> in_order labs \<Longrightarrow>
   unwritten s @ sealed_by labs = written_logs (worker_labels labs) @ unwritten s'"
proof (induction rule: life_run.induct)
  case (Life_Step labs s' lab s'')
  have o: "in_order labs" "in_order [lab]" using Life_Step.prems by (auto simp: in_order_def)
  have "unwritten s @ sealed_by (labs @ [lab]) =
      written_logs (worker_labels labs) @ (unwritten s' @ sealed_by [lab])"
    using Life_Step.IH [OF o(1)] by (metis append.assoc life_labels(3))
  also have "\<dots> = written_logs (worker_labels (labs @ [lab])) @ unwritten s''"
    unfolding life_step_fifo [OF Life_Step.hyps(2) o(2)] by (simp add: labels_append)
  finally show ?case .
qed simp

lemma seal_named:
  assumes "crdt_ok L" and "named_agent st aid"
  shows "\<exists>nd' f. cascade_seal E L now tx nd st seeds resp = (nd', Inr f) \<and> ol_txid (fl_log f) = tx
     \<and> ol_namespace (fl_log f) = st_namespace st \<and> ol_agent_id (fl_log f) = aid"
proof -
  obtain nd' r where c: "cascade_seal E L now tx nd st seeds resp = (nd', r)" by fastforce
  let ?en = "enriched_state now tx aid st"
  obtain rg1 brain where g: "get_or_create_brain L (nd_shards nd) (st_namespace ?en) = (rg1, brain)" by fastforce
  obtain doc delta where a: "append_agent_thought L (sh_doc brain) (x_hex_encode E aid) ?en = (doc, Inr delta)"
    using append_one_timeline [OF assms(1)] by blast
  obtain ax log bo where s: "seal_thought E (nd_axon nd) (raw_log aid ?en delta seeds resp) = (ax, log, bo)"
    by (metis prod.exhaust)
  show ?thesis
    using assms(2) g a s seal_thought_sealed [OF s]
    by (auto simp: cascade_seal_def named_agent_def raw_log_def enriched_state_def Let_def)
qed

lemma hydrate_two:
  assumes "ol_namespace l1 = ns" and "ol_namespace l2 = ns" and "ol_txid l1 \<noteq> ol_txid l2"
  shows "map_option ab_leaves (map_of (ax_buffers (hydrate_run E axon_new [l1, l2])) ns) =
       Some [ol_current_hash l1, ol_current_hash l2]"
    and "ax_location (hydrate_run E axon_new [l1, l2]) (ol_txid l1) = Some (0, 0)"
    and "ax_location (hydrate_run E axon_new [l1, l2]) (ol_txid l2) = Some (0, 1)"
  using assms
  by (simp_all add: hydrate_run_def hydrate_from_recovery_def ingest_leaf_internal_def buffer_entry_def
      push_leaf_def axon_new_def axon_cap_def Let_def update_conv')

text \<open>
  C37. But the order is not kept: the gatekeeper's lock is released before the log is sent, so two thoughts of
  one namespace can reach the WAL the other way round. What recovery would rebuild from that log
  then has the two leaves swapped: another Merkle tree than the one whose proofs were handed out.
\<close>

theorem racing_cascades_reorder_the_log:
  assumes "crdt_ok L" and "named_agent st1 a1" and "named_agent st2 a2" and "st_namespace st1 = st_namespace st2"
    and "tx1 \<noteq> tx2" and "nd_axon nd = axon_new" and "wal_queue (nd_wal nd) = []"
  shows "\<exists>labs nd' l1 l2. life_run E L fp \<lparr>dm_node = nd, dm_flights = []\<rparr> labs \<lparr>dm_node = nd', dm_flights = []\<rparr>
     \<and> ol_txid l1 = tx1 \<and> ol_txid l2 = tx2 \<and> sealed_by labs = [l1, l2] \<and> wal_queue (nd_wal nd') = [l2, l1]
     \<and> map_option ab_leaves (map_of (ax_buffers (nd_axon nd')) (st_namespace st1)) =
         Some [ol_current_hash l1, ol_current_hash l2]
     \<and> map_option ab_leaves (map_of (ax_buffers (hydrate_run E axon_new (wal_queue (nd_wal nd')))) (st_namespace st1)) =
         Some [ol_current_hash l2, ol_current_hash l1]
     \<and> ax_location (nd_axon nd') tx1 = Some (0, 0)
     \<and> ax_location (hydrate_run E axon_new (wal_queue (nd_wal nd'))) tx1 = Some (0, 1)"
proof -
  let ?s = "\<lparr>dm_node = nd, dm_flights = []\<rparr>"
  obtain nd1 f1 where 1: "cascade_seal E L 0 tx1 nd st1 [] [] = (nd1, Inr f1)" "ol_txid (fl_log f1) = tx1"
    "ol_namespace (fl_log f1) = st_namespace st1" using seal_named [OF assms(1,2)] by metis
  obtain nd2 f2 where 2: "cascade_seal E L 0 tx2 nd1 st2 [] [] = (nd2, Inr f2)" "ol_txid (fl_log f2) = tx2"
    "ol_namespace (fl_log f2) = st_namespace st1" using seal_named [OF assms(1,3)] assms(4) by metis
  have w: "nd_wal nd2 = nd_wal nd" using cascade_seal_node [OF 1(1)] cascade_seal_node [OF 2(1)] by simp
  let ?l1 = "fl_log f1" and ?l2 = "fl_log f2"
  let ?nd3 = "cascade_publish E nd2 f2"
  let ?nd4 = "cascade_publish E ?nd3 f1"
  let ?labs = "[Sealed ?l1, Sealed ?l2, Published 1, Published 0]"
  have r1: "life_run E L fp ?s [Sealed ?l1] \<lparr>dm_node = nd1, dm_flights = [f1]\<rparr>"
    using Life_Step [OF Life_Nil life_step.Seal [of E L 0 tx1 ?s st1 "[]" "[]" nd1 f1 fp]] 1(1) by simp
  have r2: "life_run E L fp ?s [Sealed ?l1, Sealed ?l2] \<lparr>dm_node = nd2, dm_flights = [f1, f2]\<rparr>"
    using Life_Step [OF r1 life_step.Seal [of E L 0 tx2 _ st2 "[]" "[]" nd2 f2 fp]] 2(1) by simp
  have r3: "life_run E L fp ?s [Sealed ?l1, Sealed ?l2, Published 1] \<lparr>dm_node = ?nd3, dm_flights = [f1]\<rparr>"
    using Life_Step [OF r2 life_step.Publish [of 1 _ E L fp]] w assms(7) by (simp add: channel_capacity_def)
  have r4: "life_run E L fp ?s ?labs \<lparr>dm_node = ?nd4, dm_flights = []\<rparr>"
    using Life_Step [OF r3 life_step.Publish [of 0 _ E L fp]] w assms(7)
    by (simp add: channel_capacity_def wal_append_def)
  have q: "wal_queue (nd_wal ?nd4) = [?l2, ?l1]" using w assms(7) by (simp add: wal_append_def)
  have s: "sealed_by ?labs = [?l1, ?l2]" by (simp add: sealed_by_def)
  have ax: "nd_axon ?nd4 = hydrate_run E axon_new [?l1, ?l2]"
    using life_run_axon [OF r4] assms(6) s hydrate_seal_run [of E axon_new] by (metis daemon.select_convs(1) fst_conv snd_conv)
  have "?l1 \<noteq> ?l2" using 1(2) 2(2) assms(5) by auto
  note h = hydrate_two [of ?l1 "st_namespace st1" ?l2 E] hydrate_two [of ?l2 "st_namespace st1" ?l1 E]
  show ?thesis
    using r4 s q ax h 1 2 assms(5)
    by (intro exI [of _ ?labs] exI [of _ ?nd4] exI [of _ ?l1] exI [of _ ?l2]) simp
qed

section \<open>A life and its crash\<close>

lemma life_run_clean:
  "life_run E L fp s labs s' \<Longrightarrow> clean_wal E bs (nd_wal (dm_node s)) \<Longrightarrow> list_all faultless (worker_labels labs) \<Longrightarrow>
   clean_wal E (foldl segment_batches bs (worker_labels labs)) (nd_wal (dm_node s'))"
proof (induction rule: life_run.induct)
  case (Life_Step labs s' lab s'')
  then have c: "clean_wal E (foldl segment_batches bs (worker_labels labs)) (nd_wal (dm_node s'))"
    and f: "list_all faultless (worker_labels [lab])" by simp_all
  show ?case using Life_Step.hyps(2)
  proof (cases rule: life_step.cases)
    case (Seal now tx st seeds resp nd f)
    then show ?thesis using c cascade_seal_node [OF Seal(3)] by simp
  next
    case (Refuse now tx st seeds resp nd e)
    then show ?thesis using c cascade_seal_node [OF Refuse(3)] by simp
  next
    case (Publish i)
    then show ?thesis using c by (simp add: clean_wal_def wal_append_def)
  next
    case (Persist wlab w)
    then show ?thesis using clean_step [OF Persist(3) c] f by simp
  qed
qed simp

definition unrotated :: "wal_label list \<Rightarrow> bool" where
  "unrotated labs \<longleftrightarrow> (\<forall>n. Rotated (Some n) \<notin> set labs)"

lemma unrotated_batches: "unrotated labs \<Longrightarrow> concat (foldl segment_batches bs labs) = concat bs @ written_logs labs"
proof (induction labs arbitrary: bs)
  case (Cons l labs)
  have "written_logs (l # labs) = written_logs [l] @ written_logs labs"
    using labels_append(2) [of "[l]" labs] by simp
  moreover have "concat (segment_batches bs l) = concat bs @ written_logs [l]"
    using Cons.prems by (cases "(bs, l)" rule: segment_batches.cases) (auto simp: unrotated_def)
  ultimately show ?case using Cons by (simp add: unrotated_def)
qed simp

text \<open>
  One life of the daemon: from a fresh node, over any interleaving in which thoughts reach the
  WAL in the order of their sealing and the disk holds, up to a state \<open>s\<close>; the batches written in it,
  and the one the worker writes when the crash comes.
\<close>

definition life :: "ext \<Rightarrow> ('d, 'v) crdt \<Rightarrow> string \<Rightarrow> 'd node \<Rightarrow> life_label list \<Rightarrow> 'd daemon \<Rightarrow> bool" where
  "life E L fp nd labs s \<longleftrightarrow>
     life_run E L fp \<lparr>dm_node = nd, dm_flights = []\<rparr> labs s \<and> nd_wal nd = wal_start E True None
     \<and> nd_axon nd = axon_new \<and> list_all faultless (worker_labels labs) \<and> unrotated (worker_labels labs) \<and> in_order labs"

definition batches_of :: "life_label list \<Rightarrow> op_log list list" where
  "batches_of labs = foldl segment_batches [] (worker_labels labs)"

definition next_batch :: "'d daemon \<Rightarrow> op_log list" where
  "next_batch s = take batch_limit (wal_queue (nd_wal (dm_node s)))"

lemma life_batches: "life E L fp nd labs s \<Longrightarrow> concat (batches_of labs) = written_logs (worker_labels labs)"
  using unrotated_batches [of "worker_labels labs" "[]"] by (simp add: life_def batches_of_def)

lemma life_sealed:
  assumes "life E L fp nd labs s"
  shows "\<exists>rest. sealed_by labs = concat (batches_of labs) @ next_batch s @ rest"
proof -
  have "unwritten \<lparr>dm_node = nd, dm_flights = []\<rparr> = []" using assms
    by (simp add: life_def unwritten_def wal_start_def recover_and_truncate_torn_frames_def)
  then have "sealed_by labs = written_logs (worker_labels labs) @ unwritten s"
    using life_run_fifo [of E L fp "\<lparr>dm_node = nd, dm_flights = []\<rparr>" labs s] assms by (auto simp: life_def)
  moreover have "unwritten s = next_batch s @ drop batch_limit (wal_queue (nd_wal (dm_node s))) @ map fl_log (dm_flights s)"
    by (simp add: unwritten_def next_batch_def)
  ultimately show ?thesis unfolding life_batches [OF assms, symmetric] by simp
qed

lemma crash_leaves:
  assumes "rkyv_ok E" and "life E L fp nd labs s" and "\<forall>c \<in> set (batches_of labs @ [next_batch s]). framed_ok E c"
  shows "\<exists>ds \<in> {batches_of labs, batches_of labs @ [next_batch s]}.
    recover_and_truncate_torn_frames E True (Some (wal_file (drain_and_write E fault (nd_wal (dm_node s))))) =
      (Some (concat (map (wal_frame E) ds)), length (concat (map (wal_frame E) ds)), frame_index E 0 [] ds)
    \<and> (fault = No_Fault \<longrightarrow> ds = batches_of labs @ [next_batch s])"
proof -
  let ?w0 = "nd_wal (dm_node s)"
  let ?w1 = "?w0\<lparr>wal_queue := drop batch_limit (wal_queue ?w0)\<rparr>"
  have "clean_wal E [] (nd_wal nd)" using assms(2)
    by (simp add: life_def clean_wal_def wal_start_def recover_and_truncate_torn_frames_def)
  then have "clean_wal E (batches_of labs) ?w0"
    using life_run_clean [of E L fp "\<lparr>dm_node = nd, dm_flights = []\<rparr>" labs s "[]"] assms(2) by (auto simp: life_def batches_of_def)
  then have c: "clean_wal E (batches_of labs) ?w1" by (simp add: clean_wal_def)
  have "drain_and_write E fault ?w0 = write_batch_to_disk E fault ?w1 (next_batch s)"
    by (simp add: drain_and_write_def next_batch_def Let_def)
  then show ?thesis using crashed_write_recovers [OF assms(1) c assms(3), of fault] by simp
qed

section \<open>A concrete life\<close>

text \<open>
  A serialisation with a tag, for which a batch of one log is read as that log or not, and a life in
  which one thought was written and another is being written when the crash comes.
\<close>

definition demo_tag_read :: "bytes \<Rightarrow> op_log option" where
  "demo_tag_read b = (case b of [] \<Rightarrow> None | t # r \<Rightarrow> if t = 0 then whole get_oplog r else None)"

definition demo_tags :: "bool \<Rightarrow> ext" where
  "demo_tags single = demo\<lparr>
     x_oplog_to := (\<lambda>l. 0 # put_oplog l), x_oplog_access := demo_tag_read,
     x_oplog_unchecked := (\<lambda>b. or_else blank_oplog (demo_tag_read b)),
     x_oplogs_to := (\<lambda>ls. case ls of [l] \<Rightarrow> (if single then 0 # put_oplog l else 1 # put_list put_oplog [l])
                                  | _ \<Rightarrow> 1 # put_list put_oplog ls),
     x_oplogs_access := (\<lambda>b. case b of [] \<Rightarrow> None
        | t # r \<Rightarrow> if t = 0 then map_option (\<lambda>l. [l]) (whole get_oplog r) else whole (get_list get_oplog) r)\<rparr>"

lemma demo_tags_rkyv_ok: "rkyv_ok (demo_tags single)"
proof -
  have o: "x_oplogs_access (demo_tags single) (x_oplogs_to (demo_tags single) ls) = Some ls" for ls
    by (cases ls rule: remdups_adj.cases)
      (simp_all add: demo_tags_def whole_put [OF ok_oplog] whole_put [OF ok_list [OF ok_oplog]])
  show ?thesis
    using demo_rkyv_ok o unfolding rkyv_ok_def
    by (simp add: demo_tags_def demo_tag_read_def whole_put [OF ok_oplog])
qed

lemma demo_tags_fields [simp]:
  "x_blake3 (demo_tags single) = x_blake3 demo" "x_hex_encode (demo_tags single) = x_hex_encode demo"
  "x_hex_decode (demo_tags single) = x_hex_decode demo" "x_ed_key_ok (demo_tags single) = x_ed_key_ok demo"
  "x_ed_public (demo_tags single) = x_ed_public demo"
  by (simp_all add: demo_tags_def)

lemma demo_tags_other: "hash_ok (demo_tags single)" "hex_ok (demo_tags single)"
  unfolding hash_ok_def hex_ok_def demo_tags_fields
  by (fact demo_hash_ok [unfolded hash_ok_def], fact demo_hex_ok [unfolded hex_ok_def])

lemma demo_tags_reads:
  "x_oplog_access (demo_tags True) (wal_payload (demo_tags True) [l]) = Some l"
  "x_oplog_access (demo_tags False) (wal_payload (demo_tags False) [l]) = None"
  "length (wal_payload (demo_tags single) [l]) \<le> 10 + length (put_oplog l)"
  by (simp_all add: wal_payload_def demo_tags_def demo_tag_read_def whole_put [OF ok_oplog])
    (simp add: put_list_def)?

lemma demo_seal:
  assumes "hash_ok E" and "\<And>b. map_of (ax_buffers (nd_axon nd)) ''a'' = Some b \<Longrightarrow> ab_parent_root b = zeros 32"
  shows "\<exists>nd' f raw. cascade_seal E demo_crdt 0 tx nd (demo_state (replicate 16 1) ''a'' ''x'') [] [] = (nd', Inr f)
     \<and> ol_txid (fl_log f) = tx \<and> length (put_oplog (fl_log f)) \<le> 1000 \<and> nd_wal nd' = nd_wal nd
     \<and> nd_axon nd' = fst (seal_thought E (nd_axon nd) raw) \<and> ol_namespace raw = ''a''"
proof -
  let ?st = "demo_state (replicate 16 1) ''a'' ''x''"
  obtain nd' f where c: "cascade_seal E demo_crdt 0 tx nd ?st [] [] = (nd', Inr f)" "ol_txid (fl_log f) = tx"
    using seal_named [OF demo_crdt_ok demo_named] by blast
  have d: "append_agent_thought demo_crdt doc h st = (doc', Inr delta) \<Longrightarrow> delta = [1]" for doc h st doc' delta
    by (auto simp: append_agent_thought_def demo_crdt_def Let_def split: option.splits)
  let ?raw = "raw_log (replicate 16 1) (enriched_state 0 tx (replicate 16 1) ?st) [1] [] []"
  have s: "seal_thought E (nd_axon nd) ?raw = (nd_axon nd', fl_log f, fl_batch f)"
    using c(1) by (auto simp: cascade_seal_def demo_state_def zeros_def Let_def split: prod.splits sum.splits if_splits dest!: d)
  have "fl_log f = ?raw\<lparr>ol_previous_hash := zeros 32, ol_current_hash := leaf_hash E [1] (replicate 16 1)\<rparr>"
    using s assms(2) unfolding seal_thought_def Let_def
    by (cases "map_of (ax_buffers (nd_axon nd)) ''a''")
      (auto simp: raw_log_def enriched_state_def demo_state_def split: prod.splits)
  then have "length (ol_previous_hash (fl_log f)) = 32 \<and> length (ol_current_hash (fl_log f)) = 32"
    using assms(1) by (simp add: leaf_hash_def hash_ok_def zeros_def)
  then have "length (put_oplog (fl_log f)) \<le> 1000"
    using seal_thought_sealed [OF s]
    by (simp add: put_oplog_def put_state_def put_list_def raw_log_def enriched_state_def demo_state_def)
  then show ?thesis
    using c s cascade_seal_node [OF c(1)]
    by (intro exI [of _ nd'] exI [of _ f] exI [of _ ?raw]) (simp add: raw_log_def enriched_state_def demo_state_def)
qed

lemma seal_first_parent:
  assumes "ol_namespace raw = ''a''" and "map_of (ax_buffers (fst (seal_thought E axon_new raw))) ''a'' = Some b"
  shows "ab_parent_root b = zeros 32"
  using assms by (auto simp: seal_thought_def ingest_leaf_internal_def buffer_entry_def push_leaf_def axon_new_def
      axon_cap_def update_conv' Let_def)

lemma demo_life:
  "\<exists>labs s l1 l2. life (demo_tags single) demo_crdt ''wal'' demo_node labs s \<and> batches_of labs = [[l1]]
     \<and> next_batch s = [l2] \<and> sealed_by labs = [l1, l2] \<and> ol_txid l1 = 1 \<and> ol_txid l2 = 2
     \<and> framed_ok (demo_tags single) [l1] \<and> framed_ok (demo_tags single) [l2]"
proof -
  let ?E = "demo_tags single"
  let ?s0 = "\<lparr>dm_node = demo_node, dm_flights = []\<rparr>"
  have w0: "nd_wal demo_node = wal_start ?E True None" "wal_queue (nd_wal demo_node) = []" "nd_axon demo_node = axon_new"
    by (simp_all add: demo_node_def wal_start_def recover_and_truncate_torn_frames_def)
  obtain nd1 f1 raw1 where 1: "cascade_seal ?E demo_crdt 0 1 demo_node (demo_state (replicate 16 1) ''a'' ''x'') [] [] = (nd1, Inr f1)"
    "ol_txid (fl_log f1) = 1" "length (put_oplog (fl_log f1)) \<le> 1000" "nd_wal nd1 = nd_wal demo_node"
    "nd_axon nd1 = fst (seal_thought ?E axon_new raw1)" "ol_namespace raw1 = ''a''"
    using demo_seal [OF demo_tags_other(1), of demo_node single 1] w0(3) by (auto simp: axon_new_def)
  define nd2 where "nd2 = cascade_publish ?E nd1 f1"
  define nd3 where "nd3 = nd2\<lparr>nd_wal := drain_and_write ?E No_Fault (nd_wal nd2)\<rparr>"
  have q2: "wal_queue (nd_wal nd2) = [fl_log f1]" using 1(4) w0(2) by (simp add: nd2_def wal_append_def)
  then have q3: "wal_queue (nd_wal nd3) = []" by (simp add: nd3_def drain_and_write_def batch_limit_def)
  have ax3: "nd_axon nd3 = fst (seal_thought ?E axon_new raw1)" using 1(5) by (simp add: nd3_def nd2_def)
  obtain nd4 f2 raw2 where 4: "cascade_seal ?E demo_crdt 0 2 nd3 (demo_state (replicate 16 1) ''a'' ''x'') [] [] = (nd4, Inr f2)"
    "ol_txid (fl_log f2) = 2" "length (put_oplog (fl_log f2)) \<le> 1000" "nd_wal nd4 = nd_wal nd3"
    using demo_seal [OF demo_tags_other(1), of nd3 single 2] seal_first_parent [OF 1(6)] ax3 by metis
  define nd5 where "nd5 = cascade_publish ?E nd4 f2"
  have q5: "wal_queue (nd_wal nd5) = [fl_log f2]" using 4(4) q3 by (simp add: nd5_def wal_append_def)
  let ?run = "life_run ?E demo_crdt ''wal'' ?s0"
  let ?l1 = "fl_log f1" and ?l2 = "fl_log f2"
  have r1: "?run [Sealed ?l1] \<lparr>dm_node = nd1, dm_flights = [f1]\<rparr>"
    using Life_Step [OF Life_Nil life_step.Seal [of ?E demo_crdt 0 1 ?s0 _ "[]" "[]" nd1 f1 "''wal''"]] 1(1) by simp
  have r2: "?run [Sealed ?l1, Published 0] \<lparr>dm_node = nd2, dm_flights = []\<rparr>"
    using Life_Step [OF r1 life_step.Publish [of 0 _ ?E demo_crdt "''wal''"]] 1(4) w0(2)
    by (simp add: channel_capacity_def nd2_def)
  have dr: "wal_step ?E ''wal'' (nd_wal nd2) (Wrote [?l1] No_Fault) (drain_and_write ?E No_Fault (nd_wal nd2))"
    using wal_step.Drain [of "nd_wal nd2" ?E "''wal''" No_Fault] q2 by (simp add: batch_limit_def)
  have r3: "?run [Sealed ?l1, Published 0, Persisted (Wrote [?l1] No_Fault)] \<lparr>dm_node = nd3, dm_flights = []\<rparr>"
    using Life_Step [OF r2 life_step.Persist [of ?E "''wal''" _ _ _ demo_crdt]] dr by (simp add: nd3_def)
  have r4: "?run [Sealed ?l1, Published 0, Persisted (Wrote [?l1] No_Fault), Sealed ?l2] \<lparr>dm_node = nd4, dm_flights = [f2]\<rparr>"
    using Life_Step [OF r3 life_step.Seal [of ?E demo_crdt 0 2 _ _ "[]" "[]" nd4 f2 "''wal''"]] 4(1) by simp
  have r5: "?run [Sealed ?l1, Published 0, Persisted (Wrote [?l1] No_Fault), Sealed ?l2, Published 0]
      \<lparr>dm_node = nd5, dm_flights = []\<rparr>"
    using Life_Step [OF r4 life_step.Publish [of 0 _ ?E demo_crdt "''wal''"]] 4(4) q3
    by (simp add: channel_capacity_def nd5_def)
  let ?labs = "[Sealed ?l1, Published 0, Persisted (Wrote [?l1] No_Fault), Sealed ?l2, Published 0]"
  have wl: "worker_labels ?labs = [Wrote [?l1] No_Fault]" by (simp add: worker_labels_def)
  have "life ?E demo_crdt ''wal'' demo_node ?labs \<lparr>dm_node = nd5, dm_flights = []\<rparr>"
    using r5 w0 by (simp add: life_def wl unrotated_def in_order_def)
  moreover have "framed_ok ?E [?l1]" "framed_ok ?E [?l2]"
    using demo_tags_reads(3) [of single ?l1] demo_tags_reads(3) [of single ?l2] 1(3) 4(3) by (simp_all add: framed_ok_def)
  ultimately show ?thesis
    using 1(2) 4(2) q5 wl
    by (intro exI [of _ ?labs] exI [of _ "\<lparr>dm_node = nd5, dm_flights = []\<rparr>"] exI [of _ ?l1] exI [of _ ?l2])
      (simp add: batches_of_def next_batch_def batch_limit_def sealed_by_def)
qed


lemma racing_cascades_reorder_the_log_witness:
  "\<exists>labs nd' l1 l2. life_run demo demo_crdt ''wal'' \<lparr>dm_node = demo_node, dm_flights = []\<rparr> labs \<lparr>dm_node = nd', dm_flights = []\<rparr>
     \<and> sealed_by labs = [l1, l2] \<and> wal_queue (nd_wal nd') = [l2, l1]"
proof -
  have n: "nd_axon demo_node = axon_new" "wal_queue (nd_wal demo_node) = []"
    by (simp_all add: demo_node_def wal_start_def recover_and_truncate_torn_frames_def)
  from racing_cascades_reorder_the_log [OF demo_crdt_ok demo_named [of "''a''" "''x''"] demo_named [of "''a''" "''y''"] _ _ n, of 1 2 demo "''wal''"]
  show ?thesis by (auto simp: demo_state_def; blast)
qed

section \<open>The ledger stays well typed\<close>

text \<open>
  The arrays of the source are byte lists here. A ledger is well typed when every leaf, parent and root
  has the 32 bytes of its array, and the three vectors of a buffer have one length below the
  capacity.
\<close>

definition buffer_typed :: "active_tree_buffer \<Rightarrow> bool" where
  "buffer_typed b \<longleftrightarrow> length (ab_parent_root b) = 32 \<and> list_all (\<lambda>l. length l = 32) (ab_leaves b)
     \<and> length (ab_logs b) = length (ab_leaves b) \<and> length (ab_tx_ids b) = length (ab_leaves b)
     \<and> length (ab_leaves b) < axon_cap"

definition batch_typed :: "markle_batch \<Rightarrow> bool" where
  "batch_typed b \<longleftrightarrow> length (mb_markle_root b) = 32 \<and> length (mb_parent_batch_root b) = 32
     \<and> list_all (\<lambda>l. length l = 32) (mb_leaves b) \<and> length (mb_leaves b) = axon_cap"

definition ledger_typed :: "axon \<Rightarrow> bool" where
  "ledger_typed ax \<longleftrightarrow> (\<forall>ns b. map_of (ax_buffers ax) ns = Some b \<longrightarrow> buffer_typed b)
     \<and> (\<forall>i b. ax_archive ax i = Some b \<longrightarrow> batch_typed b)"

lemma ledger_typed_new: "ledger_typed axon_new"
  by (simp add: ledger_typed_def axon_new_def)

lemma root_loop_typed:
  "hash_ok E \<Longrightarrow> leaves \<noteq> [] \<Longrightarrow> list_all (\<lambda>l. length l = 32) leaves \<Longrightarrow>
   root_loop E leaves \<noteq> [] \<and> list_all (\<lambda>l. length l = 32) (root_loop E leaves)"
proof (induction E leaves rule: root_loop.induct)
  case (1 E leaves)
  have n: "list_all (\<lambda>l. length l = 32) xs \<Longrightarrow> list_all (\<lambda>l. length l = 32) (next_level E xs)" for xs
    using "1.prems"(1) by (induction E xs rule: next_level.induct) (auto simp: node_hash_def hash_ok_def)
  have p: "next_level E xs \<noteq> []" if "xs \<noteq> []" for xs
    using that by (cases "(E, xs)" rule: next_level.cases) simp_all
  show ?case
  proof (cases "1 < length leaves")
    case True
    then show ?thesis using "1.IH" "1.prems" n p by (simp add: root_loop.simps [of E leaves])
  qed (use "1.prems" in \<open>simp add: root_loop.simps [of E leaves]\<close>)
qed

lemma length_compute_markle_root:
  "hash_ok E \<Longrightarrow> list_all (\<lambda>l. length l = 32) leaves \<Longrightarrow> length (compute_markle_root E leaves) = 32"
  using root_loop_typed [of E leaves] by (cases "root_loop E leaves") (auto simp: compute_markle_root_def zeros_def)

lemma ingest_typed:
  assumes "hash_ok E" and "ledger_typed ax" and "length leaf = 32" and "ingest_leaf_internal E ax ns leaf log = (ax', bo)"
  shows "ledger_typed ax'"
proof -
  obtain ax1 b where e: "buffer_entry ax ns = (ax1, b)" by fastforce
  have b: "buffer_typed b" "ledger_typed ax1"
    using e assms(2) by (auto simp: buffer_entry_def ledger_typed_def buffer_typed_def zeros_def axon_cap_def update_conv'
        Let_def split: option.splits if_splits)
  let ?b = "b\<lparr>ab_leaves := ab_leaves b @ [leaf], ab_logs := ab_logs b @ [log], ab_tx_ids := ab_tx_ids b @ [ol_txid log]\<rparr>"
  have r: "length (compute_markle_root E (ab_leaves b @ [leaf])) = 32"
    using assms(1,3) b(1) by (intro length_compute_markle_root) (auto simp: buffer_typed_def list_all_iff)
  show ?thesis
    using assms(3,4) b r
    by (auto simp: ingest_leaf_internal_def e push_leaf_def crystallize_def ledger_typed_def buffer_typed_def batch_typed_def
        update_conv' axon_cap_def Let_def split: if_splits)
qed

lemma seal_typed:
  assumes "hash_ok E" and "ledger_typed ax" and "seal_thought E ax log = (ax', log', bo)"
  shows "ledger_typed ax' \<and> length (ol_previous_hash log') = 32 \<and> length (ol_current_hash log') = 32"
proof -
  have l: "length (leaf_hash E (ol_delta log) (ol_agent_id log)) = 32" using assms(1) by (simp add: leaf_hash_def hash_ok_def)
  have "ledger_typed ax'"
    using assms(3) ingest_typed [OF assms(1,2) l] by (auto simp: seal_thought_def Let_def split: prod.splits)
  moreover have "length (ol_previous_hash log') = 32"
    using assms(2,3) by (cases "map_of (ax_buffers ax) (ol_namespace log)")
      (auto simp: seal_thought_def Let_def ledger_typed_def buffer_typed_def zeros_def split: prod.splits)
  moreover have "length (ol_current_hash log') = 32"
    using assms(3) l by (auto simp: seal_thought_def Let_def split: prod.splits)
  ultimately show ?thesis by simp
qed

lemma life_step_typed:
  assumes "life_step E L fp s lab s'" and "hash_ok E" and "ledger_typed (nd_axon (dm_node s))"
  shows "ledger_typed (nd_axon (dm_node s'))
     \<and> (\<forall>log. lab = Sealed log \<longrightarrow> length (ol_previous_hash log) = 32 \<and> length (ol_current_hash log) = 32)"
  using assms(1)
proof (cases rule: life_step.cases)
  case (Seal now tx st seeds resp nd f)
  then obtain raw where "seal_thought E (nd_axon (dm_node s)) raw = (nd_axon nd, fl_log f, fl_batch f)"
    using cascade_seal_node [OF Seal(3)] by auto
  then show ?thesis using seal_typed [OF assms(2,3)] Seal by auto
next
  case (Refuse now tx st seeds resp nd e)
  then show ?thesis using cascade_seal_node [OF Refuse(3)] assms(3) by simp
qed (use assms(3) in simp_all)

lemma in_sealed_by: "log \<in> set (sealed_by labs) \<longleftrightarrow> Sealed log \<in> set labs"
  by (induction labs) (auto simp: sealed_by_def split: life_label.splits)

text \<open>
  C10. Typing is preserved by every interleaving of tasks and worker, and every sealed log carries a parent
  and a leaf of 32 bytes.
\<close>

theorem lives_preserve_typing:
  assumes "hash_ok E" and "life_run E L fp s labs s'" and "ledger_typed (nd_axon (dm_node s))"
  shows "ledger_typed (nd_axon (dm_node s'))
     \<and> list_all (\<lambda>l. length (ol_previous_hash l) = 32 \<and> length (ol_current_hash l) = 32) (sealed_by labs)"
proof -
  have "ledger_typed (nd_axon (dm_node s')) \<and> (\<forall>l \<in> set labs. \<forall>log. l = Sealed log \<longrightarrow>
      length (ol_previous_hash log) = 32 \<and> length (ol_current_hash log) = 32)"
    by (rule life_runs.run_invariant [where keeps = "\<lambda>s. ledger_typed (nd_axon (dm_node s))", OF assms(2,3)])
      (rule life_step_typed [OF _ assms(1)])
  then show ?thesis by (auto simp: list_all_iff in_sealed_by)
qed

lemma lives_preserve_typing_witness:
  "\<exists>labs s. life (demo_tags True) demo_crdt ''wal'' demo_node labs s \<and> ledger_typed (nd_axon (dm_node s))
     \<and> sealed_by labs \<noteq> []"
proof -
  obtain labs s l1 l2 where l: "life (demo_tags True) demo_crdt ''wal'' demo_node labs s" "sealed_by labs = [l1, l2]"
    using demo_life [of True] by blast
  then have "life_run (demo_tags True) demo_crdt ''wal'' \<lparr>dm_node = demo_node, dm_flights = []\<rparr> labs s"
    by (simp add: life_def)
  from lives_preserve_typing [OF demo_tags_other(1) this] l show ?thesis
    by (intro exI [of _ labs] exI [of _ s]) (simp add: demo_node_def ledger_typed_new)
qed

end
