(* ===== verification/Daemon.thy ===== *)
theory Daemon
  imports Orchestrator Lifecycle
begin

text \<open>
  The boot sequence of src/raqim-core/src/main.rs, from the settings to the listening sockets, as one
  function of what it finds; and what a boot after a crash gives back of the life before.
\<close>

section \<open>The boot sequence\<close>

text \<open>
  The policy manifest: the text the boot writes when the file is missing, and the reading of it. An
  I/O failure leaves main with the error, a text that is no manifest panics.
\<close>

definition default_toml :: string where
  \<open>default_toml = concat (map (\<lambda>l. CHR 0x0A # replicate 8 (CHR '' '') @ l)
     [''# Default Raqim Aegis Policy Manifest (Auto-Generated)'', ''[groups.admin_group]'',
      ''allowed_namespaces = ["*"]'', ''blocked_namespaces = []'', ''max_tps = 10000'', ''burst_capacity = 1000''])
   @ [CHR 0x0A] @ concat (map (\<lambda>l. CHR 0x0A # replicate 8 (CHR '' '') @ l)
     [''[groups.default_group]'', ''allowed_namespaces = ["/default/*"]'',
      ''blocked_namespaces = ["/admin/*", "/system/*"]'', ''max_tps = 100'', ''burst_capacity = 20'', []])\<close>

type_synonym policy_parser = "string \<Rightarrow> (string \<times> group_policy_config) list option"

definition policy_boot ::
  "policy_parser \<Rightarrow> bool \<Rightarrow> bool \<Rightarrow> string option \<Rightarrow> string option \<times> (string \<times> group_policy_config) list res" where
  "policy_boot parse write_ok read_ok src =
     (if src = None \<and> \<not> write_ok then (src, Inl (Err ''aegis.toml cannot be written''))
      else
        (let content = unwrap_or src default_toml in
         (Some content,
          if \<not> read_ok then Inl (Err ''aegis.toml cannot be read'')
          else case parse content of
                 None \<Rightarrow> Inl (Panic ''FATAL: Failed to parse initial aegis.toml configuration file'')
               | Some cfg \<Rightarrow> Inr cfg)))"

text \<open>What the boot finds: files, and which of the services it needs come up (\<open>bw_model_ok\<close>: the weights of the
  local embedding model, which the build with native embedding loads).\<close>

record boot_world =
  bw_toml :: toml_file
  bw_toml_write :: bool
  bw_pem_ok :: bool
  bw_key_io :: key_io
  bw_key_fresh :: bytes
  bw_key_file :: "bytes option"
  bw_policy_write :: bool
  bw_policy_read :: bool
  bw_policy_file :: "string option"
  bw_watch_ok :: bool
  bw_disk :: disk
  bw_truncate_ok :: bool
  bw_remove_ok :: bool
  bw_zenoh_ok :: bool
  bw_model_ok :: bool
  bw_lance_ok :: bool
  bw_plugins_ok :: bool
  bw_topic_ok :: bool
  bw_listen_ok :: bool
  bw_openai_key :: "string option"
  bw_embedder :: "embedder_choice \<Rightarrow> embedder"
  bw_witnesses :: "(string \<times> bytes) list"
  bw_immutable :: "string list"
  bw_bundles :: "string \<Rightarrow> http_reply"
  bw_nanos :: u64
  bw_node_id :: string

record 'd booted =
  bd_config :: raqim_config
  bd_node :: "'d node"
  bd_hot :: hot_buffer
  bd_disk :: disk
  bd_effects :: "(bytes \<times> effect_record) list"
  bd_api_port :: u16

definition require :: "bool \<Rightarrow> rust_fail \<Rightarrow> unit res" where
  "require ok e = (if ok then Inr () else Inl e)"

lemma require_Inr [simp]: "require ok e = Inr x \<longleftrightarrow> ok"
  by (simp add: require_def)

text \<open>The files after the recovery of the log, which truncates it before anything reads it.\<close>

definition recovered_disk :: "wal \<Rightarrow> string \<Rightarrow> disk \<Rightarrow> disk" where
  "recovered_disk wal wal_path dk =
     (case map_of (dk_files dk) wal_path of
        None \<Rightarrow> dk
      | Some _ \<Rightarrow> dk\<lparr>dk_files := AList.update wal_path (wal_file wal) (dk_files dk)\<rparr>)"

definition boot_engine :: "bytes \<Rightarrow> boot_world \<Rightarrow> worm_engine" where
  "boot_engine master w =
     \<lparr>we_key = master, we_bucket = None, we_files = bw_witnesses w, we_immutable = bw_immutable w, we_uploads = []\<rparr>"

definition boot_node ::
  "ext \<Rightarrow> raqim_config \<Rightarrow> boot_world \<Rightarrow> aegis \<Rightarrow> axon \<Rightarrow> 'd shard_registry \<Rightarrow> wal \<Rightarrow> 'd node" where
  "boot_node E config w ag ax rg wal =
     \<lparr>nd_axon = ax, nd_shards = rg, nd_wal = wal, nd_cortex = [],
      nd_net = boot_network (cf_topic config) (bw_node_id w),
      nd_bus = [SystemBoot ''Raqim Sovereign Core Active.''], nd_aegis = ag, nd_procs = [], nd_ui = []\<rparr>"

text \<open>The first half: settings, keys, policies and the firewall.\<close>

definition boot_security ::
  "ext \<Rightarrow> toml_crate \<Rightarrow> policy_parser \<Rightarrow> cli_args \<Rightarrow> boot_world \<Rightarrow> (raqim_config \<times> bytes \<times> aegis) res" where
  "boot_security E T parse args w =
     and_then (snd (load_or_bootstrap T (bw_toml_write w) args (bw_toml w))) (\<lambda>config.
     and_then (require (bw_pem_ok w) (Panic ''FATAL: Invalid RSA PEM format'')) (\<lambda>_.
     and_then (snd (load_master_key (bw_key_io w) (bw_key_fresh w) (bw_key_file w))) (\<lambda>master.
     and_then (snd (policy_boot parse (bw_policy_write w) (bw_policy_read w) (bw_policy_file w))) (\<lambda>policies.
     and_then (aegis_new E (to_group_policies (bw_nanos w) policies) (x_ed_public E master)) (\<lambda>ag.
     and_then (require (bw_watch_ok w) (Err ''aegis.toml cannot be watched'')) (\<lambda>_.
       Inr (config, master, ag)))))))"

text \<open>The second half: the log, the mesh, the stores, the hydration, the audit and the sockets.\<close>

definition boot_state ::
  "ext \<Rightarrow> ('d, 'v) crdt \<Rightarrow> boot_world \<Rightarrow> raqim_config \<times> bytes \<times> aegis \<Rightarrow> 'd booted res" where
  "boot_state E L w security =
     (let (config, master, ag) = security;
          wal = wal_start E (bw_truncate_ok w) (map_of (dk_files (bw_disk w)) (cf_wal_path config));
          disk = recovered_disk wal (cf_wal_path config) (bw_disk w)
      in
     and_then (require (bw_zenoh_ok w) (Panic ''Failed to start zenoh'')) (\<lambda>_.
     and_then (select_embedder (bw_openai_key w) config) (\<lambda>provider.
     and_then (require (provider \<noteq> Local_Bge_Provider \<or> bw_model_ok w) (Panic ''FATAL: Failed to load BGE weights.'')) (\<lambda>_.
     and_then (require (bw_lance_ok w) (Panic ''Failed to connect to lanceDB'')) (\<lambda>_.
     (case phoenix_boot E L (bw_embedder w provider) (bw_remove_ok w) (cf_wal_path config) disk
             (axon_new, shard_registry_new) [] of
        (disk1, r) \<Rightarrow>
     and_then r (\<lambda>(ax, rg, hot).
     (case boot_audit E (bw_bundles w) (boot_engine master w) ax of
        (ax1, audit) \<Rightarrow>
     and_then audit (\<lambda>_.
     and_then (require (bw_plugins_ok w) (Panic ''Failed to create plugins dir'')) (\<lambda>_.
     and_then (require (bw_topic_ok w) (Panic ''Invalid topic name'')) (\<lambda>_.
     and_then (require (bw_listen_ok w) (Panic ''called Result::unwrap() on an Err value'')) (\<lambda>_.
       Inr \<lparr>bd_config = config, bd_node = boot_node E config w ag ax1 rg wal, bd_hot = hot, bd_disk = disk1,
            bd_effects = [], bd_api_port = api_port config\<rparr>))))))))))))"

definition boot_daemon ::
  "ext \<Rightarrow> ('d, 'v) crdt \<Rightarrow> toml_crate \<Rightarrow> policy_parser \<Rightarrow> cli_args \<Rightarrow> boot_world \<Rightarrow> 'd booted res" where
  "boot_daemon E L T parse args w = and_then (boot_security E T parse args w) (boot_state E L w)"

text \<open>What a boot that came up has: the two halves.\<close>

lemma booted_security:
  assumes "boot_security E T parse args w = Inr (config, master, ag)"
  shows "snd (load_or_bootstrap T (bw_toml_write w) args (bw_toml w)) = Inr config"
    and "snd (load_master_key (bw_key_io w) (bw_key_fresh w) (bw_key_file w)) = Inr master"
    and "ag_quarantine ag = []" and "ag_master ag = x_ed_public E master"
  using assms by (auto simp: boot_security_def and_then_Inr aegis_new_def split: if_splits)

lemma booted_state:
  assumes "boot_state E L w (config, master, ag) = Inr bd"
    and "wal = wal_start E (bw_truncate_ok w) (map_of (dk_files (bw_disk w)) (cf_wal_path config))"
  shows "\<exists>em disk1 ax rg. phoenix_boot E L em (bw_remove_ok w) (cf_wal_path config)
        (recovered_disk wal (cf_wal_path config) (bw_disk w)) (axon_new, shard_registry_new) [] = (disk1, Inr (ax, rg, bd_hot bd))
     \<and> bd_node bd = boot_node E config w ag ax rg wal \<and> bd_effects bd = [] \<and> bd_config bd = config"
proof -
  let ?boot = "\<lambda>provider. phoenix_boot E L (bw_embedder w provider) (bw_remove_ok w) (cf_wal_path config)
        (recovered_disk wal (cf_wal_path config) (bw_disk w)) (axon_new, shard_registry_new) []"
  from assms(1) obtain provider where p: "select_embedder (bw_openai_key w) config = Inr provider"
    by (auto simp: boot_state_def Let_def and_then_Inr)
  obtain disk1 r where b: "?boot provider = (disk1, r)" by fastforce
  then obtain ax rg hot where "r = Inr (ax, rg, hot)"
    "bd = \<lparr>bd_config = config, bd_node = boot_node E config w ag ax rg wal, bd_hot = hot, bd_disk = disk1,
            bd_effects = [], bd_api_port = api_port config\<rparr>"
    using assms p by (auto simp: boot_state_def Let_def and_then_Inr boot_audit_examines_nothing)
  then show ?thesis using b by (intro exI [of _ "bw_embedder w provider"] exI [of _ disk1] exI [of _ ax] exI [of _ rg]) simp
qed

section \<open>What the next life finds\<close>

lemma phoenix_boot_log:
  assumes "phoenix_boot E L em ok wal_path dk (axon_new, shard_registry_new) [] = (dk', Inr (ax, rg, hot))"
    and "dk_manifest dk = None" and "map_of (dk_files dk) wal_path = Some (concat (map (wal_frame E) ds))"
    and "\<forall>d \<in> set ds. framed_ok E d"
  shows "ax = hydrate_run E axon_new (readable_logs E ds)"
proof -
  let ?bcs = "map (\<lambda>d. (d, crc_bytes E d)) ds"
  have f: "concat (map (wal_frame E) ds) = concat (map (loose_frame E) ?bcs)" "map fst ?bcs = ds"
    by (simp_all add: loose_frame_crc comp_def)
  have l: "\<forall>bc \<in> set ?bcs. framed_ok E (fst bc) \<and> length (snd bc) = 4"
    using assms(4) by (auto simp: crc_bytes_def)
  have e: "phoenix_loop E L [] s = s" for s by (simp add: phoenix_loop.simps)
  have p: "phoenix_loop E L (concat (map (wal_frame E) ds)) s = foldl (phoenix_step E L) s (readable_logs E ds)" for s
    using phoenix_frames [OF l, of L "[]" s] e unfolding f(2) by (simp add: f(1) del: map_map)
  have "fst (phoenix_scan E L dk [wal_path] (axon_new, shard_registry_new)) = ax"
    using assms(1-3) by (auto simp: phoenix_boot_def files_to_scan_def manifest_check_def and_then_Inr split: prod.splits)
  then show ?thesis
    using assms(3) phoenix_step_parts(1) [of E L "(axon_new, shard_registry_new, [])"] by (simp add: phoenix_scan_def p)
qed

text \<open>The directory after a crash in the middle of the write of the next batch.\<close>

definition found_after_crash :: "ext \<Rightarrow> 'd daemon \<Rightarrow> io_fault \<Rightarrow> string \<Rightarrow> boot_world \<Rightarrow> bool" where
  "found_after_crash E s fault wal_path w \<longleftrightarrow> bw_truncate_ok w \<and> dk_manifest (bw_disk w) = None
     \<and> map_of (dk_files (bw_disk w)) wal_path = Some (wal_file (drain_and_write E fault (nd_wal (dm_node s))))"

text \<open>What a boot on such a disk hydrates.\<close>

lemma crash_and_boot:
  assumes "rkyv_ok E" and "life E L fp nd labs s" and "\<forall>c \<in> set (batches_of labs @ [next_batch s]). framed_ok E c"
    and "boot_daemon E L T parse args w = Inr bd" and "found_after_crash E s fault (cf_wal_path (bd_config bd)) w"
  shows "\<exists>ds \<in> {batches_of labs, batches_of labs @ [next_batch s]}.
     nd_axon (bd_node bd) = hydrate_run E axon_new (readable_logs E ds)
     \<and> (fault = No_Fault \<longrightarrow> ds = batches_of labs @ [next_batch s])
     \<and> wal_file (nd_wal (bd_node bd)) = concat (map (wal_frame E) ds)
     \<and> wal_index (nd_wal (bd_node bd)) = frame_index E 0 [] ds"
proof -
  obtain ds where ds: "ds \<in> {batches_of labs, batches_of labs @ [next_batch s]}" "fault = No_Fault \<longrightarrow> ds = batches_of labs @ [next_batch s]"
    "recover_and_truncate_torn_frames E True (Some (wal_file (drain_and_write E fault (nd_wal (dm_node s))))) =
      (Some (concat (map (wal_frame E) ds)), length (concat (map (wal_frame E) ds)), frame_index E 0 [] ds)"
    using crash_leaves [OF assms(1-3), of fault] by blast
  obtain config master ag where sec: "boot_security E T parse args w = Inr (config, master, ag)"
    and st: "boot_state E L w (config, master, ag) = Inr bd"
    using assms(4) by (auto simp: boot_daemon_def and_then_Inr)
  define wal where "wal = wal_start E (bw_truncate_ok w) (map_of (dk_files (bw_disk w)) (cf_wal_path config))"
  obtain em disk1 ax rg where b: "phoenix_boot E L em (bw_remove_ok w) (cf_wal_path config)
        (recovered_disk wal (cf_wal_path config) (bw_disk w)) (axon_new, shard_registry_new) [] = (disk1, Inr (ax, rg, bd_hot bd))"
    and node: "bd_node bd = boot_node E config w ag ax rg wal" and cfg: "bd_config bd = config"
    using booted_state [OF st wal_def] by blast
  note found = assms(5) [unfolded found_after_crash_def cfg]
  have wal: "wal_file wal = concat (map (wal_frame E) ds)" "wal_index wal = frame_index E 0 [] ds"
    using found ds(3) by (simp_all add: wal_def wal_start_def)
  have "ax = hydrate_run E axon_new (readable_logs E ds)"
    by (rule phoenix_boot_log [OF b]) (use assms(3) found wal(1) ds(1) in \<open>auto simp: recovered_disk_def\<close>)
  then show ?thesis using ds wal node by (intro bexI [of _ ds]) (auto simp: boot_node_def)
qed



text \<open>
  C36. What a boot forgets: when no frame reads as a single log, which is what the type check of the reader
  says of a list of logs, the ledger of the new life is empty although the log holds every batch;
  and every boot starts with an empty quarantine and without recorded effects.
\<close>

theorem boot_forgets_the_ledger:
  assumes "rkyv_ok E" and "life E L fp nd labs s"
    and "\<forall>c \<in> set (batches_of labs @ [next_batch s]). framed_ok E c \<and> x_oplog_access E (wal_payload E c) = None"
    and "boot_daemon E L T parse args w = Inr bd" and "found_after_crash E s fault (cf_wal_path (bd_config bd)) w"
  shows "nd_axon (bd_node bd) = axon_new \<and> generate_proof_for_tx E (nd_axon (bd_node bd)) tx = Inr None"
proof -
  have fr: "\<forall>c \<in> set (batches_of labs @ [next_batch s]). framed_ok E c" using assms(3) by blast
  obtain ds where ds: "ds \<in> {batches_of labs, batches_of labs @ [next_batch s]}"
    "nd_axon (bd_node bd) = hydrate_run E axon_new (readable_logs E ds)"
    using crash_and_boot [OF assms(1,2) fr assms(4,5)] by blast
  have "\<forall>c \<in> set cs. x_oplog_access E (wal_payload E c) = None \<Longrightarrow> readable_logs E cs = []" for cs
    by (induction cs) auto
  then have "readable_logs E ds = []" using assms(3) ds(1) by auto
  then show ?thesis using ds(2) by (simp add: hydrate_run_def generate_proof_for_tx_def axon_new_def)
qed

theorem boot_forgets_the_quarantine:
  assumes "boot_daemon E L T parse args w = Inr bd"
  shows "\<not> is_quarantined (nd_aegis (bd_node bd)) agent_hex \<and> bd_effects bd = []"
proof -
  obtain config master ag where sec: "boot_security E T parse args w = Inr (config, master, ag)"
    and st: "boot_state E L w (config, master, ag) = Inr bd"
    using assms by (auto simp: boot_daemon_def and_then_Inr)
  show ?thesis using booted_state [OF st refl] booted_security(3) [OF sec] by (auto simp: boot_node_def is_quarantined_def)
qed

section \<open>A concrete crash\<close>

text \<open>A directory in which everything comes up, with a given log.\<close>

definition demo_world :: "bytes \<Rightarrow> boot_world" where
  "demo_world content =
     \<lparr>bw_toml = Absent, bw_toml_write = True, bw_pem_ok = True, bw_key_io = key_io_ok, bw_key_fresh = zeros 32,
      bw_key_file = None, bw_policy_write = True, bw_policy_read = True, bw_policy_file = None, bw_watch_ok = True,
      bw_disk = \<lparr>dk_files = [(''./production.wal'', content)], dk_manifest = None\<rparr>, bw_truncate_ok = True,
      bw_remove_ok = True, bw_zenoh_ok = True, bw_model_ok = True, bw_lance_ok = True, bw_plugins_ok = True, bw_topic_ok = True, bw_listen_ok = True,
      bw_openai_key = None, bw_embedder = \<lambda>_. mock_provider, bw_witnesses = [], bw_immutable = [],
      bw_bundles = \<lambda>_. Transport_Error [], bw_nanos = 0, bw_node_id = ''n''\<rparr>"

definition demo_toml :: toml_crate where
  "demo_toml = \<lparr>tc_parse = \<lambda>_. None, tc_print = \<lambda>_. []\<rparr>"

lemma mock_rebuilds: "\<exists>es. rebuild_hot E mock_provider logs [] = Inr es"
  using traverse_hot_entries [of 0 logs "replicate (length logs) (replicate 768 0)" E]
  by (auto simp: rebuild_hot_def mock_provider_def)

lemma no_args_keep [simp]: "override_config no_args c = c"
  by (simp add: override_config_def no_args_def)

lemma demo_boots:
  "\<exists>bd. boot_daemon (demo_tags single) demo_crdt demo_toml (\<lambda>_. Some []) no_args (demo_world content) = Inr bd
     \<and> cf_wal_path (bd_config bd) = ''./production.wal''"
proof -
  let ?E = "demo_tags single" and ?w = "demo_world content"
  have k: "x_ed_key_ok ?E (x_ed_public ?E (zeros 32))" by (simp add: ed_ok_simps [OF demo_ed_ok])
  have "\<exists>ag. boot_security ?E demo_toml (\<lambda>_. Some []) no_args ?w = Inr (default_config, zeros 32, ag)"
    using k by (simp add: boot_security_def demo_world_def load_or_bootstrap_def load_master_key_def key_io_ok_def
        policy_boot_def aegis_new_def require_def)
  then obtain ag where sec: "boot_security ?E demo_toml (\<lambda>_. Some []) no_args ?w = Inr (default_config, zeros 32, ag)" ..
  let ?disk = "recovered_disk (wal_start ?E True (Some content)) ''./production.wal''
      \<lparr>dk_files = [(''./production.wal'', content)], dk_manifest = None\<rparr>"
  obtain dk1 files where f: "files_to_scan True ''./production.wal'' ?disk = (dk1, files)" by fastforce
  obtain ax rg logs where s: "phoenix_scan ?E demo_crdt dk1 files (axon_new, shard_registry_new) = (ax, rg, logs)"
    by (metis prod.exhaust)
  obtain hot where h: "rebuild_hot ?E mock_provider logs [] = Inr hot" using mock_rebuilds by blast
  have p: "phoenix_boot ?E demo_crdt mock_provider True ''./production.wal'' ?disk (axon_new, shard_registry_new) [] =
      (dk1, Inr (ax, rg, hot))"
    using f s h by (simp add: phoenix_boot_def)
  show ?thesis
    using sec p
    by (simp add: boot_daemon_def boot_state_def demo_world_def default_config_def select_embedder_def require_def
        boot_audit_examines_nothing)
qed

text \<open>The crash that leaves half of the second frame.\<close>

lemma demo_found:
  "cf_wal_path (bd_config bd) = ''./production.wal'' \<Longrightarrow>
   found_after_crash E s fault (cf_wal_path (bd_config bd)) (demo_world (wal_file (drain_and_write E fault (nd_wal (dm_node s)))))"
  by (simp add: found_after_crash_def demo_world_def)



lemma boot_forgets_the_ledger_witness:
  "\<exists>labs s bd. life (demo_tags False) demo_crdt ''wal'' demo_node labs s
     \<and> boot_daemon (demo_tags False) demo_crdt demo_toml (\<lambda>_. Some []) no_args
       (demo_world (wal_file (drain_and_write (demo_tags False) No_Fault (nd_wal (dm_node s))))) = Inr bd
     \<and> nd_axon (bd_node bd) = axon_new \<and> generate_proof_for_tx (demo_tags False) (nd_axon (bd_node bd)) 1 = Inr None"
proof -
  obtain labs s l1 l2 where l: "life (demo_tags False) demo_crdt ''wal'' demo_node labs s" "batches_of labs = [[l1]]"
    "next_batch s = [l2]" "framed_ok (demo_tags False) [l1]" "framed_ok (demo_tags False) [l2]"
    using demo_life [of False] by blast
  obtain bd where b: "boot_daemon (demo_tags False) demo_crdt demo_toml (\<lambda>_. Some []) no_args
       (demo_world (wal_file (drain_and_write (demo_tags False) No_Fault (nd_wal (dm_node s))))) = Inr bd"
    "cf_wal_path (bd_config bd) = ''./production.wal''" using demo_boots by blast
  have "\<forall>c \<in> set (batches_of labs @ [next_batch s]). framed_ok (demo_tags False) c
      \<and> x_oplog_access (demo_tags False) (wal_payload (demo_tags False) c) = None"
    using l demo_tags_reads(2) by simp
  from boot_forgets_the_ledger [OF demo_tags_rkyv_ok l(1) this b(1) demo_found [OF b(2)]] b(1) l(1)
  show ?thesis by blast
qed

lemma boot_forgets_the_quarantine_witness:
  "\<exists>bd. boot_daemon (demo_tags True) demo_crdt demo_toml (\<lambda>_. Some []) no_args (demo_world []) = Inr bd
     \<and> \<not> is_quarantined (nd_aegis (bd_node bd)) ''0a''"
  using demo_boots [of True "[]"] boot_forgets_the_quarantine by blast

end
