(* ===== verification/Planes.thy ===== *)
theory Planes
  imports Control_Plane
begin

text \<open>
  The planes the daemon publishes on: the shared-memory ports of src/raqim-core/src/cortex.rs, the
  health monitor of src/raqim-core/src/health.rs, and the loops of src/raqim-core/src/main.rs that
  sit on a broadcast channel or on the cortex channel. What iceoryx2 and the sensors answer are
  arguments. A receiver of a broadcast channel sees, from call to call, an event, the number of events it
  lagged behind, or the end of the channel. The lemmas show what a lag does to the two kinds of loop.
\<close>

section \<open>Loops on the event bus\<close>

datatype 'e recv = Received 'e | Lagged nat

text \<open>\<open>while let Ok(event) = rx.recv().await\<close>: the first lag ends it, like the end of the channel.\<close>

fun while_let_ok :: "('e \<Rightarrow> 's \<Rightarrow> 's) \<Rightarrow> 's \<Rightarrow> 'e recv list \<Rightarrow> 's" where
  "while_let_ok f s [] = s"
| "while_let_ok f s (Received e # rs) = while_let_ok f (f e s) rs"
| "while_let_ok f s (Lagged n # rs) = s"

text \<open>The match with an arm for the lag, which goes on.\<close>

fun match_recv :: "('e \<Rightarrow> 's \<Rightarrow> 's) \<Rightarrow> 's \<Rightarrow> 'e recv list \<Rightarrow> 's" where
  "match_recv f s [] = s"
| "match_recv f s (Received e # rs) = match_recv f (f e s) rs"
| "match_recv f s (Lagged n # rs) = match_recv f s rs"

definition received :: "'e recv list \<Rightarrow> 'e list" where
  "received rs = List.map_filter (\<lambda>r. case r of Received e \<Rightarrow> Some e | Lagged n \<Rightarrow> None) rs"

lemma received_simps [simp]:
  "received [] = []" "received (Received e # rs) = e # received rs" "received (Lagged n # rs) = received rs"
  by (simp_all add: received_def List.map_filter_simps)

text \<open>The consumer of the boot messages, and the loops that evict, relay and archive.\<close>

definition bus_consumer :: "system_event recv list \<Rightarrow> string list" where
  "bus_consumer rs = match_recv (\<lambda>e out. case e of SystemBoot message \<Rightarrow> out @ [message] | _ \<Rightarrow> out) [] rs"

definition compaction_loop :: "hot_buffer \<Rightarrow> system_event recv list \<Rightarrow> hot_buffer" where
  "compaction_loop buf rs = while_let_ok (\<lambda>e b. compaction_listener b e) buf rs"

definition quarantine_loop :: "ext \<Rightarrow> (quarantine_record \<Rightarrow> bool) \<Rightarrow> network \<Rightarrow> system_event recv list \<Rightarrow> network" where
  "quarantine_loop E put_ok nb rs =
     while_let_ok (\<lambda>e n. quarantine_relay E (case e of GlobalQuarantineSync q \<Rightarrow> put_ok q | _ \<Rightarrow> True) n e) nb rs"

text \<open>The audit sinker; a panic while an event is written ends its task.\<close>

definition vault_loop ::
  "'db lance \<Rightarrow> ext \<Rightarrow> (system_event \<Rightarrow> i64 \<times> bool) \<Rightarrow> 'db lance_engine \<times> network \<Rightarrow> system_event recv list
   \<Rightarrow> ('db lance_engine \<times> network) res" where
  "vault_loop LA E draw s rs =
     while_let_ok (\<lambda>e r. and_then r (\<lambda>s. vault_sinker LA E (fst (draw e)) (snd (draw e)) s e)) (Inr s) rs"

lemma while_let_ok_all: "while_let_ok f s (map Received es) = foldl (\<lambda>s e. f e s) s es"
  by (induction es arbitrary: s) simp_all

lemma received_append [simp]: "received (map Received es @ rs) = es @ received rs" "received (map Received es) = es"
  by (induction es) simp_all

lemma while_let_ok_prefix: "while_let_ok f s (map Received es @ Lagged n # rs) = foldl (\<lambda>s e. f e s) s es"
  by (induction es arbitrary: s) simp_all

lemma match_recv_all: "match_recv f s rs = foldl (\<lambda>s e. f e s) s (received rs)"
  by (induction f s rs rule: match_recv.induct) simp_all

text \<open>
  One lag ends the eviction for good: whatever compactions are announced after it, the hot memory keeps
  what it had, while the consumer of the boot messages, on the same bus, goes on.
\<close>

theorem lag_stops_the_eviction:
  "compaction_loop buf (map Received es @ Lagged n # rs) = compaction_loop buf (map Received es)
   \<and> bus_consumer (map Received es @ Lagged n # rs) = bus_consumer (map Received (es @ received rs))"
  by (simp add: compaction_loop_def bus_consumer_def while_let_ok_prefix while_let_ok_all match_recv_all)

section \<open>The shared-memory ports\<close>

record ipc =
  ip_name_ok :: "string \<Rightarrow> bool"
  ip_node :: "string option"
  ip_service :: "string \<Rightarrow> string option"
  ip_port :: "string \<Rightarrow> string option"

text \<open>\<open>None\<close> is success, \<open>Some e\<close> the error of the step; the two ports differ in the last step only.\<close>

definition cortex_new :: "ipc \<Rightarrow> string \<Rightarrow> string res" where
  "cortex_new I topic = (if ip_name_ok I topic then Inr topic else Inl (Panic ''Invalid topic name''))"

definition ipc_step :: "string option \<Rightarrow> unit res" where
  "ipc_step r = (case r of None \<Rightarrow> Inr () | Some e \<Rightarrow> Inl (Err e))"

definition create_port :: "ipc \<Rightarrow> string \<Rightarrow> string res" where
  "create_port I service_name =
     and_then (ipc_step (ip_node I)) (\<lambda>_. and_then (ipc_step (ip_service I service_name)) (\<lambda>_.
     and_then (ipc_step (ip_port I service_name)) (\<lambda>_. Inr service_name)))"

text \<open>A publishing thread: a payload for which no memory can be loaned is dropped.\<close>

definition publish_all :: "(bytes \<Rightarrow> bool) \<Rightarrow> bytes list \<Rightarrow> bytes list" where
  "publish_all loan_ok payloads = filter loan_ok payloads"

definition expect_port :: "string \<Rightarrow> string res \<Rightarrow> string res" where
  "expect_port message r = (case r of Inl (Err e) \<Rightarrow> Inl (Panic message) | _ \<Rightarrow> r)"

definition telemetry_thread ::
  "ipc \<Rightarrow> (system_event \<Rightarrow> bytes) \<Rightarrow> (bytes \<Rightarrow> bool) \<Rightarrow> string \<Rightarrow> system_event recv list \<Rightarrow> bytes list res" where
  "telemetry_thread I to_bytes loan_ok topic rs =
     and_then (cortex_new I (topic @ ''_telemetry'')) (\<lambda>name.
     and_then (expect_port ''Failed to create telemetry pub'' (create_port I name)) (\<lambda>_.
       Inr (publish_all loan_ok (while_let_ok (\<lambda>e out. out @ [to_bytes e]) [] rs))))"

definition cortex_thread :: "ipc \<Rightarrow> (bytes \<Rightarrow> bool) \<Rightarrow> string \<Rightarrow> bytes list \<Rightarrow> bytes list res" where
  "cortex_thread I loan_ok topic payloads =
     and_then (cortex_new I topic) (\<lambda>name.
     and_then (expect_port ''Failed to map publisher'' (create_port I name)) (\<lambda>_.
       Inr (publish_all loan_ok payloads)))"

text \<open>
  The cortex thread publishes the logs of the cascades in their order, less those it got no memory for;
  the telemetry thread stops at its first lag.
\<close>

theorem published_in_order:
  assumes "ip_name_ok I topic" and "ip_name_ok I (topic @ ''_telemetry'')" and "ip_node I = None"
    and "ip_service I = (\<lambda>_. None)" and "ip_port I = (\<lambda>_. None)" and "loan_ok = (\<lambda>_. True)"
  shows "cortex_thread I loan_ok topic payloads = Inr payloads
     \<and> telemetry_thread I to_bytes loan_ok topic (map Received es @ Lagged n # rs) = Inr (map to_bytes es)"
proof -
  have "foldl (\<lambda>out e. out @ [to_bytes e]) acc es = acc @ map to_bytes es" for acc
    by (induction es arbitrary: acc) simp_all
  then show ?thesis
    using assms by (simp add: cortex_thread_def telemetry_thread_def cortex_new_def create_port_def ipc_step_def
        expect_port_def publish_all_def while_let_ok_prefix)
qed

section \<open>The health monitor\<close>

record 'f system_health =
  sh_cpu_load_percent :: 'f
  sh_wasm_memory_mb :: 'f
  sh_core_temp_celcius :: 'f
  sh_mesh_latency_ms :: nat

text \<open>What the sensors say: the load, the used memory in bytes, and the temperatures in the order found.\<close>

record 'f sensors =
  se_cpu_usage :: 'f
  se_used_memory :: u64
  se_temperatures :: "'f list"

text \<open>One turn of the loop: the payload, when anybody listens, and the sleep in milliseconds.\<close>

definition health_turn :: "(u64 \<Rightarrow> 'f) \<Rightarrow> 'f \<Rightarrow> nat \<Rightarrow> 'f sensors \<Rightarrow> 'f system_health option \<times> nat" where
  "health_turn to_mb zero receivers s =
     (if 0 < receivers then
        (Some \<lparr>sh_cpu_load_percent = se_cpu_usage s, sh_wasm_memory_mb = to_mb (se_used_memory s),
               sh_core_temp_celcius = (case se_temperatures s of [] \<Rightarrow> zero | t # ts \<Rightarrow> t),
               sh_mesh_latency_ms = 12\<rparr>, 1000)
      else (None, 5000))"

fun health_loop :: "(u64 \<Rightarrow> 'f) \<Rightarrow> 'f \<Rightarrow> (nat \<times> 'f sensors) list \<Rightarrow> 'f system_health list \<times> nat" where
  "health_loop to_mb zero [] = ([], 0)"
| "health_loop to_mb zero ((receivers, s) # turns) =
     (let (payload, slept) = health_turn to_mb zero receivers s;
          (rest, total) = health_loop to_mb zero turns
      in ((case payload of None \<Rightarrow> rest | Some p \<Rightarrow> p # rest), slept + total))"

text \<open>
  The monitor sends one reading a second while anybody listens and none otherwise; the mesh latency of
  every reading is the same constant.
\<close>

theorem health_readings:
  "length (fst (health_loop to_mb zero turns)) = length (filter (\<lambda>t. 0 < fst t) turns)
   \<and> snd (health_loop to_mb zero turns) =
       1000 * length (filter (\<lambda>t. 0 < fst t) turns) + 5000 * length (filter (\<lambda>t. fst t = 0) turns)
   \<and> list_all (\<lambda>h. sh_mesh_latency_ms h = 12) (fst (health_loop to_mb zero turns))"
  by (induction turns) (auto simp: health_turn_def split: prod.splits)

end
