(* ===== verification/Spec2Isabelle.thy ===== *)
theory Spec2Isabelle
  imports Witness Token_Bucket Mcp_Bridge Siege Shutdown Daemon Planes
begin

text \<open>
  Verification development of raqim, a daemon that records the thoughts of AI agents: every thought
  is authenticated, merged into the shared document of its namespace, sealed into a Merkle ledger, written
  to a log, published, and later compacted into a vector store from which agents are searched and
  resurrected.

  The program and its model. Paths without a prefix are under src/raqim-core/src/. Definitions carry the
  names of the functions and types they translate; record fields carry a prefix for their struct.

  \<^item> Data. \<open>Types\<close> holds the structs and enums of lib.rs and the wire types of the modules, \<open>Codec\<close> the
    functions of the standard library for formatting, parsing and byte order (utils.rs), \<open>Externs\<close> the
    third-party libraries as one record of functions (digests, signatures, hex, rkyv, postcard) with the laws the
    code relies on as named predicates, and \<open>Demo_Externs\<close> a concrete record that satisfies all of them,
    on which the witnesses are evaluated. \<open>Prelude\<close> has the machine integers, the result type (\<open>Err\<close> a returned
    error, \<open>Panic\<close> a panic) and the shared lemmas; \<open>Interfaces\<close> and \<open>Runs\<close> have the locales.
  \<^item> Ledger, axon.rs and witness.rs. \<open>Merkle\<close> is the tree, its sibling paths and the verifier; \<open>Axon\<close> the
    gatekeeper with buffers, archive and location index; \<open>Witness\<close> the anchored roots and the forensic audit.
  \<^item> Log, nucleus.rs and compactor.rs. \<open>Wal\<close> is the frame format, the batch writer with a fault at any byte,
    recovery, the worker as a step relation, and the readers; \<open>Compactor\<close> the two-phase compaction of a segment.
  \<^item> Firewall, aegis.rs. \<open>Token_Bucket\<close> has the rate limiter, also as interleaved atomic steps; \<open>Aegis\<close> the
    policies, the quarantine, the session handshake, the packet audit and the certificate authority of api.rs.
  \<^item> Memory. \<open>Swarm_State\<close> has the CRDT shards of state.rs, registry.rs and telemetry.rs; \<open>Hot_Memory\<close>,
    \<open>Embedding\<close> and \<open>Lance_Store\<close> hot_memory.rs, embedding.rs and lancedb_store.rs; \<open>Memory_Router\<close> memory_router.rs.
  \<^item> Execution. \<open>Sandbox\<close> has the host functions and runs of the cells of sandbox.rs with the guest side of
    src/raqim-agent-sdk/src/lib.rs; \<open>Orchestrator\<close> the deployment of plugins by main.rs.
  \<^item> Network. \<open>Network\<close> is the mesh of network.rs as a trace of publications; \<open>Tcp_Ingress\<close> the TCP edge of
    main.rs; \<open>Rest_Api\<close> the handlers of api.rs, \<open>Control_Plane\<close> its route table, extractors and streams,
    \<open>Ws_Broker\<close> its websocket; \<open>Planes\<close> the ports of cortex.rs, the loops on the event bus and health.rs.
  \<^item> The daemon. \<open>Config\<close> reads the settings of config.rs; \<open>Cascade\<close> is \<open>execute_raqim_cascade\<close> of lib.rs;
    \<open>Boot\<close> the hydration from the log and the listeners of main.rs; \<open>Lifecycle\<close> the cascade cut where another task can
    run, interleaved with the worker of the log; \<open>Daemon\<close> the whole boot sequence; \<open>Shutdown\<close> the drain.
  \<^item> Clients. \<open>Py_Client\<close> is src/raqim-py/src/lib.rs, \<open>Cli\<close> src/raqim-cli/src/main.rs, \<open>Mcp_Bridge\<close>
    src/raqim-mcp/src/main.rs and \<open>Siege\<close> src/raqim-siege/src/.

  How state and effects are modelled. The state of a component is a record; an operation takes it and gives
  it back with its result. Files are byte lists or association lists from name to content, channels
  are lists, the broadcast bus is the list of the events sent. Clocks, random draws, transaction ids, faults of
  disk and network, and replies of servers are arguments. Where tasks interleave, the component is a step relation:
  the worker of the log, racing callers of a bucket, the websocket broker, the life of the node, the
  shutdown and the barrier of the load generator. Words keep the width of the source and wrap as the release
  build does; a place where a debug build would panic instead is named in the component. A mutex or a
  sharded map that serialises its callers is one atomic step.

  What the lemmas show.

  \<^item> Functional behaviour: when a packet, a certificate, a frame or a request is accepted, what is then
    committed, and what every refusal leaves unchanged; inclusion proofs of sealed thoughts verify, also after a
    crash and a boot; what the hybrid search and the effect index return; which plugin is deployed and archived.
  \<^item> Invariants: the chain of batches and the location index (\<open>axon_inv\<close>); the order of the log; where every
    sealed thought is in any interleaving; one answer per question; the lengths of hashes in the ledger.
  \<^item> Refinement and equivalence: the file is the concatenation of the frames of its batches, the boot
    after a crash restores a prefix of them, a compaction extends the archived history, hydration replays sealing, a
    cascade is its two halves, a replayed cell observes what the live cell recorded.
  \<^item> Round trips: frames, envelopes, certificates, timelines, archived columns.
  \<^item> Termination and liveness: loops over bytes are \<open>function\<close>s whose measure is the unread rest, an orphaned
    worker ends within one step per queued log, and a graceful shutdown does not return.
  \<^item> Defects are stated as theorems about what the code does: a log overwritten after a restart, frames the
    reader does not read as the writer wrote them, segments removed unarchived, panicking patterns, audits that
    examine nothing, settings that refuse their own default file, and others.

  Locales. \<open>preserved\<close>, \<open>marking\<close> and \<open>keyed_store\<close> (\<open>Interfaces\<close>) and \<open>labelled_runs\<close> (\<open>Runs\<close>) are
  interpreted on the fusion of search results, the mesh with its switch off, the firewall, the shard registry,
  the effect index, the life of the node and its shutdown; properties rest on the facts of the interpretations.

  Bounds. No definition uses fuel: every loop is structural, has a measure, or is a step relation. A loop of
  the source that runs until its channel closes is modelled over the finite list of what the channel
  delivers. The lemmas on ledgers assume less than \<open>2 ^ 63\<close> leaves, so that no index wraps, and the lemmas on
  frames a payload below \<open>2 ^ 32\<close> bytes, the width of the length field.

  Not modelled. Printing; the tokio runtime, its spawning and its memory; the signal handlers; the
  TLS, HTTP, WebSocket and Zenoh protocols below the calls; floating-point arithmetic (a parameter where its results
  decide something, left out where they are only printed, as in the mean and throughput of the load
  generator); the code of wasmtime, LanceDB, Loro, iceoryx2 and sysinfo, which are parameters;
  src/raqim-core/build.rs, which compiles a C shim; the tests, which use the interfaces modelled here; the web
  console and the project templates of the repository.
\<close>

end
